(* ===== verification/Coala_Prelude.thy ===== *)
theory Coala_Prelude
  imports Main "HOL-Library.Word"
begin

text \<open>
  Shared vocabulary of the development: bytes and Go strings, the big-endian and
  little-endian readers and writers of \<open>encoding/binary\<close>, the 64-bit wrap-around of
  Go's \<open>int\<close>, and the generic lemmas on words, lists and bytes the components use.

  A Go string is an immutable byte sequence, so strings and byte slices share the type
  \<open>bytes\<close>; \<open>lit\<close> turns an ASCII literal into one. A nil slice and an empty slice are
  both \<open>[]\<close>: no code of the repository that is modelled here tells them apart.
\<close>

unbundle bit_operations_syntax

type_synonym byte = "8 word"
type_synonym bytes = "byte list"

named_theorems byte_simps \<open>readers and writers of fixed-width integers\<close>

definition lit :: "string \<Rightarrow> bytes" where
  "lit s = map of_char s"

subsection \<open>Go integers\<close>

text \<open>Go's \<open>int\<close> is 64 bits wide on the supported platforms; \<open>go_int\<close> wraps around.\<close>

definition go_int :: "int \<Rightarrow> int" where
  "go_int x = signed_take_bit 63 x"

lemma go_int_id: "- (2 ^ 63) \<le> x \<Longrightarrow> x < 2 ^ 63 \<Longrightarrow> go_int x = x"
  by (simp add: go_int_def signed_take_bit_int_eq_self)

lemma go_int_mod: "go_int x = (x + 2 ^ 63) mod 2 ^ 64 - 2 ^ 63"
  by (simp add: go_int_def signed_take_bit_eq_take_bit_shift take_bit_eq_mod)

lemma go_int_range: "- (2 ^ 63) \<le> go_int x" "go_int x < 2 ^ 63"
  unfolding go_int_mod by auto

lemma go_int_add_left [simp]: "go_int (go_int x + y) = go_int (x + y)"
proof -
  have "((x + 2 ^ 63) mod 2 ^ 64 + y) mod 2 ^ 64 = (x + 2 ^ 63 + y) mod 2 ^ 64"
    by (simp only: mod_add_left_eq)
  then show ?thesis by (simp add: go_int_mod algebra_simps)
qed

subsection \<open>Fixed-width readers and writers\<close>

text \<open>\<open>binary.BigEndian.PutUint16\<close> and \<open>Uint16\<close>, \<open>PutUint32\<close> and \<open>Uint32\<close>.\<close>

definition put_be16 :: "16 word \<Rightarrow> bytes" where
  "put_be16 w = [ucast (drop_bit 8 w), ucast w]"

definition get_be16 :: "byte \<Rightarrow> byte \<Rightarrow> 16 word" where
  "get_be16 a b = ucast b OR push_bit 8 (ucast a)"

definition put_be32 :: "32 word \<Rightarrow> bytes" where
  "put_be32 w = [ucast (drop_bit 24 w), ucast (drop_bit 16 w), ucast (drop_bit 8 w), ucast w]"

definition get_be32 :: "byte \<Rightarrow> byte \<Rightarrow> byte \<Rightarrow> byte \<Rightarrow> 32 word" where
  "get_be32 a b c d =
     ucast d OR push_bit 8 (ucast c) OR push_bit 16 (ucast b) OR push_bit 24 (ucast a)"

text \<open>\<open>binary.LittleEndian.PutUint16\<close>, used for the AEAD nonce.\<close>

definition put_le16 :: "16 word \<Rightarrow> bytes" where
  "put_le16 w = [ucast w, ucast (drop_bit 8 w)]"

lemma length_put [byte_simps, simp]:
  "length (put_be16 v) = 2" "length (put_be32 w) = 4" "length (put_le16 v) = 2"
  by (simp_all add: put_be16_def put_be32_def put_le16_def)

lemma get_put_be16 [byte_simps, simp]: "get_be16 (ucast (drop_bit 8 w)) (ucast w) = w"
  unfolding get_be16_def
  by (rule bit_word_eqI) (auto simp: bit_simps not_less le_diff_conv add.commute dest: bit_imp_le_length)

lemma get_put_be32 [byte_simps, simp]:
  "get_be32 (ucast (drop_bit 24 w)) (ucast (drop_bit 16 w)) (ucast (drop_bit 8 w)) (ucast w) = w"
proof (rule bit_word_eqI)
  fix n assume "n < LENGTH(32)"
  then show "bit (get_be32 (ucast (drop_bit 24 w)) (ucast (drop_bit 16 w))
      (ucast (drop_bit 8 w)) (ucast w)) n \<longleftrightarrow> bit w n"
    by (cases "n < 8"; cases "n < 16"; cases "n < 24")
       (auto simp: get_be32_def bit_simps not_less less_diff_conv2)
qed

lemma uint_get_be16: "uint (get_be16 a b) = 256 * uint a + uint b"
proof -
  have w: "get_be16 a b = word_of_int (uint b OR push_bit 8 (uint a))"
    unfolding get_be16_def
    by (rule bit_word_eqI) (auto simp: bit_simps)
  have d: "uint b OR push_bit 8 (uint a) = uint b + push_bit 8 (uint a)"
    by (rule disjunctive_add [symmetric]) (auto simp: bit_simps dest: bit_imp_le_length)
  have "uint b + push_bit 8 (uint a) < 2 ^ 16"
    using uint_lt2p [of a] uint_lt2p [of b] by (simp add: push_bit_eq_mult)
  then have "take_bit 16 (uint b + push_bit 8 (uint a)) = uint b + push_bit 8 (uint a)"
    by (simp add: take_bit_int_eq_self push_bit_eq_mult)
  then show ?thesis
    unfolding w d uint_word_of_int_eq by (simp add: push_bit_eq_mult)
qed

end
