(* ===== verification/Go_Map.thy ===== *)
theory Go_Map
  imports Coala_Prelude "HOL-Library.AList"
begin

text \<open>
  The interface of a Go map: lookup, store, delete and \<open>len\<close>, with the laws every client
  in the repository relies on (the block buffers, the shards of the caches, the channel
  tables). Maps are represented by association lists with distinct keys.
\<close>

locale go_map =
  fixes mk :: 'm
    and load :: "'m \<Rightarrow> 'k \<Rightarrow> 'v option"
    and store :: "'k \<Rightarrow> 'v \<Rightarrow> 'm \<Rightarrow> 'm"
    and remove :: "'k \<Rightarrow> 'm \<Rightarrow> 'm"
    and len :: "'m \<Rightarrow> nat"
    and ok :: "'m \<Rightarrow> bool"
  assumes ok_mk: "ok mk"
    and ok_store: "ok m \<Longrightarrow> ok (store k v m)"
    and ok_remove: "ok m \<Longrightarrow> ok (remove k m)"
    and load_mk: "load mk k = None"
    and load_store: "ok m \<Longrightarrow> load (store k v m) j = (if j = k then Some v else load m j)"
    and load_remove: "ok m \<Longrightarrow> load (remove k m) j = (if j = k then None else load m j)"
    and finite_dom: "ok m \<Longrightarrow> finite (dom (load m))"
    and len_dom: "ok m \<Longrightarrow> len m = card (dom (load m))"
begin

lemma len_mk: "len mk = 0"
proof -
  have "dom (load mk) = {}" by (auto simp: load_mk)
  then show ?thesis using len_dom [OF ok_mk] by simp
qed

lemma dom_store: "ok m \<Longrightarrow> dom (load (store k v m)) = insert k (dom (load m))"
  by (auto simp: load_store split: if_splits)

lemma len_store: "ok m \<Longrightarrow> len (store k v m) = (if load m k = None then Suc (len m) else len m)"
  by (auto simp: len_dom ok_store dom_store finite_dom insert_absorb domIff)

text \<open>A map with keys in a finite set has them all exactly when it is as large.\<close>

lemma full_iff:
  assumes "ok m" "dom (load m) \<subseteq> K" "finite K"
  shows "len m = card K \<longleftrightarrow> dom (load m) = K"
  using assms card_subset_eq [OF assms(3,2)] len_dom [OF assms(1)] by metis

end

interpretation al: go_map "[]" map_of AList.update AList.delete length "\<lambda>m. distinct (map fst m)"
proof unfold_locales
  fix m :: "('a \<times> 'b) list" and k j v
  show "map_of (AList.update k v m) j = (if j = k then Some v else map_of m j)"
    by (simp add: update_conv')
  show "map_of (AList.delete k m) j = (if j = k then None else map_of m j)"
    by (simp add: AList.delete_conv')
  assume d: "distinct (map fst m)"
  then show "distinct (map fst (AList.update k v m))" "distinct (map fst (AList.delete k m))"
    by (auto intro: distinct_update distinct_delete)
  show "finite (dom (map_of m))" by (rule finite_dom_map_of)
  show "length m = card (dom (map_of m))"
    using d by (metis dom_map_of_conv_image_fst distinct_card length_map set_map)
qed simp_all

end
