(* ===== verification/Sharded_Cache.thy ===== *)
theory Sharded_Cache
  imports Go_Map
begin

text \<open>
  \<open>storage.go\<close>: the cache with expiry, split into 64 shards by a hash of the key. Every
  operation reads the clock; the reading is an argument, in nanoseconds. A shard, a
  \<open>sync.Map\<close>, is an association list.
\<close>

subsection \<open>The cache\<close>

definition shardCount :: nat where "shardCount = 64"

record 'v cacheItem =
  itemValue :: 'v
  expiresAt :: int

record 'v shardedCache =
  shards :: "(bytes \<times> 'v cacheItem) list list"
  ttl :: int

definition newShardedCache :: "int \<Rightarrow> 'v shardedCache" where
  "newShardedCache t = \<lparr>shards = replicate shardCount [], ttl = t\<rparr>"

definition fnv32 :: "bytes \<Rightarrow> 32 word" where
  "fnv32 key = fold (\<lambda>b h. (h * 16777619) XOR ucast b) key 2166136261"

definition shard_index :: "bytes \<Rightarrow> nat" where
  "shard_index key = unat (fnv32 key) mod shardCount"

definition shard :: "'v shardedCache \<Rightarrow> bytes \<Rightarrow> (bytes \<times> 'v cacheItem) list" where
  "shard c key = shards c ! shard_index key"

definition put_shard :: "bytes \<Rightarrow> (bytes \<times> 'v cacheItem) list \<Rightarrow> 'v shardedCache \<Rightarrow> 'v shardedCache" where
  "put_shard key sh c = c\<lparr>shards := (shards c)[shard_index key := sh]\<rparr>"

definition Cache_Set :: "bytes \<Rightarrow> 'v \<Rightarrow> int \<Rightarrow> 'v shardedCache \<Rightarrow> 'v shardedCache" where
  "Cache_Set key val now c =
    put_shard key (AList.update key \<lparr>itemValue = val, expiresAt = now + ttl c\<rparr> (shard c key)) c"

definition Cache_Delete :: "bytes \<Rightarrow> 'v shardedCache \<Rightarrow> 'v shardedCache" where
  "Cache_Delete key c = put_shard key (AList.delete key (shard c key)) c"

definition Cache_Get :: "bytes \<Rightarrow> int \<Rightarrow> 'v shardedCache \<Rightarrow> 'v option \<times> 'v shardedCache" where
  "Cache_Get key now c =
    (case map_of (shard c key) key of
       None \<Rightarrow> (None, c)
     | Some item \<Rightarrow>
         if now > expiresAt item then (None, put_shard key (AList.delete key (shard c key)) c)
         else (Some (itemValue item), c))"

text \<open>The two clock readings: for the new expiry, then for the test of the stored one.\<close>

definition Cache_LoadOrStore ::
    "bytes \<Rightarrow> 'v \<Rightarrow> int \<Rightarrow> int \<Rightarrow> 'v shardedCache \<Rightarrow> ('v \<times> bool) \<times> 'v shardedCache" where
  "Cache_LoadOrStore key val now now' c =
    (let sh = shard c key;
         item = \<lparr>itemValue = val, expiresAt = now + ttl c\<rparr>
     in case map_of sh key of
          Some existing \<Rightarrow>
            if now' < expiresAt existing then ((itemValue existing, True), c)
            else ((val, False), put_shard key (AList.update key item (AList.delete key sh)) c)
        | None \<Rightarrow> ((val, False), put_shard key (AList.update key item sh) c))"

text \<open>\<open>Range\<close> visits the entries one by one: \<open>clk key\<close> is the clock when it visits \<open>key\<close>.\<close>

definition Cache_ItemCount :: "(bytes \<Rightarrow> int) \<Rightarrow> 'v shardedCache \<Rightarrow> nat" where
  "Cache_ItemCount clk c =
    sum_list (map (\<lambda>sh. length (filter (\<lambda>(k, item). clk k < expiresAt item) sh)) (shards c))"

definition Cache_Cleanup :: "(bytes \<Rightarrow> int) \<Rightarrow> 'v shardedCache \<Rightarrow> 'v shardedCache" where
  "Cache_Cleanup clk c =
    c\<lparr>shards := map (filter (\<lambda>(k, item). \<not> clk k > expiresAt item)) (shards c)\<rparr>"

subsection \<open>Invariant and abstraction\<close>

text \<open>Every shard has distinct keys, each hashed to it.\<close>

definition cache_ok :: "'v shardedCache \<Rightarrow> bool" where
  "cache_ok c \<longleftrightarrow> length (shards c) = shardCount \<and>
    (\<forall>i < shardCount. distinct (map fst (shards c ! i)) \<and>
       (\<forall>k \<in> fst ` set (shards c ! i). shard_index k = i))"

definition cache_abs :: "'v shardedCache \<Rightarrow> bytes \<Rightarrow> 'v cacheItem option" where
  "cache_abs c key = map_of (shard c key) key"

lemma shard_index_less: "shard_index key < shardCount"
  by (simp add: shard_index_def shardCount_def)

lemma shard_ok: "cache_ok c \<Longrightarrow> distinct (map fst (shard c key))"
  "cache_ok c \<Longrightarrow> k \<in> fst ` set (shard c key) \<Longrightarrow> shard_index k = shard_index key"
  using shard_index_less by (auto simp: cache_ok_def shard_def)

lemma cache_ok_new: "cache_ok (newShardedCache t)"
  by (simp add: cache_ok_def newShardedCache_def)

lemma cache_ok_put:
  assumes "cache_ok c" "distinct (map fst sh)" "fst ` set sh \<subseteq> insert key (fst ` set (shard c key))"
  shows "cache_ok (put_shard key sh c)"
proof -
  have "\<forall>k \<in> fst ` set sh. shard_index k = shard_index key"
    using assms(3) shard_ok(2) [OF assms(1)] by blast
  moreover have "shards (put_shard key sh c) ! i = (if i = shard_index key then sh else shards c ! i)"
    for i using assms(1) shard_index_less [of key] by (simp add: cache_ok_def put_shard_def nth_list_update)
  ultimately show ?thesis
    using assms(1,2) unfolding cache_ok_def by (simp add: put_shard_def)
qed

lemma shard_put:
  "cache_ok c \<Longrightarrow> shard (put_shard key sh c) k = (if shard_index k = shard_index key then sh else shard c k)"
  using shard_index_less [of k] by (auto simp: shard_def put_shard_def cache_ok_def)

lemma cache_abs_put:
  assumes "cache_ok c" "\<And>j. j \<noteq> key \<Longrightarrow> map_of sh j = map_of (shard c key) j"
  shows "cache_abs (put_shard key sh c) = (cache_abs c)(key := map_of sh key)"
proof
  fix j
  have "shard c j = shard c key" if "shard_index j = shard_index key"
    using that by (simp add: shard_def)
  then show "cache_abs (put_shard key sh c) j = ((cache_abs c)(key := map_of sh key)) j"
    using assms by (auto simp: cache_abs_def shard_put)
qed

lemma ttl_put [simp]: "ttl (put_shard key sh c) = ttl c"
  by (simp add: put_shard_def)

lemma keys_update: "fst ` set (AList.update k v m) = insert k (fst ` set m)"
  by (simp add: dom_update)

lemma keys_delete: "fst ` set (AList.delete k m) = fst ` set m - {k}"
  by (simp add: AList.delete_keys flip: set_map)

text \<open>The operations on the abstraction, one map for all keys.\<close>

lemma Cache_Set_refine:
  assumes "cache_ok c"
  shows "cache_ok (Cache_Set key v now c)" "ttl (Cache_Set key v now c) = ttl c"
    "cache_abs (Cache_Set key v now c) = (cache_abs c)(key \<mapsto> \<lparr>itemValue = v, expiresAt = now + ttl c\<rparr>)"
proof -
  show "cache_ok (Cache_Set key v now c)"
    unfolding Cache_Set_def by (rule cache_ok_put)
      (simp_all add: assms shard_ok al.ok_store keys_update)
  show "cache_abs (Cache_Set key v now c) = (cache_abs c)(key \<mapsto> \<lparr>itemValue = v, expiresAt = now + ttl c\<rparr>)"
    unfolding Cache_Set_def by (subst cache_abs_put) (simp_all add: assms update_conv')
qed (simp add: Cache_Set_def)

lemma Cache_Delete_refine:
  assumes "cache_ok c"
  shows "cache_ok (Cache_Delete key c)" "ttl (Cache_Delete key c) = ttl c"
    "cache_abs (Cache_Delete key c) = (cache_abs c)(key := None)"
proof -
  show "cache_ok (Cache_Delete key c)"
    unfolding Cache_Delete_def by (rule cache_ok_put)
      (auto simp: assms shard_ok al.ok_remove keys_delete)
  show "cache_abs (Cache_Delete key c) = (cache_abs c)(key := None)"
    unfolding Cache_Delete_def by (subst cache_abs_put) (simp_all add: assms AList.delete_conv')
qed (simp add: Cache_Delete_def)

lemma Cache_Get_delete:
  "Cache_Get key now c = (case cache_abs c key of
     None \<Rightarrow> (None, c)
   | Some item \<Rightarrow> if now > expiresAt item then (None, Cache_Delete key c) else (Some (itemValue item), c))"
  by (simp add: Cache_Get_def cache_abs_def Cache_Delete_def split: option.split)

lemma Cache_LoadOrStore_set:
  assumes "cache_ok c"
  shows "Cache_LoadOrStore key v now now' c = (case cache_abs c key of
     None \<Rightarrow> ((v, False), Cache_Set key v now c)
   | Some item \<Rightarrow> if now' < expiresAt item then ((itemValue item, True), c)
        else ((v, False), Cache_Set key v now (Cache_Delete key c)))"
proof -
  have "put_shard key sh (put_shard key sh' c) = put_shard key sh c" for sh sh'
    by (simp add: put_shard_def)
  then show ?thesis
    using assms by (simp add: Cache_LoadOrStore_def cache_abs_def Cache_Set_def Cache_Delete_def Let_def
        shard_put split: option.split)
qed

lemma Cache_Cleanup_refine:
  assumes "cache_ok c"
  shows "cache_ok (Cache_Cleanup clk c)" "ttl (Cache_Cleanup clk c) = ttl c"
    "cache_abs (Cache_Cleanup clk c) k =
       (case cache_abs c k of None \<Rightarrow> None | Some item \<Rightarrow> if clk k > expiresAt item then None else Some item)"
proof -
  have f: "distinct (map fst m) \<Longrightarrow> map_of (filter (\<lambda>(k, item). \<not> clk k > expiresAt item) m) j =
      (case map_of m j of None \<Rightarrow> None | Some item \<Rightarrow> if clk j > expiresAt item then None else Some item)"
    for m :: "(bytes \<times> 'a cacheItem) list" and j
    by (induction m) (auto split: option.splits dest: weak_map_of_SomeI map_of_SomeD simp: rev_image_eqI)
  show "cache_ok (Cache_Cleanup clk c)"
    using assms by (auto simp: cache_ok_def Cache_Cleanup_def distinct_map_filter)
  show "cache_abs (Cache_Cleanup clk c) k =
       (case cache_abs c k of None \<Rightarrow> None | Some item \<Rightarrow> if clk k > expiresAt item then None else Some item)"
    using f [OF shard_ok(1) [OF assms]] assms shard_index_less [of k]
    by (simp add: cache_abs_def Cache_Cleanup_def shard_def cache_ok_def)
qed (simp add: Cache_Cleanup_def)

subsection \<open>Refinement of one map\<close>

datatype 'v cache_op =
    OpSet bytes 'v int
  | OpGet bytes int
  | OpDelete bytes
  | OpLoadOrStore bytes 'v int int
  | OpCleanup "bytes \<Rightarrow> int"

datatype 'v cache_res = Done | Got "'v option" | Loaded 'v bool

fun cache_step :: "'v cache_op \<Rightarrow> 'v shardedCache \<Rightarrow> 'v cache_res \<times> 'v shardedCache" where
  "cache_step (OpSet key v now) c = (Done, Cache_Set key v now c)"
| "cache_step (OpGet key now) c = (let (r, c) = Cache_Get key now c in (Got r, c))"
| "cache_step (OpDelete key) c = (Done, Cache_Delete key c)"
| "cache_step (OpLoadOrStore key v now now') c =
     (let ((r, ld), c) = Cache_LoadOrStore key v now now' c in (Loaded r ld, c))"
| "cache_step (OpCleanup clk) c = (Done, Cache_Cleanup clk c)"

text \<open>The specification: one map from keys to values with their expiry times.\<close>

type_synonym 'v flat = "bytes \<Rightarrow> 'v cacheItem option"

fun flat_step :: "int \<Rightarrow> 'v cache_op \<Rightarrow> 'v flat \<Rightarrow> 'v cache_res \<times> 'v flat" where
  "flat_step t (OpSet key v now) f = (Done, f(key \<mapsto> \<lparr>itemValue = v, expiresAt = now + t\<rparr>))"
| "flat_step t (OpGet key now) f = (case f key of
     None \<Rightarrow> (Got None, f)
   | Some i \<Rightarrow> if now > expiresAt i then (Got None, f(key := None)) else (Got (Some (itemValue i)), f))"
| "flat_step t (OpDelete key) f = (Done, f(key := None))"
| "flat_step t (OpLoadOrStore key v now now') f =
    (let new = (Loaded v False, f(key \<mapsto> \<lparr>itemValue = v, expiresAt = now + t\<rparr>))
     in case f key of None \<Rightarrow> new | Some i \<Rightarrow> if now' < expiresAt i then (Loaded (itemValue i) True, f) else new)"
| "flat_step t (OpCleanup clk) f =
    (Done, \<lambda>k. case f k of None \<Rightarrow> None | Some i \<Rightarrow> if clk k > expiresAt i then None else Some i)"

fun run_ops :: "('op \<Rightarrow> 's \<Rightarrow> 'r \<times> 's) \<Rightarrow> 'op list \<Rightarrow> 's \<Rightarrow> 'r list \<times> 's" where
  "run_ops step [] s = ([], s)"
| "run_ops step (a # as) s = (let (r, s) = step a s; (rs, s) = run_ops step as s in (r # rs, s))"

lemma cache_step_refine:
  assumes "cache_ok c"
  shows "fst (cache_step a c) = fst (flat_step (ttl c) a (cache_abs c)) \<and>
    cache_abs (snd (cache_step a c)) = snd (flat_step (ttl c) a (cache_abs c)) \<and>
    cache_ok (snd (cache_step a c)) \<and> ttl (snd (cache_step a c)) = ttl c"
  by (cases a)
     (auto simp: Cache_Set_refine Cache_Delete_refine Cache_Cleanup_refine Cache_Get_delete
       Cache_LoadOrStore_set [OF assms] assms Let_def split: option.split)

lemma run_ops_refine:
  "cache_ok c \<Longrightarrow> fst (run_ops cache_step as c) = fst (run_ops (flat_step (ttl c)) as (cache_abs c)) \<and>
    cache_abs (snd (run_ops cache_step as c)) = snd (run_ops (flat_step (ttl c)) as (cache_abs c)) \<and>
    cache_ok (snd (run_ops cache_step as c)) \<and> ttl (snd (run_ops cache_step as c)) = ttl c"
proof (induction as arbitrary: c)
  case (Cons a as)
  from cache_step_refine [OF Cons.prems, of a] Cons.IH [of "snd (cache_step a c)"]
  show ?case by (simp add: Let_def split_beta)
qed simp

subsection \<open>Properties\<close>

text \<open>C13: The sharded cache is one map: any sequence of Set, Get, Delete, LoadOrStore and
  cleanup passes on a new cache returns what it returns on a single map with expiry times,
  whatever the hash does, and leaves each key in one shard with the item the single map has.\<close>

theorem sharded_cache_refines_map:
  "fst (run_ops cache_step ops (newShardedCache t)) = fst (run_ops (flat_step t) ops Map.empty) \<and>
   cache_ok (snd (run_ops cache_step ops (newShardedCache t))) \<and>
   (\<forall>key. cache_abs (snd (run_ops cache_step ops (newShardedCache t))) key
      = snd (run_ops (flat_step t) ops Map.empty) key)"
proof -
  have "cache_abs (newShardedCache t :: 'a shardedCache) = Map.empty"
    by (rule ext) (simp add: cache_abs_def shard_def newShardedCache_def shard_index_less)
  moreover have "ttl (newShardedCache t :: 'a shardedCache) = t" by (simp add: newShardedCache_def)
  ultimately show ?thesis using run_ops_refine [OF cache_ok_new, of ops t] by simp
qed

text \<open>The operation leaves the entry of \<open>key\<close> alone: it is on another key, or a cleanup that
  visits the key not after \<open>t\<close>.\<close>

fun spares :: "bytes \<Rightarrow> int \<Rightarrow> 'v cache_op \<Rightarrow> bool" where
  "spares key t (OpSet k _ _) = (k \<noteq> key)"
| "spares key t (OpGet k _) = (k \<noteq> key)"
| "spares key t (OpDelete k) = (k \<noteq> key)"
| "spares key t (OpLoadOrStore k _ _ _) = (k \<noteq> key)"
| "spares key t (OpCleanup clk) = (clk key \<le> t)"

lemma flat_step_spares:
  "spares key (expiresAt i) a \<Longrightarrow> f key = Some i \<Longrightarrow> snd (flat_step t a f) key = Some i"
  by (cases a) (auto simp: Let_def split: option.split)

lemma run_ops_spares:
  "list_all (spares key (expiresAt i)) as \<Longrightarrow> cache_ok d \<Longrightarrow> cache_abs d key = Some i \<Longrightarrow>
    cache_abs (snd (run_ops cache_step as d)) key = Some i"
proof (induction as arbitrary: d)
  case (Cons a as)
  from cache_step_refine [OF Cons.prems(2), of a] flat_step_spares [of key i a "cache_abs d" "ttl d"] Cons
  show ?case by (simp add: Let_def split_beta)
qed simp

text \<open>What \<open>ItemCount\<close> counts: the keys of the one map whose entry has not reached its expiry when
  the walk visits them.\<close>

lemma map_of_shard:
  assumes "cache_ok c"
  shows "cache_abs c k = Some it \<longleftrightarrow> (\<exists>i < shardCount. (k, it) \<in> set (shards c ! i))"
proof
  assume "cache_abs c k = Some it"
  then have "(k, it) \<in> set (shards c ! shard_index k)"
    by (simp add: cache_abs_def shard_def map_of_SomeD)
  then show "\<exists>i < shardCount. (k, it) \<in> set (shards c ! i)" using shard_index_less by blast
next
  assume "\<exists>i < shardCount. (k, it) \<in> set (shards c ! i)"
  then obtain i where i: "i < shardCount" "(k, it) \<in> set (shards c ! i)" by blast
  then have "shard_index k = i" "distinct (map fst (shards c ! i))"
    using assms unfolding cache_ok_def by (metis fst_conv image_eqI, blast)
  then show "cache_abs c k = Some it" using i(2) by (simp add: cache_abs_def shard_def)
qed

lemma ItemCount_card:
  assumes "cache_ok c"
  shows "Cache_ItemCount clk c = card {k. \<exists>i. cache_abs c k = Some i \<and> clk k < expiresAt i}"
proof -
  let ?P = "\<lambda>(k, item). clk k < expiresAt item"
  let ?K = "\<lambda>i. fst ` set (filter ?P (shards c ! i))"
  have l: "length (shards c) = shardCount" using assms by (simp add: cache_ok_def)
  have d: "distinct (map fst (shards c ! i))" "\<forall>k \<in> ?K i. shard_index k = i" if "i < shardCount" for i
    using assms that unfolding cache_ok_def by auto
  have "distinct (map fst (filter ?P (shards c ! i)))" if "i < shardCount" for i
    using d(1) [OF that] by (rule distinct_map_filter)
  then have len: "length (filter ?P (shards c ! i)) = card (?K i)" if "i < shardCount" for i
    using that distinct_card [of "map fst (filter ?P (shards c ! i))"] by simp
  have "Cache_ItemCount clk c = (\<Sum>i\<in>{..<shardCount}. length (filter ?P (shards c ! i)))"
    by (simp add: Cache_ItemCount_def sum_list_sum_nth l atLeast0LessThan)
  also have "\<dots> = (\<Sum>i\<in>{..<shardCount}. card (?K i))" using len by simp
  also have "\<dots> = card (\<Union>i\<in>{..<shardCount}. ?K i)"
  proof (rule card_UN_disjoint [symmetric])
    show "\<forall>i \<in> {..<shardCount}. \<forall>j \<in> {..<shardCount}. i \<noteq> j \<longrightarrow> ?K i \<inter> ?K j = {}"
      using d(2) by (metis disjoint_iff lessThan_iff)
  qed simp_all
  also have "(\<Union>i\<in>{..<shardCount}. ?K i) = {k. \<exists>i. cache_abs c k = Some i \<and> clk k < expiresAt i}"
    unfolding map_of_shard [OF assms] by (force simp: image_iff)
  finally show ?thesis .
qed

text \<open>C21: An entry lives exactly for its time to live: stored at \<open>now\<close>, it is returned by Get up
  to and including \<open>now + ttl\<close>, whatever happened to other keys and through cleanup passes,
  and not later; LoadOrStore keeps it and ItemCount counts it, beside the live entries of the
  other keys, strictly before that instant only.\<close>

theorem cache_entry_lifetime:
  assumes "cache_ok c" "list_all (spares key (now + ttl c)) ops"
    and "c' = snd (run_ops cache_step ops (Cache_Set key v now c))"
  shows "(\<forall>t. fst (Cache_Get key t c') = (if t \<le> now + ttl c then Some v else None)) \<and>
    (\<forall>w t t'. fst (Cache_LoadOrStore key w t t' c') =
       (if t' < now + ttl c then (v, True) else (w, False))) \<and>
    (\<forall>clk. Cache_ItemCount clk c' =
       card {k. k \<noteq> key \<and> (\<exists>i. cache_abs c' k = Some i \<and> clk k < expiresAt i)} +
       (if clk key < now + ttl c then 1 else 0))"
proof -
  let ?i = "\<lparr>itemValue = v, expiresAt = now + ttl c\<rparr>"
  have c': "cache_abs c' key = Some ?i" "cache_ok c'"
    using assms Cache_Set_refine [OF assms(1)] run_ops_refine [of "Cache_Set key v now c" ops]
      run_ops_spares [of key ?i ops "Cache_Set key v now c"] by auto
  have "Cache_ItemCount clk c' =
      card {k. k \<noteq> key \<and> (\<exists>i. cache_abs c' k = Some i \<and> clk k < expiresAt i)} +
      (if clk key < now + ttl c then 1 else 0)" for clk
  proof -
    let ?L = "{k. \<exists>i. cache_abs c' k = Some i \<and> clk k < expiresAt i}"
    let ?O = "{k. k \<noteq> key \<and> (\<exists>i. cache_abs c' k = Some i \<and> clk k < expiresAt i)}"
    have "finite (dom (cache_abs c'))"
    proof (rule finite_subset)
      show "dom (cache_abs c') \<subseteq> (\<Union>i\<in>{..<shardCount}. fst ` set (shards c' ! i))"
        using map_of_shard [OF c'(2)] by (force simp: dom_def)
    qed simp
    then have "finite ?O" by (rule finite_subset [rotated]) (auto simp: dom_def)
    moreover have "?L = (if clk key < now + ttl c then insert key ?O else ?O)" using c'(1) by auto
    ultimately show ?thesis unfolding ItemCount_card [OF c'(2)] by simp
  qed
  then show ?thesis
    using c' by (auto simp: Cache_Get_delete Cache_LoadOrStore_set)
qed

theorem cache_entry_lifetime_witness:
  "fst (Cache_Get (lit ''k'') 110 (Cache_Set (lit ''k'') (7 :: nat) 100 (newShardedCache 10))) = Some 7 \<and>
   fst (Cache_Get (lit ''k'') 111 (Cache_Set (lit ''k'') (7 :: nat) 100 (newShardedCache 10))) = None"
proof -
  have t: "ttl (newShardedCache 10 :: nat shardedCache) = 10" by (simp add: newShardedCache_def)
  have "list_all (spares (lit ''k'') (100 + ttl (newShardedCache 10 :: nat shardedCache))) ([] :: nat cache_op list)"
    by simp
  from cache_entry_lifetime [OF cache_ok_new this refl, of 7]
  show ?thesis by (simp add: t)
qed

end
