(* ===== verification/Session_Store.thy ===== *)
theory Session_Store
  imports Sharded_Cache
begin

text \<open>
  The stores of \<open>storage.go\<close> built on the sharded cache: the session pools, keyed by
  sender, receiver and proxy, the proxy-id pool and the pool of TCP connections. They use
  the cache through the interface \<open>ttl_store\<close>.
\<close>

subsection \<open>The interface of a store with expiry\<close>

locale ttl_store =
  fixes sset :: "bytes \<Rightarrow> 'v \<Rightarrow> int \<Rightarrow> 's \<Rightarrow> 's"
    and sget :: "bytes \<Rightarrow> int \<Rightarrow> 's \<Rightarrow> 'v option \<times> 's"
    and sdel :: "bytes \<Rightarrow> 's \<Rightarrow> 's"
    and sok :: "'s \<Rightarrow> bool"
    and life :: "'s \<Rightarrow> int"
  assumes sok_set: "sok s \<Longrightarrow> sok (sset k v t s)"
    and sok_get: "sok s \<Longrightarrow> sok (snd (sget k t s))"
    and sok_del: "sok s \<Longrightarrow> sok (sdel k s)"
    and life_set: "life (sset k v t s) = life s"
    and life_get: "life (snd (sget k t s)) = life s"
    and life_del: "life (sdel k s) = life s"
    and get_set: "sok s \<Longrightarrow> fst (sget k t' (sset k v t s)) = (if t' \<le> t + life s then Some v else None)"
    and get_set_other: "sok s \<Longrightarrow> j \<noteq> k \<Longrightarrow> fst (sget j t' (sset k v t s)) = fst (sget j t' s)"
    and get_del: "sok s \<Longrightarrow> fst (sget k t' (sdel k s)) = None"
    and get_del_other: "sok s \<Longrightarrow> j \<noteq> k \<Longrightarrow> fst (sget j t' (sdel k s)) = fst (sget j t' s)"
    and get_get: "sok s \<Longrightarrow> t \<le> t' \<Longrightarrow> fst (sget j t' (snd (sget k t s))) = fst (sget j t' s)"
begin

text \<open>A hit that is stored again at \<open>t'\<close> is found for a whole lifetime from \<open>t'\<close> on.\<close>

lemma get_refresh:
  assumes "sok s" "sget k t s = (Some v, s')" "t'' \<le> t' + life s"
  shows "fst (sget k t'' (sset k v t' s')) = Some v"
  using get_set [of s' k t'' v t'] sok_get [OF assms(1), of k t] life_get [of k t s] assms by simp

text \<open>Refreshing one key does not change what another key returns.\<close>

lemma get_refresh_other:
  assumes "sok s" "sget k t s = (Some v, s')" "j \<noteq> k" "t \<le> t''"
  shows "fst (sget j t'' (sset k v t' s')) = fst (sget j t'' s)"
  using get_set_other [of s' j k t'' v t'] sok_get [OF assms(1), of k t] get_get [of s t t'' j k] assms by simp

end

interpretation sc: ttl_store Cache_Set Cache_Get Cache_Delete cache_ok ttl
proof unfold_locales
  fix s :: "'a shardedCache" and k j :: bytes and v :: 'a and t t' :: int
  show "ttl (Cache_Set k v t s) = ttl s" by (simp add: Cache_Set_def)
  show "ttl (Cache_Delete k s) = ttl s" by (simp add: Cache_Delete_def)
  then show "ttl (snd (Cache_Get k t s)) = ttl s"
    by (simp add: Cache_Get_delete split: option.split)
  assume ok: "cache_ok s"
  note r = Cache_Set_refine [OF ok] Cache_Delete_refine [OF ok]
  show "cache_ok (Cache_Set k v t s)" "cache_ok (Cache_Delete k s)" by (simp_all add: r)
  show "cache_ok (snd (Cache_Get k t s))"
    by (simp add: Cache_Get_delete r ok split: option.split)
  show "fst (Cache_Get k t' (Cache_Set k v t s)) = (if t' \<le> t + ttl s then Some v else None)"
    by (simp add: Cache_Get_delete r)
  show "fst (Cache_Get k t' (Cache_Delete k s)) = None" by (simp add: Cache_Get_delete r)
  show "j \<noteq> k \<Longrightarrow> fst (Cache_Get j t' (Cache_Set k v t s)) = fst (Cache_Get j t' s)"
    by (simp add: Cache_Get_delete r split: option.split)
  show "j \<noteq> k \<Longrightarrow> fst (Cache_Get j t' (Cache_Delete k s)) = fst (Cache_Get j t' s)"
    by (simp add: Cache_Get_delete r split: option.split)
  show "t \<le> t' \<Longrightarrow> fst (Cache_Get j t' (snd (Cache_Get k t s))) = fst (Cache_Get j t' s)"
    by (cases "j = k") (auto simp: Cache_Get_delete r split: option.split)
qed

subsection \<open>Session pools\<close>

text \<open>With a proxy the sender is dropped from the key; the parts are concatenated.\<close>

definition session_key :: "bytes \<Rightarrow> bytes \<Rightarrow> bytes \<Rightarrow> bytes" where
  "session_key sender receiver proxy =
    (let sender = (if proxy \<noteq> [] then [] else sender) in sender @ receiver @ proxy)"

definition Session_Set :: "bytes \<Rightarrow> bytes \<Rightarrow> bytes \<Rightarrow> 'v \<Rightarrow> int \<Rightarrow> 'v shardedCache \<Rightarrow> 'v shardedCache" where
  "Session_Set sender receiver proxy sess now st = Cache_Set (session_key sender receiver proxy) sess now st"

definition Session_Get :: "bytes \<Rightarrow> bytes \<Rightarrow> bytes \<Rightarrow> int \<Rightarrow> 'v shardedCache \<Rightarrow> 'v option \<times> 'v shardedCache" where
  "Session_Get sender receiver proxy now st = Cache_Get (session_key sender receiver proxy) now st"

definition Session_Delete :: "bytes \<Rightarrow> bytes \<Rightarrow> bytes \<Rightarrow> 'v shardedCache \<Rightarrow> 'v shardedCache" where
  "Session_Delete sender receiver proxy st = Cache_Delete (session_key sender receiver proxy) st"

definition Session_LoadOrStore ::
    "bytes \<Rightarrow> bytes \<Rightarrow> bytes \<Rightarrow> 'v \<Rightarrow> int \<Rightarrow> int \<Rightarrow> 'v shardedCache \<Rightarrow> ('v \<times> bool) \<times> 'v shardedCache" where
  "Session_LoadOrStore sender receiver proxy sess now now' st =
    (let key = session_key sender receiver proxy
     in case Cache_Get key now st of
          (Some v, st) \<Rightarrow> ((v, True), st)
        | (None, st) \<Rightarrow> ((sess, False), Cache_Set key sess now' st))"

definition sessionsTotalCount :: "(bytes \<Rightarrow> int) \<Rightarrow> 'v shardedCache list \<Rightarrow> nat" where
  "sessionsTotalCount clk sessionStorages = sum_list (map (Cache_ItemCount clk) sessionStorages)"

subsection \<open>Proxy ids and TCP connections\<close>

definition Proxy_Set :: "bytes \<Rightarrow> 'v \<Rightarrow> int \<Rightarrow> 'v shardedCache \<Rightarrow> 'v shardedCache" where
  "Proxy_Set key v now st = Cache_Set key v now st"

definition Proxy_Get :: "bytes \<Rightarrow> int \<Rightarrow> 'v shardedCache \<Rightarrow> 'v option \<times> 'v shardedCache" where
  "Proxy_Get key now st = Cache_Get key now st"

definition Proxy_Delete :: "bytes \<Rightarrow> 'v shardedCache \<Rightarrow> 'v shardedCache" where
  "Proxy_Delete key st = Cache_Delete key st"

definition tcp_key :: "bytes \<Rightarrow> bytes" where
  "tcp_key addr = lit ''tcp:'' @ addr"

definition SetTCP :: "bytes \<Rightarrow> 'v \<Rightarrow> int \<Rightarrow> 'v shardedCache \<Rightarrow> 'v shardedCache" where
  "SetTCP addr conn now st = Cache_Set (tcp_key addr) conn now st"

definition GetTCP :: "bytes \<Rightarrow> int \<Rightarrow> 'v shardedCache \<Rightarrow> 'v option \<times> 'v shardedCache" where
  "GetTCP addr now st = Cache_Get (tcp_key addr) now st"

definition DeleteTCP :: "bytes \<Rightarrow> 'v shardedCache \<Rightarrow> 'v shardedCache" where
  "DeleteTCP addr st = Cache_Delete (tcp_key addr) st"

subsection \<open>Properties\<close>

lemma session_key_direct: "session_key s r [] = s @ r"
  and session_key_proxy: "p \<noteq> [] \<Longrightarrow> session_key s r p = r @ p"
  by (simp_all add: session_key_def)

text \<open>
  Two sessions of a pool have different peers: direct ones differ in sender or receiver, proxied
  ones in receiver or proxy, while the sender of a proxied session does not count. The parts
  of a key are not separated, so the addresses of one of the two positions must be equally
  long; of one endpoint, or of one proxy or receiver, they are equal.
\<close>

definition other_peer :: "bytes \<Rightarrow> bytes \<Rightarrow> bytes \<Rightarrow> bytes \<Rightarrow> bytes \<Rightarrow> bytes \<Rightarrow> bool" where
  "other_peer s r p s' r' p' \<longleftrightarrow>
    (p = [] \<and> p' = [] \<and> (s, r) \<noteq> (s', r') \<and> (length s = length s' \<or> length r = length r')) \<or>
    (p \<noteq> [] \<and> p' \<noteq> [] \<and> (r, p) \<noteq> (r', p') \<and> (length r = length r' \<or> length p = length p'))"

lemma other_peer_key: "other_peer s r p s' r' p' \<Longrightarrow> session_key s' r' p' \<noteq> session_key s r p"
  by (auto simp: other_peer_def session_key_def)

text \<open>C22: A session stored for a peer is the one read for it, for every sender when it is behind a
  proxy, until it expires or is deleted. The sessions with other peers are not disturbed by
  storing, reading or deleting it: another receiver or another sender without a proxy,
  another receiver or another proxy behind one, as long as the addresses in one of the two
  positions are equally long.\<close>

theorem session_isolation:
  assumes "cache_ok st" "other_peer sender receiver proxy sender' receiver' proxy'"
  shows "fst (Session_Get sender receiver proxy t' (Session_Set sender receiver proxy sess t st))
      = (if t' \<le> t + ttl st then Some sess else None) \<and>
    fst (Session_Get sender receiver proxy t' (Session_Delete sender receiver proxy st)) = None \<and>
    (proxy \<noteq> [] \<longrightarrow> fst (Session_Get sender2 receiver proxy t' (Session_Set sender receiver proxy sess t st))
      = (if t' \<le> t + ttl st then Some sess else None)) \<and>
    fst (Session_Get sender' receiver' proxy' t' (Session_Set sender receiver proxy sess t st))
      = fst (Session_Get sender' receiver' proxy' t' st) \<and>
    fst (Session_Get sender' receiver' proxy' t' (Session_Delete sender receiver proxy st))
      = fst (Session_Get sender' receiver' proxy' t' st) \<and>
    (t \<le> t' \<longrightarrow> fst (Session_Get sender' receiver' proxy' t' (snd (Session_Get sender receiver proxy t st)))
      = fst (Session_Get sender' receiver' proxy' t' st))"
  using assms(1) other_peer_key [OF assms(2)]
  by (simp add: Session_Get_def Session_Set_def Session_Delete_def sc.get_set sc.get_set_other
      sc.get_del sc.get_del_other sc.get_get session_key_proxy)

theorem session_isolation_witness:
  "fst (Session_Get (lit ''a:1'') (lit ''b:2'') (lit ''p:4'') 5
     (Session_Set (lit ''a:1'') (lit ''b:2'') (lit ''p:3'') (2 :: nat) 0
       (Session_Set (lit ''a:1'') (lit ''b:2'') (lit ''p:4'') 1 0 (newShardedCache 10)))) = Some 1"
proof -
  let ?st = "Session_Set (lit ''a:1'') (lit ''b:2'') (lit ''p:4'') (1 :: nat) 0 (newShardedCache 10)"
  have t: "ttl (newShardedCache 10 :: nat shardedCache) = 10" by (simp add: newShardedCache_def)
  have ok: "cache_ok ?st" by (simp add: Session_Set_def sc.sok_set cache_ok_new)
  have p: "other_peer (lit ''a:1'') (lit ''b:2'') (lit ''p:3'') (lit ''a:1'') (lit ''b:2'') (lit ''p:4'')"
    "other_peer (lit ''a:1'') (lit ''b:2'') (lit ''p:4'') (lit ''a:1'') (lit ''b:2'') (lit ''p:3'')"
    by (simp_all add: other_peer_def lit_def)
  have "fst (Session_Get (lit ''a:1'') (lit ''b:2'') (lit ''p:4'') 5 ?st) = Some 1"
    using session_isolation [OF cache_ok_new p(2), of 5 "1 :: nat" 0 10] by (simp add: t)
  then show ?thesis using session_isolation [OF ok p(1), of 5 "2 :: nat" 0] by simp
qed

text \<open>
  The key does not determine the peers, though: two pairs of socket addresses that
  concatenate to the same text share one session, so a session stored for one pair is
  handed out for the other.
\<close>

lemma session_key_collision:
  "session_key (lit ''10.0.0.1:5512'') (lit ''3.0.0.9:5683'') [] =
   session_key (lit ''10.0.0.1:551'') (lit ''23.0.0.9:5683'') []"
  by (simp add: session_key_def lit_def)

lemma session_collision_shared:
  "cache_ok st \<Longrightarrow> 0 \<le> ttl st \<Longrightarrow>
   fst (Session_Get (lit ''10.0.0.1:551'') (lit ''23.0.0.9:5683'') [] t
     (Session_Set (lit ''10.0.0.1:5512'') (lit ''3.0.0.9:5683'') [] sess t st)) = Some sess"
  by (simp add: Session_Get_def Session_Set_def session_key_collision sc.get_set)

end
