(* ===== verification/Coap_Constants.thy ===== *)
theory Coap_Constants
  imports Coala_Prelude
begin

text \<open>
  The constants of \<open>constants.go\<close>: message types, codes and methods, option numbers,
  transfer limits, and the sentinel errors. Go's defined integer types (\<open>CoapType\<close>,
  \<open>CoapCode\<close>, \<open>CoapMethod\<close> over \<open>uint8\<close>, \<open>OptionCode\<close> and \<open>MediaType\<close> over \<open>int\<close>) are open:
  any value of the underlying type is a value of them, so they are type synonyms and
  the named values are definitions, not constructors.
\<close>

type_synonym coap_type = "8 word"
type_synonym coap_code = "8 word"
type_synonym coap_method = "8 word"
type_synonym option_code = int
type_synonym media_type = int

subsection \<open>Limits\<close>

text \<open>Durations are counted in nanoseconds, as \<open>time.Duration\<close> is.\<close>

definition second :: int where "second = 1000000000"
definition timeWait :: int where "timeWait = second"
definition maxSendAttempts :: nat where "maxSendAttempts = 6"
definition maxParallel :: nat where "maxParallel = 10000"
definition SESSIONS_POOL_EXPIRATION :: int where "SESSIONS_POOL_EXPIRATION = second * 60 * 3"
definition MAX_PAYLOAD_SIZE :: nat where "MAX_PAYLOAD_SIZE = 1024"
definition DEFAULT_WINDOW_SIZE :: int where "DEFAULT_WINDOW_SIZE = 300"
definition MIN_WINDOW_SIZE :: int where "MIN_WINDOW_SIZE = 50"
definition MAX_WINDOW_SIZE :: int where "MAX_WINDOW_SIZE = 1500"
definition MTU :: nat where "MTU = 1500"
definition PayloadMarker :: byte where "PayloadMarker = 0xff"
definition COAP_SCHEME :: int where "COAP_SCHEME = 0"
definition COAPS_SCHEME :: int where "COAPS_SCHEME = 1"

lemmas limit_defs = second_def timeWait_def maxSendAttempts_def maxParallel_def SESSIONS_POOL_EXPIRATION_def MAX_PAYLOAD_SIZE_def DEFAULT_WINDOW_SIZE_def MIN_WINDOW_SIZE_def MAX_WINDOW_SIZE_def MTU_def PayloadMarker_def COAP_SCHEME_def COAPS_SCHEME_def

subsection \<open>Message types\<close>

definition CON :: coap_type where "CON = 0"
definition NON :: coap_type where "NON = 1"
definition ACK :: coap_type where "ACK = 2"
definition RST :: coap_type where "RST = 3"

subsection \<open>Methods\<close>

definition CoapMethodGet :: coap_method where "CoapMethodGet = 1"
definition CoapMethodPut :: coap_method where "CoapMethodPut = 2"
definition CoapMethodPost :: coap_method where "CoapMethodPost = 3"
definition CoapMethodDelete :: coap_method where "CoapMethodDelete = 4"

subsection \<open>Request and response codes\<close>

definition GET :: coap_code where "GET = 1"
definition POST :: coap_code where "POST = 2"
definition PUT :: coap_code where "PUT = 3"
definition DELETE :: coap_code where "DELETE = 4"
definition CoapCodeEmpty :: coap_code where "CoapCodeEmpty = 0"
definition CoapCodeCreated :: coap_code where "CoapCodeCreated = 65"
definition CoapCodeDeleted :: coap_code where "CoapCodeDeleted = 66"
definition CoapCodeValid :: coap_code where "CoapCodeValid = 67"
definition CoapCodeChanged :: coap_code where "CoapCodeChanged = 68"
definition CoapCodeContent :: coap_code where "CoapCodeContent = 69"
definition CoapCodeContinue :: coap_code where "CoapCodeContinue = 95"
definition CoapCodeBadRequest :: coap_code where "CoapCodeBadRequest = 128"
definition CoapCodeUnauthorized :: coap_code where "CoapCodeUnauthorized = 129"
definition CoapCodeBadOption :: coap_code where "CoapCodeBadOption = 130"
definition CoapCodeForbidden :: coap_code where "CoapCodeForbidden = 131"
definition CoapCodeNotFound :: coap_code where "CoapCodeNotFound = 132"
definition CoapCodeMethodNotAllowed :: coap_code where "CoapCodeMethodNotAllowed = 133"
definition CoapCodeNotAcceptable :: coap_code where "CoapCodeNotAcceptable = 134"
definition CoapCodeRequestEntityIncomplete :: coap_code where "CoapCodeRequestEntityIncomplete = 136"
definition CoapCodeConflict :: coap_code where "CoapCodeConflict = 137"
definition CoapCodePreconditionFailed :: coap_code where "CoapCodePreconditionFailed = 140"
definition CoapCodeRequestEntityTooLarge :: coap_code where "CoapCodeRequestEntityTooLarge = 141"
definition CoapCodeUnsupportedContentFormat :: coap_code where "CoapCodeUnsupportedContentFormat = 143"
definition CoapCodeInternalServerError :: coap_code where "CoapCodeInternalServerError = 160"
definition CoapCodeNotImplemented :: coap_code where "CoapCodeNotImplemented = 161"
definition CoapCodeBadGateway :: coap_code where "CoapCodeBadGateway = 162"
definition CoapCodeServiceUnavailable :: coap_code where "CoapCodeServiceUnavailable = 163"
definition CoapCodeGatewayTimeout :: coap_code where "CoapCodeGatewayTimeout = 164"
definition CoapCodeProxyingNotSupported :: coap_code where "CoapCodeProxyingNotSupported = 165"

subsection \<open>Handshake types\<close>

definition CoapHandshakeTypeClientHello :: int where "CoapHandshakeTypeClientHello = 1"
definition CoapHandshakeTypePeerHello :: int where "CoapHandshakeTypePeerHello = 2"
definition CoapHandshakeTypeClientSignature :: int where "CoapHandshakeTypeClientSignature = 3"
definition CoapHandshakeTypePeerSignature :: int where "CoapHandshakeTypePeerSignature = 4"

subsection \<open>Option numbers\<close>

definition OptionIfMatch :: option_code where "OptionIfMatch = 1"
definition OptionURIHost :: option_code where "OptionURIHost = 3"
definition OptionEtag :: option_code where "OptionEtag = 4"
definition OptionIfNoneMatch :: option_code where "OptionIfNoneMatch = 5"
definition OptionObserve :: option_code where "OptionObserve = 6"
definition OptionURIPort :: option_code where "OptionURIPort = 7"
definition OptionLocationPath :: option_code where "OptionLocationPath = 8"
definition OptionURIPath :: option_code where "OptionURIPath = 11"
definition OptionContentFormat :: option_code where "OptionContentFormat = 12"
definition OptionMaxAge :: option_code where "OptionMaxAge = 14"
definition OptionURIQuery :: option_code where "OptionURIQuery = 15"
definition OptionAccept :: option_code where "OptionAccept = 17"
definition OptionLocationQuery :: option_code where "OptionLocationQuery = 20"
definition OptionBlock2 :: option_code where "OptionBlock2 = 23"
definition OptionBlock1 :: option_code where "OptionBlock1 = 27"
definition OptionSize2 :: option_code where "OptionSize2 = 28"
definition OptionProxyURI :: option_code where "OptionProxyURI = 35"
definition OptionProxyScheme :: option_code where "OptionProxyScheme = 39"
definition OptionSize1 :: option_code where "OptionSize1 = 60"
definition OptionURIScheme :: option_code where "OptionURIScheme = 2111"
definition OptionHandshakeType :: option_code where "OptionHandshakeType = 3999"
definition OptionSessionNotFound :: option_code where "OptionSessionNotFound = 4001"
definition OptionSessionExpired :: option_code where "OptionSessionExpired = 4003"
definition OptionSelectiveRepeatWindowSize :: option_code where "OptionSelectiveRepeatWindowSize = 3001"
definition OptionProxySecurityID :: option_code where "OptionProxySecurityID = 3004"
definition OptionCoapsUri :: option_code where "OptionCoapsUri = 4005"
definition OptionChecksum :: option_code where "OptionChecksum = 4006"

lemmas type_defs [simp] = CON_def NON_def ACK_def RST_def
lemmas method_defs [simp] = CoapMethodGet_def CoapMethodPut_def CoapMethodPost_def
   CoapMethodDelete_def
lemmas code_defs [simp] = GET_def POST_def PUT_def DELETE_def CoapCodeEmpty_def CoapCodeCreated_def
   CoapCodeDeleted_def CoapCodeValid_def CoapCodeChanged_def CoapCodeContent_def
   CoapCodeContinue_def CoapCodeBadRequest_def CoapCodeUnauthorized_def CoapCodeBadOption_def
   CoapCodeForbidden_def CoapCodeNotFound_def CoapCodeMethodNotAllowed_def CoapCodeNotAcceptable_def
   CoapCodeRequestEntityIncomplete_def CoapCodeConflict_def CoapCodePreconditionFailed_def
   CoapCodeRequestEntityTooLarge_def CoapCodeUnsupportedContentFormat_def
   CoapCodeInternalServerError_def CoapCodeNotImplemented_def CoapCodeBadGateway_def
   CoapCodeServiceUnavailable_def CoapCodeGatewayTimeout_def CoapCodeProxyingNotSupported_def
lemmas handshake_defs [simp] = CoapHandshakeTypeClientHello_def CoapHandshakeTypePeerHello_def
   CoapHandshakeTypeClientSignature_def CoapHandshakeTypePeerSignature_def
lemmas option_defs [simp] = OptionIfMatch_def OptionURIHost_def OptionEtag_def OptionIfNoneMatch_def
   OptionObserve_def OptionURIPort_def OptionLocationPath_def OptionURIPath_def
   OptionContentFormat_def OptionMaxAge_def OptionURIQuery_def OptionAccept_def
   OptionLocationQuery_def OptionBlock2_def OptionBlock1_def OptionSize2_def OptionProxyURI_def
   OptionProxyScheme_def OptionSize1_def OptionURIScheme_def OptionHandshakeType_def
   OptionSessionNotFound_def OptionSessionExpired_def OptionSelectiveRepeatWindowSize_def
   OptionProxySecurityID_def OptionCoapsUri_def OptionChecksum_def
lemmas scheme_defs [simp] = COAP_SCHEME_def COAPS_SCHEME_def PayloadMarker_def

subsection \<open>Printing and classifying codes\<close>

definition code_String :: "coap_code \<Rightarrow> string" where
  "code_String code =
    (if code = GET then ''GET''
     else if code = POST then ''POST''
     else if code = PUT then ''PUT''
     else if code = DELETE then ''DELETE''
     else if code = CoapCodeEmpty then ''0 Empty''
     else if code = CoapCodeCreated then ''201 Created''
     else if code = CoapCodeDeleted then ''202 Deleted''
     else if code = CoapCodeValid then ''203 Valid''
     else if code = CoapCodeChanged then ''204 Changed''
     else if code = CoapCodeContent then ''205 Content''
     else if code = CoapCodeContinue then ''231 Continue''
     else if code = CoapCodeBadRequest then ''400 Bad Request''
     else if code = CoapCodeUnauthorized then ''401 Unauthorized''
     else if code = CoapCodeBadOption then ''402 Bad Option''
     else if code = CoapCodeForbidden then ''403 Forbidden''
     else if code = CoapCodeNotFound then ''404 Not Found''
     else if code = CoapCodeMethodNotAllowed then ''405 Method Not Allowed''
     else if code = CoapCodeNotAcceptable then ''406 Not Acceptable''
     else if code = CoapCodePreconditionFailed then ''412 Precondition Failed''
     else if code = CoapCodeRequestEntityTooLarge then ''413 Request Entity Too Large''
     else if code = CoapCodeUnsupportedContentFormat then ''415 Unsupported Content Format''
     else if code = CoapCodeInternalServerError then ''500 Internal Server Error''
     else if code = CoapCodeNotImplemented then ''501 Not Implemented''
     else if code = CoapCodeBadGateway then ''502 Bad Gateway''
     else if code = CoapCodeServiceUnavailable then ''503 Service Unavailable''
     else if code = CoapCodeGatewayTimeout then ''504 Gateway Timeout''
     else if code = CoapCodeProxyingNotSupported then ''505 Proxying Not Supported''
     else ''Unknown'')"

definition code_Group :: "coap_code \<Rightarrow> string" where
  "code_Group c =
    (if c > 64 \<and> c < 96 then ''2.xx''
     else if c > 127 \<and> c < 144 then ''4.xx''
     else if c > 159 \<and> c < 166 then ''5.xx''
     else ''others'')"

definition IsRegisteredMethod :: "coap_code \<Rightarrow> bool" where
  "IsRegisteredMethod c \<longleftrightarrow> c > 0 \<and> c \<le> 4"

definition IsCommonError :: "coap_code \<Rightarrow> bool" where
  "IsCommonError c \<longleftrightarrow> c \<ge> 128 \<and> c < 160"

definition IsInternalError :: "coap_code \<Rightarrow> bool" where
  "IsInternalError c \<longleftrightarrow> c \<ge> 160 \<and> c \<le> 165"

text \<open>\<open>typeString\<close> and \<open>optionCodeToString\<close> of \<open>common.go\<close>. The name the latter prints for the
  Coaps-URI option has a Cyrillic letter in the source, written as C here.\<close>

definition typeString :: "coap_type \<Rightarrow> string" where
  "typeString c =
    (if c = CON then ''CON'' else if c = NON then ''NON''
     else if c = ACK then ''ACK'' else if c = RST then ''RST'' else [])"

definition optionCodeToString :: "option_code \<Rightarrow> string" where
  "optionCodeToString option =
    (if option = OptionIfMatch then ''IfMatch''
     else if option = OptionURIHost then ''URIHost''
     else if option = OptionEtag then ''Etag''
     else if option = OptionIfNoneMatch then ''IfNoneMatch''
     else if option = OptionObserve then ''Observe''
     else if option = OptionURIPort then ''URIPort''
     else if option = OptionLocationPath then ''LocationPath''
     else if option = OptionURIPath then ''URIPath''
     else if option = OptionContentFormat then ''ContentFormat''
     else if option = OptionMaxAge then ''MaxAge''
     else if option = OptionURIQuery then ''URIQuery''
     else if option = OptionAccept then ''Accept''
     else if option = OptionLocationQuery then ''LocationQuery''
     else if option = OptionBlock2 then ''Block2''
     else if option = OptionBlock1 then ''Block1''
     else if option = OptionSize2 then ''Size2''
     else if option = OptionProxyURI then ''ProxyURI''
     else if option = OptionProxyScheme then ''ProxyScheme''
     else if option = OptionSize1 then ''Size1''
     else if option = OptionURIScheme then ''URIScheme''
     else if option = OptionHandshakeType then ''HandshakeType''
     else if option = OptionSessionNotFound then ''SessionNotFound''
     else if option = OptionSessionExpired then ''SessionExpired''
     else if option = OptionSelectiveRepeatWindowSize then ''OptionSelectiveRepeatWindowSize''
     else if option = OptionCoapsUri then ''OptionCoapsUri''
     else if option = OptionProxySecurityID then ''OptionSecurityID''
     else if option = OptionChecksum then ''Checksum''
     else ''Unknown'')"

subsection \<open>Errors\<close>

text \<open>
  The sentinel errors, compared by identity in the code. The constructors after
  \<open>ErrNotImplemented\<close> stand for errors declared elsewhere (\<open>ErrUnsupportedType\<close> of
  \<open>transport.go\<close>, the \<open>io\<close> errors of the frame reader) or created in place with
  \<open>errors.New\<close> (\<open>decodeInt\<close>, the timeouts of \<open>backward_storage.go\<close> and \<open>server.go\<close>,
  \<open>sendMultyProxy\<close>, the \<open>session\<close> package). \<open>ErrExternal n\<close> is any other error a socket
  or a library call returned, told apart by \<open>n\<close>; \<open>GoPanic\<close> is a panic on its way up the
  call stack.
\<close>

datatype err =
    ErrPacketLengthLessThan4 | ErrInvalidCoapVersion | ErrOptionLengthUsesValue15
    | ErrOptionDeltaUsesValue15 | ErrUnknownMessageType | ErrInvalidTokenLength
    | ErrUnknownCriticalOption | ErrUnsupportedMethod | ErrNoMatchingRoute
    | ErrUnsupportedContentFormat | ErrNoMatchingMethod | ErrNilMessage | ErrRepeatedMessage
    | ErrNilConn | ErrNilAddr | ErrOptionLenghtOutOfRangePackets | ErrUndefinedScheme
    | ErrChecksumMismatch | ErrMaxAttempts | ErrorSessionNotFound | ErrorClientSessionNotFound
    | ErrorSessionExpired | ErrorClientSessionExpired | ErrorHandshake | ERR_KEYS_NOT_MATCH
    | ErrNotImplemented | ErrUnsupportedType | ErrDataOutsideOfType | ErrTimeout
    | ErrProxyDisabled | ErrInvalidOptionDelta | ErrSignatureMismatch | ErrPublicKeySize
    | ErrAeadKeySize | ErrEOF | ErrUnexpectedEOF | ErrShortBuffer | ErrAddressNotSet
    | GoPanic | ErrExternal nat

text \<open>\<open>Group\<close> agrees with the numeric predicates on every code.\<close>

lemma code_Group_errors:
  "code_Group c = ''5.xx'' \<longleftrightarrow> IsInternalError c"
  "code_Group c = ''4.xx'' \<Longrightarrow> IsCommonError c"
  by (auto simp: code_Group_def IsInternalError_def IsCommonError_def word_less_nat_alt
      word_le_nat_alt split: if_splits)

end
