(* ===== verification/Coap_Options.thy ===== *)
theory Coap_Options
  imports Coap_Constants
begin

text \<open>
  \<open>options.go\<close>: CoAP options and the dynamically typed values they carry. The Go field
  \<open>Value interface{}\<close> is a datatype with one constructor per dynamic type the code
  inspects; \<open>VOther\<close> is a value of any other type. Signed Go integers narrower than
  \<open>int\<close> are words read with \<open>sint\<close>.
\<close>

datatype optval =
    VNil
  | VString bytes
  | VBytes bytes
  | VMedia media_type
  | VInt int
  | VInt8 "8 word"
  | VInt16 "16 word"
  | VInt32 "32 word"
  | VUint "64 word"
  | VUint8 "8 word"
  | VUint16 "16 word"
  | VUint32 "32 word"
  | VOther

record coap_option =
  OCode :: option_code
  OValue :: optval

definition NewOption :: "option_code \<Rightarrow> optval \<Rightarrow> coap_option" where
  "NewOption optionNumber optionValue = \<lparr>OCode = optionNumber, OValue = optionValue\<rparr>"

lemma NewOption_simps [simp]: "OCode (NewOption c v) = c" "OValue (NewOption c v) = v"
  by (simp_all add: NewOption_def)

lemma NewOption_collapse [simp]: "NewOption (OCode opt) (OValue opt) = opt"
  by (simp add: NewOption_def)

text \<open>Go's \<open>%\<close> takes the sign of the dividend, but only its being 0 matters here.\<close>

definition IsElective :: "coap_option \<Rightarrow> bool" where
  "IsElective opt \<longleftrightarrow> OCode opt mod 2 = 0"

definition IsCritical :: "coap_option \<Rightarrow> bool" where
  "IsCritical opt \<longleftrightarrow> OCode opt mod 2 \<noteq> 0"

subsection \<open>\<open>strconv.Atoi\<close>\<close>

text \<open>
  Decimal digits with an optional sign, at least one digit, and a value that fits in 64
  bits; anything else is an error.
\<close>

definition digit_val :: "byte \<Rightarrow> int option" where
  "digit_val b = (if 48 \<le> b \<and> b \<le> 57 then Some (uint b - 48) else None)"

fun atoi_digits :: "int \<Rightarrow> bytes \<Rightarrow> int option" where
  "atoi_digits acc [] = Some acc"
| "atoi_digits acc (b # bs) =
     (case digit_val b of None \<Rightarrow> None | Some d \<Rightarrow> atoi_digits (10 * acc + d) bs)"

definition Atoi :: "bytes \<Rightarrow> int option" where
  "Atoi s =
    (let neg = (case s of [] \<Rightarrow> False | c # _ \<Rightarrow> c = 45);
         ds = (case s of [] \<Rightarrow> [] | c # cs \<Rightarrow> if c = 45 \<or> c = 43 then cs else s)
     in if ds = [] then None
        else case atoi_digits 0 ds of
               None \<Rightarrow> None
             | Some n \<Rightarrow>
                 let v = (if neg then - n else n)
                 in if - (2 ^ 63) \<le> v \<and> v < 2 ^ 63 then Some v else None)"

subsection \<open>Reading values\<close>

definition StringValue :: "coap_option \<Rightarrow> bytes" where
  "StringValue opt = (case OValue opt of VString s \<Rightarrow> s | _ \<Rightarrow> [])"

definition IntValue :: "coap_option \<Rightarrow> int" where
  "IntValue opt = (case OValue opt of
      VNil \<Rightarrow> 0
    | VMedia i \<Rightarrow> i
    | VInt i \<Rightarrow> i
    | VInt8 w \<Rightarrow> sint w
    | VInt16 w \<Rightarrow> sint w
    | VInt32 w \<Rightarrow> sint w
    | VUint w \<Rightarrow> sint w
    | VUint8 w \<Rightarrow> uint w
    | VUint16 w \<Rightarrow> uint w
    | VUint32 w \<Rightarrow> uint w
    | VString s \<Rightarrow> (case Atoi s of None \<Rightarrow> 0 | Some n \<Rightarrow> n)
    | _ \<Rightarrow> 0)"

definition Uint32Value :: "coap_option \<Rightarrow> 32 word" where
  "Uint32Value opt = (case OValue opt of
      VNil \<Rightarrow> 0
    | VMedia i \<Rightarrow> word_of_int i
    | VInt i \<Rightarrow> word_of_int i
    | VInt8 w \<Rightarrow> scast w
    | VInt16 w \<Rightarrow> scast w
    | VInt32 w \<Rightarrow> scast w
    | VUint w \<Rightarrow> ucast w
    | VUint8 w \<Rightarrow> ucast w
    | VUint16 w \<Rightarrow> ucast w
    | VUint32 w \<Rightarrow> w
    | VString s \<Rightarrow> (case Atoi s of None \<Rightarrow> 0 | Some n \<Rightarrow> word_of_int n)
    | _ \<Rightarrow> 0)"

definition Uint16Value :: "coap_option \<Rightarrow> 16 word" where
  "Uint16Value opt = (case OValue opt of
      VNil \<Rightarrow> 0
    | VMedia i \<Rightarrow> word_of_int i
    | VInt i \<Rightarrow> word_of_int i
    | VInt8 w \<Rightarrow> scast w
    | VInt16 w \<Rightarrow> scast w
    | VInt32 w \<Rightarrow> scast w
    | VUint w \<Rightarrow> ucast w
    | VUint8 w \<Rightarrow> ucast w
    | VUint16 w \<Rightarrow> w
    | VUint32 w \<Rightarrow> ucast w
    | VString s \<Rightarrow> (case Atoi s of None \<Rightarrow> 0 | Some n \<Rightarrow> word_of_int n)
    | _ \<Rightarrow> 0)"

text \<open>The three readers agree: the narrow ones truncate what \<open>IntValue\<close> returns.\<close>

lemma scast_down:
  "LENGTH('b) \<le> LENGTH('a) \<Longrightarrow> (scast (w :: 'a::len word) :: 'b::len word) = ucast w"
  by (rule bit_word_eqI) (auto simp: bit_signed_iff bit_unsigned_iff min_def le_less)

lemma Uint32Value_IntValue: "Uint32Value opt = word_of_int (IntValue opt)"
  by (cases "OValue opt")
     (simp_all add: Uint32Value_def IntValue_def scast_down split: option.split)

lemma Uint16Value_IntValue: "Uint16Value opt = word_of_int (IntValue opt)"
  by (cases "OValue opt")
     (simp_all add: Uint16Value_def IntValue_def scast_down split: option.split)

subsection \<open>Classification by code\<close>

definition repeatable_codes :: "option_code list" where
  "repeatable_codes = [OptionIfMatch, OptionEtag, OptionLocationPath, OptionURIPath,
     OptionURIQuery, OptionLocationQuery]"

definition IsRepeatableOption :: "coap_option \<Rightarrow> bool" where
  "IsRepeatableOption opt \<longleftrightarrow> OCode opt \<in> set repeatable_codes"

definition IsValidOption :: "coap_option \<Rightarrow> bool" where
  "IsValidOption opt \<longleftrightarrow> OCode opt \<in>
     {OptionIfNoneMatch, OptionURIScheme, OptionURIHost, OptionEtag, OptionIfMatch,
      OptionObserve, OptionURIPort, OptionLocationPath, OptionURIPath, OptionContentFormat,
      OptionMaxAge, OptionURIQuery, OptionAccept, OptionLocationQuery, OptionBlock2,
      OptionBlock1, OptionProxyURI, OptionProxySecurityID, OptionProxyScheme, OptionSize1,
      OptionHandshakeType, OptionSessionNotFound, OptionSessionExpired,
      OptionSelectiveRepeatWindowSize, OptionChecksum}"

subsection \<open>Option lists\<close>

text \<open>
  The list part of \<open>GetOptions\<close>, \<open>GetOption\<close>, \<open>RemoveOptions\<close> and \<open>AddOption\<close>; the
  methods on a message are in \<open>Coap_Message\<close>.
\<close>

abbreviation opts_with :: "option_code \<Rightarrow> coap_option list \<Rightarrow> coap_option list" where
  "opts_with c opts \<equiv> filter (\<lambda>opt. OCode opt = c) opts"

abbreviation opts_without :: "option_code \<Rightarrow> coap_option list \<Rightarrow> coap_option list" where
  "opts_without c opts \<equiv> filter (\<lambda>opt. OCode opt \<noteq> c) opts"

definition opts_add :: "coap_option list \<Rightarrow> option_code \<Rightarrow> optval \<Rightarrow> coap_option list" where
  "opts_add opts code v =
    (let opt = NewOption code v
     in if IsRepeatableOption opt then opts @ [opt] else opts_without code opts @ [opt])"

text \<open>The invariant \<open>AddOption\<close> keeps: a code that may not repeat occurs at most once.\<close>

definition opts_unique :: "coap_option list \<Rightarrow> bool" where
  "opts_unique opts \<longleftrightarrow>
    (\<forall>opt \<in> set opts. \<not> IsRepeatableOption opt \<longrightarrow> length (opts_with (OCode opt) opts) = 1)"

lemma filter_nil_code [simp]: "opts_with c (opts_without c opts) = []"
  by (simp add: filter_empty_conv)

lemma opts_with_without [simp]:
  "d \<noteq> c \<Longrightarrow> filter (\<lambda>opt. OCode opt \<noteq> c \<and> OCode opt = d) opts = opts_with d opts"
  by (rule filter_cong) auto

lemma opts_with_add:
  "opts_with d (opts_add opts c v) =
    (if d \<noteq> c then opts_with d opts
     else if c \<in> set repeatable_codes then opts_with c opts @ [NewOption c v]
     else [NewOption c v])"
  by (auto simp: opts_add_def Let_def IsRepeatableOption_def)

lemma opts_unique_Nil [simp, intro]: "opts_unique []"
  by (simp add: opts_unique_def)

lemma set_opts_add: "set (opts_add opts c v) \<subseteq> insert (NewOption c v) (set opts)"
  by (auto simp: opts_add_def Let_def)

lemma opts_unique_add [intro]: "opts_unique opts \<Longrightarrow> opts_unique (opts_add opts c v)"
  using set_opts_add [of opts c v]
  by (auto simp: opts_unique_def opts_with_add IsRepeatableOption_def)

lemma opts_unique_remove [intro]: "opts_unique opts \<Longrightarrow> opts_unique (opts_without c opts)"
  by (auto simp: opts_unique_def)

lemma opts_unique_iff:
  "opts_unique opts \<longleftrightarrow> (\<forall>c. c \<notin> set repeatable_codes \<longrightarrow> length (opts_with c opts) \<le> 1)"
proof
  assume u: "opts_unique opts"
  show "\<forall>c. c \<notin> set repeatable_codes \<longrightarrow> length (opts_with c opts) \<le> 1"
  proof (intro allI impI)
    fix c assume c: "c \<notin> set repeatable_codes"
    show "length (opts_with c opts) \<le> 1"
    proof (cases "opts_with c opts")
      case (Cons opt rest)
      then have "opt \<in> set (opts_with c opts)" by simp
      then have "opt \<in> set opts" "OCode opt = c" by simp_all
      with u c show ?thesis by (auto simp: opts_unique_def IsRepeatableOption_def)
    qed simp
  qed
next
  assume a: "\<forall>c. c \<notin> set repeatable_codes \<longrightarrow> length (opts_with c opts) \<le> 1"
  show "opts_unique opts"
    unfolding opts_unique_def IsRepeatableOption_def
  proof (intro ballI impI)
    fix opt assume "opt \<in> set opts" "OCode opt \<notin> set repeatable_codes"
    then have "opts_with (OCode opt) opts \<noteq> []" "length (opts_with (OCode opt) opts) \<le> 1"
      using a by (auto simp: filter_empty_conv)
    then show "length (opts_with (OCode opt) opts) = 1"
      by (cases "opts_with (OCode opt) opts") auto
  qed
qed

lemma find_opts_with:
  "find (\<lambda>opt. OCode opt = c) opts = (case opts_with c opts of [] \<Rightarrow> None | opt # _ \<Rightarrow> Some opt)"
  by (induction opts) auto

end
