(* ===== verification/Coap_Message.thy ===== *)
theory Coap_Message
  imports Coap_Options
begin

text \<open>
  The message type of \<open>message.go\<close>, its payloads and constructors, and the methods of
  \<open>message.go\<close> and \<open>options.go\<close> that read and change the option list. A \<open>net.Addr\<close> is
  represented by the string its \<open>String\<close> method returns, \<open>None\<close> being the nil interface.
  The fields \<open>LastSent\<close> and \<open>Context\<close>, which no code of the repository reads or writes,
  are left out.
\<close>

subsection \<open>Payloads\<close>

text \<open>
  The implementations of \<open>CoAPMessagePayload\<close>. \<open>XMLPayload\<close> embeds the string payload. A
  JSON payload is represented by what \<open>json.Marshal\<close> returns for its object, \<open>None\<close>
  where it fails: \<open>Bytes\<close> marshals anew on each call and uses nothing else of the object.
\<close>

datatype payload =
    StringPayload bytes
  | BytesPayload bytes
  | XMLPayload bytes
  | EmptyPayload
  | JSONPayload "bytes option"

fun Bytes :: "payload \<Rightarrow> bytes" where
  "Bytes (StringPayload s) = s"
| "Bytes (BytesPayload v) = v"
| "Bytes (XMLPayload s) = s"
| "Bytes EmptyPayload = []"
| "Bytes (JSONPayload obj) = (case obj of None \<Rightarrow> [] | Some b \<Rightarrow> b)"

fun Length :: "payload \<Rightarrow> nat" where
  "Length (StringPayload s) = length s"
| "Length (BytesPayload v) = length v"
| "Length (XMLPayload s) = length s"
| "Length EmptyPayload = 0"
| "Length (JSONPayload obj) = length (Bytes (JSONPayload obj))"

lemma Length_Bytes [simp]: "Length p = length (Bytes p)"
  by (cases p) simp_all

subsection \<open>Messages\<close>

record coap_msg =
  MessageID :: "16 word"
  MType :: coap_type
  MCode :: coap_code
  Payload :: "payload option"
  Token :: bytes
  Options :: "coap_option list"
  Sender :: "bytes option"
  Recipient :: "bytes option"
  Attempts :: int
  Timeout :: int
  IsProxies :: bool
  BreakConnectionOnPK :: "(bytes \<Rightarrow> bool) option"
  PeerPublicKey :: bytes
  ProxyAddr :: bytes
  AddChecksumOnSend :: bool

text \<open>The zero value of the struct, \<open>CoAPMessage{}\<close>.\<close>

definition zero_msg :: coap_msg where
  "zero_msg = \<lparr>MessageID = 0, MType = 0, MCode = 0, Payload = None, Token = [], Options = [],
     Sender = None, Recipient = None, Attempts = 0, Timeout = 0, IsProxies = False,
     BreakConnectionOnPK = None, PeerPublicKey = [], ProxyAddr = [], AddChecksumOnSend = False\<rparr>"

subsection \<open>Message ids and tokens\<close>

text \<open>
  The process-wide sources of \<open>common.go\<close>: the message-id counter, and \<open>math/rand\<close> as a
  stream of bytes with the position of the next draw. \<open>uint16(x)\<close> truncates.
\<close>

record id_source =
  currentMessageID :: "32 word"
  rand_stream :: "nat \<Rightarrow> byte"
  rand_pos :: nat

definition generateMessageID :: "id_source \<Rightarrow> 16 word \<times> id_source" where
  "generateMessageID g =
    (let n = currentMessageID g + 1 in (ucast n, g\<lparr>currentMessageID := n\<rparr>))"

definition generateToken :: "nat \<Rightarrow> id_source \<Rightarrow> bytes \<times> id_source" where
  "generateToken l g =
    (map (rand_stream g) [rand_pos g ..< rand_pos g + l], g\<lparr>rand_pos := rand_pos g + l\<rparr>)"

definition NewCoAPMessage ::
    "coap_type \<Rightarrow> coap_code \<Rightarrow> id_source \<Rightarrow> coap_msg \<times> id_source" where
  "NewCoAPMessage messageType messageCode g =
    (let (mid, g1) = generateMessageID g;
         (tok, g2) = generateToken 6 g1
     in (zero_msg\<lparr>MessageID := mid, MType := messageType, MCode := messageCode,
           Payload := Some EmptyPayload, Token := tok, Timeout := timeWait\<rparr>, g2))"

definition NewCoAPMessageId ::
    "coap_type \<Rightarrow> coap_code \<Rightarrow> 16 word \<Rightarrow> id_source \<Rightarrow> coap_msg \<times> id_source" where
  "NewCoAPMessageId messageType messageCode messageID g =
    (let (tok, g1) = generateToken 6 g
     in (zero_msg\<lparr>MessageID := messageID, MType := messageType, MCode := messageCode,
           Token := tok, Timeout := timeWait\<rparr>, g1))"

lemma length_generateToken: "length (fst (generateToken l g)) = l"
  by (simp add: generateToken_def)

lemma take_bit_shrink_add:
  "m \<le> n \<Longrightarrow> take_bit m (take_bit n x + y) = take_bit m (x + y :: int)"
  "m \<le> n \<Longrightarrow> take_bit m (y + take_bit n x) = take_bit m (y + x :: int)"
  by (metis take_bit_add take_bit_take_bit min.absorb1)+

lemma ucast_add_down: "(ucast (x + y :: 32 word) :: 16 word) = ucast x + ucast y"
  by transfer (simp add: take_bit_add take_bit_shrink_add)

lemma generateMessageID_step:
  "fst (generateMessageID (snd (generateMessageID g))) = fst (generateMessageID g) + 1"
  by (simp add: generateMessageID_def Let_def ucast_add_down)

subsection \<open>Reading and changing options\<close>

definition GetOptions :: "coap_msg \<Rightarrow> option_code \<Rightarrow> coap_option list" where
  "GetOptions m c = opts_with c (Options m)"

definition GetOption :: "coap_msg \<Rightarrow> option_code \<Rightarrow> coap_option option" where
  "GetOption m c = find (\<lambda>opt. OCode opt = c) (Options m)"

definition GetOptionAsString :: "coap_msg \<Rightarrow> option_code \<Rightarrow> bytes" where
  "GetOptionAsString m c = (case GetOption m c of Some opt \<Rightarrow> StringValue opt | None \<Rightarrow> [])"

definition GetOptionsAsString :: "coap_msg \<Rightarrow> option_code \<Rightarrow> bytes list" where
  "GetOptionsAsString m c = map StringValue (GetOptions m c)"

definition RemoveOptions :: "coap_msg \<Rightarrow> option_code \<Rightarrow> coap_msg" where
  "RemoveOptions m c = m\<lparr>Options := opts_without c (Options m)\<rparr>"

definition AddOption :: "coap_msg \<Rightarrow> option_code \<Rightarrow> optval \<Rightarrow> coap_msg" where
  "AddOption m c v =
    (let opt = NewOption c v
     in if IsRepeatableOption opt then m\<lparr>Options := Options m @ [opt]\<rparr>
        else let m1 = RemoveOptions m c in m1\<lparr>Options := Options m1 @ [opt]\<rparr>)"

fun AddOptions :: "coap_msg \<Rightarrow> coap_option list \<Rightarrow> coap_msg" where
  "AddOptions m [] = m"
| "AddOptions m (opt # opts) = AddOptions (AddOption m (OCode opt) (OValue opt)) opts"

fun CloneOptions :: "coap_msg \<Rightarrow> coap_msg \<Rightarrow> option_code list \<Rightarrow> coap_msg" where
  "CloneOptions m cm [] = m"
| "CloneOptions m cm (c # cs) = CloneOptions (AddOptions m (GetOptions cm c)) cm cs"

text \<open>The option methods in terms of the list operations.\<close>

lemma AddOption_opts: "AddOption m c v = m\<lparr>Options := opts_add (Options m) c v\<rparr>"
  by (simp add: AddOption_def opts_add_def Let_def RemoveOptions_def)

lemma GetOption_GetOptions:
  "GetOption m c = (case GetOptions m c of [] \<Rightarrow> None | opt # _ \<Rightarrow> Some opt)"
  by (simp add: GetOption_def GetOptions_def find_opts_with)

lemma GetOptions_AddOption:
  "GetOptions (AddOption m c v) d =
    (if d \<noteq> c then GetOptions m d
     else if c \<in> set repeatable_codes then GetOptions m c @ [NewOption c v]
     else [NewOption c v])"
  by (simp add: GetOptions_def AddOption_opts opts_with_add)

lemma GetOption_AddOption:
  "GetOption (AddOption m c v) d =
    (if d \<noteq> c then GetOption m d
     else if c \<in> set repeatable_codes \<and> GetOption m c \<noteq> None then GetOption m c
     else Some (NewOption c v))"
  by (auto simp: GetOption_GetOptions GetOptions_AddOption split: list.splits)

lemma GetOptions_RemoveOptions:
  "GetOptions (RemoveOptions m c) d = (if d = c then [] else GetOptions m d)"
  by (simp add: GetOptions_def RemoveOptions_def)

lemma opts_unique_AddOption: "opts_unique (Options m) \<Longrightarrow> opts_unique (Options (AddOption m c v))"
  by (simp add: AddOption_opts opts_unique_add)

lemma opts_unique_AddOptions:
  "opts_unique (Options m) \<Longrightarrow> opts_unique (Options (AddOptions m opts))"
  by (induction m opts rule: AddOptions.induct) (simp_all add: opts_unique_AddOption)

lemma opts_unique_CloneOptions:
  "opts_unique (Options m) \<Longrightarrow> opts_unique (Options (CloneOptions m cm cs))"
  by (induction m cm cs rule: CloneOptions.induct) (simp_all add: opts_unique_AddOptions)

definition GetOptionProxyURIasString :: "coap_msg \<Rightarrow> bytes" where
  "GetOptionProxyURIasString m = GetOptionAsString m OptionProxyURI"

definition GetOptionProxyScheme :: "coap_msg \<Rightarrow> int" where
  "GetOptionProxyScheme m =
    (case GetOption m OptionProxyScheme of None \<Rightarrow> -1 | Some opt \<Rightarrow> IntValue opt)"

definition GetOptionProxySchemeAsString :: "coap_msg \<Rightarrow> string" where
  "GetOptionProxySchemeAsString m =
    (let s = GetOptionProxyScheme m
     in if s = COAP_SCHEME then ''coap'' else if s = COAPS_SCHEME then ''coaps'' else '''')"

subsection \<open>The other accessors\<close>

definition Clone :: "coap_msg \<Rightarrow> bool \<Rightarrow> id_source \<Rightarrow> coap_msg \<times> id_source" where
  "Clone m includePayload g =
    (let (c, g1) = NewCoAPMessageId (MType m) (MCode m) (MessageID m) g;
         c = c\<lparr>Token := Token m, Options := Options m, ProxyAddr := ProxyAddr m,
               BreakConnectionOnPK := BreakConnectionOnPK m,
               AddChecksumOnSend := AddChecksumOnSend m\<rparr>
     in (if includePayload then c\<lparr>Payload := Payload m\<rparr> else c, g1))"

definition GetScheme :: "coap_msg \<Rightarrow> int" where
  "GetScheme m = (case GetOption m OptionURIScheme of
      Some opt \<Rightarrow> if OValue opt \<noteq> VNil \<and> IntValue opt = COAPS_SCHEME
                  then COAPS_SCHEME else COAP_SCHEME
    | None \<Rightarrow> COAP_SCHEME)"

definition GetSchemeString :: "coap_msg \<Rightarrow> bytes" where
  "GetSchemeString m = (case GetOption m OptionURIScheme of
      Some opt \<Rightarrow> if OValue opt \<noteq> VNil \<and> IntValue opt = COAPS_SCHEME
                  then lit ''coaps'' else lit ''coap''
    | None \<Rightarrow> lit ''coap'')"

definition GetMethod :: "coap_msg \<Rightarrow> coap_method" where
  "GetMethod m =
    (if MCode m = GET then CoapMethodGet
     else if MCode m = POST then CoapMethodPost
     else if MCode m = PUT then CoapMethodPut
     else if MCode m = DELETE then CoapMethodDelete
     else 0)"

definition GetURIHost :: "coap_msg \<Rightarrow> bytes" where
  "GetURIHost m =
    (case GetOption m OptionURIHost of None \<Rightarrow> lit ''localhost'' | Some opt \<Rightarrow> StringValue opt)"

definition GetURIPort :: "coap_msg \<Rightarrow> int" where
  "GetURIPort m = (case GetOption m OptionURIPort of None \<Rightarrow> 0 | Some opt \<Rightarrow> IntValue opt)"

text \<open>\<open>uint8(len(m.Token))\<close> truncates.\<close>

definition GetTokenLength :: "coap_msg \<Rightarrow> byte" where
  "GetTokenLength m = of_nat (length (Token m))"

definition GetTokenString :: "coap_msg \<Rightarrow> bytes" where
  "GetTokenString m = Token m"

text \<open>Go converts an integer to the UTF-8 encoding of that code point; both parts of the
  code are below 32 here, so each becomes one byte.\<close>

definition GetCodeString :: "coap_msg \<Rightarrow> bytes" where
  "GetCodeString m = [drop_bit 5 (MCode m)] @ lit ''.'' @ [MCode m AND 0x1f]"

definition SetProxy :: "coap_msg \<Rightarrow> bytes \<Rightarrow> bytes \<Rightarrow> coap_msg" where
  "SetProxy m scheme addr =
    AddOption (m\<lparr>ProxyAddr := addr\<rparr>) OptionProxyURI (VString (scheme @ lit ''://'' @ addr))"

definition SetMediaType :: "coap_msg \<Rightarrow> media_type \<Rightarrow> coap_msg" where
  "SetMediaType m mt = AddOption m OptionContentFormat (VMedia mt)"

definition SetStringPayload :: "coap_msg \<Rightarrow> bytes \<Rightarrow> coap_msg" where
  "SetStringPayload m s = m\<lparr>Payload := Some (StringPayload s)\<rparr>"

definition SetToken :: "coap_msg \<Rightarrow> bytes \<Rightarrow> coap_msg" where
  "SetToken m t = m\<lparr>Token := t\<rparr>"

definition SetChecksum :: "coap_msg \<Rightarrow> bytes \<Rightarrow> coap_msg" where
  "SetChecksum m checksum = AddOption m OptionChecksum (VString checksum)"

definition SetAddChecksumOnSend :: "coap_msg \<Rightarrow> bool \<Rightarrow> coap_msg" where
  "SetAddChecksumOnSend m enabled = m\<lparr>AddChecksumOnSend := enabled\<rparr>"

definition GetChecksum :: "coap_msg \<Rightarrow> bytes" where
  "GetChecksum m = GetOptionAsString m OptionChecksum"

definition SetSchemeCOAP :: "coap_msg \<Rightarrow> coap_msg" where
  "SetSchemeCOAP m = AddOption m OptionURIScheme (VInt COAP_SCHEME)"

definition SetSchemeCOAPS :: "coap_msg \<Rightarrow> coap_msg" where
  "SetSchemeCOAPS m = AddOption m OptionURIScheme (VInt COAPS_SCHEME)"

definition IsRequest :: "coap_msg \<Rightarrow> bool" where
  "IsRequest m \<longleftrightarrow> MType m = CON"

definition IsProxied :: "coap_msg \<Rightarrow> bool" where
  "IsProxied m \<longleftrightarrow> GetOption m OptionProxyURI \<noteq> None"

definition isBigPayload :: "coap_msg \<Rightarrow> bool" where
  "isBigPayload m =
    (case Payload m of None \<Rightarrow> False | Some p \<Rightarrow> Length p > MAX_PAYLOAD_SIZE)"

end
