(* ===== verification/Coap_Codec.thy ===== *)
theory Coap_Codec
  imports Coap_Message "HOL-Library.Multiset"
begin

text \<open>
  The encodings \<open>common.go\<close> provides to the wire format: integers, dynamically typed
  option values, option headers, the option sort, and \<open>validateMessage\<close>. The reader and
  the writer built on them are in \<open>Coap_Wire\<close>.
\<close>

subsection \<open>Integers and option values\<close>

definition encodeInt :: "32 word \<Rightarrow> bytes" where
  "encodeInt v =
    (if v = 0 then []
     else if v < 256 then [ucast v]
     else if v < 65536 then put_be16 (ucast v)
     else put_be32 v)"

definition decodeInt :: "bytes \<Rightarrow> err + 32 word" where
  "decodeInt b =
    (if length b > 4 then Inl ErrDataOutsideOfType
     else let tmp = replicate (4 - length b) 0 @ b
          in Inr (get_be32 (tmp ! 0) (tmp ! 1) (tmp ! 2) (tmp ! 3)))"

text \<open>A value of a type the switch does not name leaves \<open>v\<close> at 0.\<close>

definition valueToBytes :: "optval \<Rightarrow> bytes" where
  "valueToBytes value = (case value of
      VString s \<Rightarrow> s
    | VBytes b \<Rightarrow> b
    | VMedia i \<Rightarrow> encodeInt (word_of_int i)
    | VUint8 w \<Rightarrow> encodeInt (ucast w)
    | VInt i \<Rightarrow> encodeInt (word_of_int i)
    | VInt32 w \<Rightarrow> encodeInt w
    | VUint w \<Rightarrow> encodeInt (ucast w)
    | VUint32 w \<Rightarrow> encodeInt w
    | _ \<Rightarrow> encodeInt 0)"

lemma length_encodeInt: "length (encodeInt v) \<le> 4"
  by (simp add: encodeInt_def)

lemma ucast_drop_bit_0:
  "v < 2 ^ n \<Longrightarrow> drop_bit n (v :: 32 word) = 0"
  by (simp add: drop_bit_eq_div div_word_less)

lemma decode_encodeInt [simp]: "decodeInt (encodeInt v) = Inr v"
proof -
  have z: "drop_bit (n + m) v = 0" if "v < 2 ^ n" for n m
    using ucast_drop_bit_0 [OF that] by (metis add.commute drop_bit_drop_bit drop_bit_of_0)
  consider "v = 0" | "v \<noteq> 0" "v < 256" | "\<not> v < 256" "v < 65536" | "\<not> v < 65536" by blast
  then show ?thesis
  proof cases
    case 1
    then show ?thesis by (simp add: encodeInt_def decodeInt_def get_be32_def numeral_eq_Suc)
  next
    case 2
    then have "drop_bit 8 v = 0" "drop_bit 16 v = 0" "drop_bit 24 v = 0"
      using z [of 8 0] z [of 8 8] z [of 8 16] by simp_all
    with 2 show ?thesis
      using get_put_be32 [of v] by (simp add: encodeInt_def decodeInt_def numeral_eq_Suc)
  next
    case 3
    then have d: "drop_bit 16 v = 0" "drop_bit 24 v = 0"
      using z [of 16 0] z [of 16 8] by simp_all
    have "(ucast (drop_bit 8 (ucast v :: 16 word)) :: byte) = ucast (drop_bit 8 v)"
      "(ucast (ucast v :: 16 word) :: byte) = ucast v"
      by (rule bit_word_eqI; simp add: bit_simps)+
    moreover have "v \<noteq> 0" using 3 by auto
    ultimately show ?thesis
      using 3 d get_put_be32 [of v]
      by (simp add: encodeInt_def decodeInt_def put_be16_def numeral_eq_Suc)
  next
    case 4
    then have "v \<noteq> 0" "\<not> v < 256"
      by (auto simp: word_less_nat_alt)
    with 4 show ?thesis
      using get_put_be32 [of v]
      by (simp add: encodeInt_def decodeInt_def put_be32_def numeral_eq_Suc)
  qed
qed

subsection \<open>Sorting the options\<close>

text \<open>
  \<open>sort.Sort\<close> sorts by insertion up to 12 elements. Beyond that the algorithm of the
  library is left open: \<open>pdq\<close> is what it does to the list.
\<close>

definition swap_elems :: "nat \<Rightarrow> nat \<Rightarrow> 'a list \<Rightarrow> 'a list" where
  "swap_elems i j xs = xs[i := xs ! j, j := xs ! i]"

fun swap_paths :: "nat \<Rightarrow> nat \<Rightarrow> nat list \<Rightarrow> coap_option list \<Rightarrow> coap_option list" where
  "swap_paths i j [] opts = opts"
| "swap_paths i j (index # rest) opts =
     swap_paths i j rest
       (if OCode (opts ! index) = OptionURIPath \<and> index > j \<and> index < i
        then swap_elems j index (swap_elems i index opts) else opts)"

definition Swap :: "nat \<Rightarrow> nat \<Rightarrow> coap_option list \<Rightarrow> coap_option list" where
  "Swap i j opts =
    (let opts1 = swap_elems i j opts
     in if OCode (opts1 ! j) = OptionURIPath \<or> OCode (opts1 ! i) = OptionURIPath
        then swap_paths i j [0..<length opts1] opts1 else opts1)"

definition Less :: "nat \<Rightarrow> nat \<Rightarrow> coap_option list \<Rightarrow> bool" where
  "Less i j opts \<longleftrightarrow> OCode (opts ! i) < OCode (opts ! j)"

fun sift :: "nat \<Rightarrow> coap_option list \<Rightarrow> coap_option list" where
  "sift 0 opts = opts"
| "sift (Suc j) opts = (if Less (Suc j) j opts then sift j (Swap (Suc j) j opts) else opts)"

definition insertionSort :: "coap_option list \<Rightarrow> coap_option list" where
  "insertionSort opts = fold sift [1..<length opts] opts"

type_synonym sorter = "coap_option list \<Rightarrow> coap_option list"

definition sortOptions :: "sorter \<Rightarrow> coap_option list \<Rightarrow> coap_option list" where
  "sortOptions pdq opts = (if length opts \<le> 12 then insertionSort opts else pdq opts)"

text \<open>
  What the documentation of \<open>sort.Sort\<close> promises whatever the algorithm is: it changes the
  list by calls of \<open>Swap\<close> on positions of the list and in no other way.
\<close>

inductive swap_run :: "coap_option list \<Rightarrow> coap_option list \<Rightarrow> bool" where
  swap_refl: "swap_run opts opts"
| swap_step: "swap_run opts opts1 \<Longrightarrow> i < length opts1 \<Longrightarrow> j < length opts1 \<Longrightarrow>
     swap_run opts (Swap i j opts1)"

definition swaps_only :: "sorter \<Rightarrow> bool" where
  "swaps_only pdq \<longleftrightarrow> (\<forall>opts. swap_run opts (pdq opts))"

lemma mset_swap_elems [simp]:
  "i < length xs \<Longrightarrow> j < length xs \<Longrightarrow> mset (swap_elems i j xs) = mset xs"
  by (simp add: swap_elems_def mset_swap)

lemma length_swap_elems [simp]: "length (swap_elems i j xs) = length xs"
  by (simp add: swap_elems_def)

lemma mset_swap_paths:
  "i < length opts \<Longrightarrow> j < length opts \<Longrightarrow> set idx \<subseteq> {..<length opts} \<Longrightarrow>
   mset (swap_paths i j idx opts) = mset opts"
  by (induction i j idx opts rule: swap_paths.induct) auto

lemma mset_Swap [simp]:
  "i < length opts \<Longrightarrow> j < length opts \<Longrightarrow> mset (Swap i j opts) = mset opts"
  using mset_swap_paths [of i "swap_elems i j opts" j "[0..<length opts]"]
  by (simp add: Swap_def Let_def atLeast0LessThan)

lemma swap_run_mset: "swap_run opts opts' \<Longrightarrow> mset opts' = mset opts"
  by (induction rule: swap_run.induct) auto

lemma swap_paths_none:
  "(\<And>index. index \<in> set idx \<Longrightarrow> \<not> (index > j \<and> index < i)) \<Longrightarrow> swap_paths i j idx opts = opts"
  by (induction i j idx opts rule: swap_paths.induct) auto

text \<open>Between neighbours there is no path option to rearrange: \<open>Swap\<close> is a plain exchange.\<close>

lemma Swap_adjacent: "Swap (Suc j) j opts = swap_elems (Suc j) j opts"
  unfolding Swap_def Let_def by (subst swap_paths_none) auto

lemma Swap_append:
  "length ys = j \<Longrightarrow> Swap (Suc j) j (ys @ y # x # zs) = ys @ x # y # zs"
  by (simp add: Swap_adjacent swap_elems_def nth_append list_update_append)

lemma sift_append:
  "sorted (map OCode ys) \<Longrightarrow> length ys = i \<Longrightarrow>
   sift i (ys @ x # zs) =
     filter (\<lambda>y. OCode y \<le> OCode x) ys @ x # filter (\<lambda>y. OCode x < OCode y) ys @ zs"
proof (induction ys arbitrary: i zs rule: rev_induct)
  case Nil
  then show ?case by simp
next
  case (snoc y ys)
  then obtain j where i: "i = Suc j" and len: "length ys = j" by simp
  have le: "OCode z \<le> OCode y" if "z \<in> set ys" for z
    using snoc.prems(1) that by (auto simp: sorted_append)
  have less: "Less (Suc j) j ((ys @ [y]) @ x # zs) \<longleftrightarrow> OCode x < OCode y"
    using len by (simp add: Less_def nth_append)
  show ?case
  proof (cases "OCode x < OCode y")
    case True
    have "sift i ((ys @ [y]) @ x # zs) = sift j (ys @ x # y # zs)"
      using True less i len by (simp add: Swap_append)
    then show ?thesis
      using snoc.IH [of j "y # zs"] snoc.prems(1) len True by (simp add: sorted_append)
  next
    case False
    then have "filter (\<lambda>z. OCode z \<le> OCode x) ys = ys" "filter (\<lambda>z. OCode x < OCode z) ys = []"
      using le by (fastforce simp: filter_id_conv filter_empty_conv)+
    then show ?thesis using False less i by simp
  qed
qed

lemma take_prefix: "length xs = n \<Longrightarrow> take n (xs @ ys) = xs"
  by simp

text \<open>The loop keeps: a sorted prefix, the same elements, and the same order within a code.\<close>

definition sort_inv :: "coap_option list \<Rightarrow> nat \<Rightarrow> coap_option list \<Rightarrow> bool" where
  "sort_inv opts i opts' \<longleftrightarrow> sorted (map OCode (take i opts')) \<and> mset opts' = mset opts \<and>
    (\<forall>c. opts_with c opts' = opts_with c opts)"

lemma filter_split_code:
  "c \<le> k \<Longrightarrow> filter (\<lambda>y. OCode y \<le> k \<and> OCode y = c) ys = opts_with c ys"
  "c \<le> k \<Longrightarrow> filter (\<lambda>y. k < OCode y \<and> OCode y = c) ys = []"
  "k < c \<Longrightarrow> filter (\<lambda>y. OCode y \<le> k \<and> OCode y = c) ys = []"
  "k < c \<Longrightarrow> filter (\<lambda>y. k < OCode y \<and> OCode y = c) ys = opts_with c ys"
  by (auto simp: filter_empty_conv intro: filter_cong)

lemma sort_inv_step:
  assumes "sort_inv opts i opts'" "i < length opts'"
  shows "sort_inv opts (Suc i) (sift i opts')"
proof -
  let ?ys = "take i opts'" and ?x = "opts' ! i" and ?zs = "drop (Suc i) opts'"
  let ?l = "filter (\<lambda>y. OCode y \<le> OCode ?x) ?ys" and ?r = "filter (\<lambda>y. OCode ?x < OCode y) ?ys"
  have split: "opts' = ?ys @ ?x # ?zs" using assms(2) by (rule id_take_nth_drop)
  have sorted: "sorted (map OCode ?ys)" using assms(1) by (simp add: sort_inv_def)
  have res: "sift i opts' = ?l @ ?x # ?r @ ?zs"
    using sift_append [OF sorted, of i ?x ?zs] split assms(2) by simp
  have len: "length (?l @ ?x # ?r) = Suc i"
    using sum_length_filter_compl [of "\<lambda>y. OCode y \<le> OCode ?x" ?ys] assms(2)
    by (simp add: not_le)
  have "take (Suc i) (sift i opts') = ?l @ ?x # ?r"
    using take_prefix [OF len, of ?zs] res by simp
  then have "sorted (map OCode (take (Suc i) (sift i opts')))"
    using sorted by (auto simp: sorted_append sorted_filter less_imp_le)
  moreover have "mset ?ys = mset ?l + mset ?r"
    using multiset_partition [of "mset ?ys" "\<lambda>y. OCode y \<le> OCode ?x"] by (simp add: not_le)
  then have "mset (sift i opts') = mset opts'"
    unfolding res by (intro trans [OF _ arg_cong [OF split [symmetric], of mset]]) simp
  moreover have "opts_with c (sift i opts') = opts_with c opts'" for c
    unfolding res
    by (rule trans [OF _ arg_cong [OF split [symmetric], of "opts_with c"]])
       (cases "c \<le> OCode ?x"; simp add: filter_split_code not_le)
  ultimately show ?thesis using assms(1) by (simp add: sort_inv_def)
qed

lemma sort_inv_fold:
  "sort_inv opts i opts' \<Longrightarrow> i \<le> n \<Longrightarrow> n \<le> length opts' \<Longrightarrow>
   sort_inv opts n (fold sift [i..<n] opts')"
proof (induction "n - i" arbitrary: i opts')
  case 0
  then show ?case by simp
next
  case (Suc k)
  then have "sort_inv opts (Suc i) (sift i opts')"
    by (simp add: sort_inv_step)
  moreover from this Suc.prems have "length (sift i opts') = length opts'"
    by (metis sort_inv_def size_mset)
  ultimately have "sort_inv opts n (fold sift [Suc i..<n] (sift i opts'))"
    using Suc by simp
  with Suc.hyps(2) show ?case by (simp add: upt_conv_Cons)
qed

text \<open>Up to 12 options the sort is the stable sort by option code.\<close>

lemma insertionSort_sort_key: "insertionSort opts = sort_key OCode opts"
proof -
  have "sort_inv opts 1 opts"
    by (cases opts) (simp_all add: sort_inv_def)
  moreover have "sort_inv opts (length opts) opts" if "opts = []"
    using that by (simp add: sort_inv_def)
  ultimately have "sort_inv opts (length opts) (insertionSort opts)"
    using sort_inv_fold [of opts 1 opts "length opts"]
    by (cases opts) (simp_all add: insertionSort_def)
  then have "sorted (map OCode (insertionSort opts))" "mset (insertionSort opts) = mset opts"
    "\<And>c. opts_with c (insertionSort opts) = opts_with c opts"
    by (auto simp: sort_inv_def dest: mset_eq_length)
  then show ?thesis
    by (intro properties_for_sort_key [symmetric]) (simp_all add: eq_commute)
qed

lemma sortOptions_small: "length opts \<le> 12 \<Longrightarrow> sortOptions pdq opts = sort_key OCode opts"
  by (simp add: sortOptions_def insertionSort_sort_key)

lemma mset_sortOptions: "swaps_only pdq \<Longrightarrow> mset (sortOptions pdq opts) = mset opts"
  by (simp add: sortOptions_def insertionSort_sort_key swaps_only_def swap_run_mset)

subsection \<open>Option headers and message validation\<close>

definition getOptionHeaderValue :: "int \<Rightarrow> int \<times> err option" where
  "getOptionHeaderValue optValue =
    (if optValue \<le> 12 then (optValue, None)
     else if optValue \<le> 268 then (13, None)
     else if optValue \<le> 65804 then (14, None)
     else (0, Some ErrInvalidOptionDelta))"

text \<open>
  \<open>first_repeated\<close> is the loop over the options: it stops at the first option whose code
  occurs more than once, is not repeatable and is odd.
\<close>

definition bad_repeat :: "coap_msg \<Rightarrow> coap_option \<Rightarrow> bool" where
  "bad_repeat m opt =
    (let opts = GetOptions m (OCode opt)
     in length opts > 1 \<and> \<not> IsRepeatableOption (hd opts) \<and> OCode (hd opts) AND 1 = 1)"

definition validateMessage :: "coap_msg \<Rightarrow> err option" where
  "validateMessage m =
    (if MType m > 3 then Some ErrUnknownMessageType
     else if GetTokenLength m > 8 then Some ErrInvalidTokenLength
     else if list_ex (bad_repeat m) (Options m) then Some ErrUnknownCriticalOption
     else None)"

text \<open>Options collected with \<open>AddOption\<close> never trip the repetition check.\<close>

lemma opts_unique_no_bad_repeat: "opts_unique (Options m) \<Longrightarrow> \<not> list_ex (bad_repeat m) (Options m)"
proof
  assume u: "opts_unique (Options m)" and "list_ex (bad_repeat m) (Options m)"
  then obtain opt where opt: "opt \<in> set (Options m)" "bad_repeat m opt"
    by (auto simp: list_ex_iff)
  let ?opts = "opts_with (OCode opt) (Options m)"
  have "hd ?opts \<in> set ?opts"
    using opt(2) by (intro hd_in_set) (auto simp: bad_repeat_def GetOptions_def)
  then have "OCode (hd ?opts) = OCode opt" by simp
  then have "\<not> IsRepeatableOption opt" "length ?opts > 1"
    using opt(2) by (auto simp: bad_repeat_def GetOptions_def IsRepeatableOption_def Let_def)
  with u opt(1) show False by (auto simp: opts_unique_def)
qed

end
