(* ===== verification/Coap_Wire.thy ===== *)
theory Coap_Wire
  imports Coap_Codec
begin

text \<open>
  \<open>Serialize\<close> and \<open>deserialize\<close> of \<open>message.go\<close>. \<open>deserialize\<close> recovers from every
  panic of its body and then returns the zero values of its results, \<open>nil, nil\<close>; the body
  is a function with an explicit \<open>Panic\<close> outcome. A slice expression past the end of the
  data panics: where Go would allow \<open>tmp[:2]\<close> to read into the spare capacity of the
  buffer, the \<open>tmp[2:]\<close> that follows panics, so no such read is ever returned.
\<close>

subsection \<open>Serialize\<close>

definition ext_bytes :: "int \<Rightarrow> int \<Rightarrow> bytes" where
  "ext_bytes header v =
    (if header = 13 then [word_of_int (v - 13)]
     else if header = 14 then put_be16 (word_of_int (v - 269))
     else [])"

definition write_option :: "int \<Rightarrow> coap_option \<Rightarrow> bytes" where
  "write_option lastOptionCode opt =
    (let optDelta = go_int (OCode opt - lastOptionCode);
         optDeltaValue = fst (getOptionHeaderValue optDelta);
         byteValue = valueToBytes (OValue opt);
         optLength = int (length byteValue);
         optLengthValue = fst (getOptionHeaderValue optLength)
     in [word_of_int (push_bit 4 optDeltaValue OR optLengthValue)]
        @ ext_bytes optDeltaValue optDelta @ ext_bytes optLengthValue optLength @ byteValue)"

fun write_options :: "int \<Rightarrow> coap_option list \<Rightarrow> bytes" where
  "write_options lastOptionCode [] = []"
| "write_options lastOptionCode (opt # opts) =
     write_option lastOptionCode opt @ write_options (OCode opt) opts"

definition write_header :: "coap_msg \<Rightarrow> bytes" where
  "write_header m =
    [push_bit 6 1 OR push_bit 4 (MType m) OR (0x0f AND of_nat (length (Token m))), MCode m]
    @ put_be16 (MessageID m)"

definition write_payload :: "payload option \<Rightarrow> bytes" where
  "write_payload p =
    (case p of None \<Rightarrow> [] | Some p \<Rightarrow> if Length p > 0 then [PayloadMarker] @ Bytes p else [])"

text \<open>
  \<open>Serialize\<close> also changes the message: it normalises a scheme option that is not the
  secure one, and sorts the options in place. It has no failing branch.
\<close>

definition normalise_scheme :: "coap_msg \<Rightarrow> coap_msg" where
  "normalise_scheme m = (case GetOption m OptionURIScheme of
      Some opt \<Rightarrow> if OValue opt = VNil \<or> IntValue opt \<noteq> COAPS_SCHEME
                  then AddOption m OptionURIScheme (VInt COAP_SCHEME) else m
    | None \<Rightarrow> m)"

definition Serialize :: "sorter \<Rightarrow> coap_msg \<Rightarrow> bytes \<times> coap_msg" where
  "Serialize pdq m =
    (let m1 = normalise_scheme m;
         m2 = m1\<lparr>Options := sortOptions pdq (Options m1)\<rparr>
     in (write_header m2 @ Token m2 @ write_options 0 (Options m2) @ write_payload (Payload m2), m2))"

subsection \<open>deserialize\<close>

datatype ext_result = ExtPanic | ExtReserved | ExtOK "16 word" bytes

text \<open>The two switches on the delta and the length nibble differ in their error only.\<close>

definition read_ext :: "16 word \<Rightarrow> bytes \<Rightarrow> ext_result" where
  "read_ext nibble tmp =
    (if nibble = 13 then (case tmp of b # rest \<Rightarrow> ExtOK (ucast b + 13) rest | [] \<Rightarrow> ExtPanic)
     else if nibble = 14 then
       (case tmp of a # b # rest \<Rightarrow> ExtOK (get_be16 a b + 269) rest | _ \<Rightarrow> ExtPanic)
     else if nibble = 15 then ExtReserved
     else ExtOK nibble tmp)"

definition int_option_codes :: "option_code list" where
  "int_option_codes = [OptionURIScheme, OptionProxyScheme, OptionURIPort, OptionContentFormat,
     OptionMaxAge, OptionAccept, OptionSize1, OptionSize2, OptionBlock1, OptionBlock2,
     OptionHandshakeType, OptionObserve, OptionSessionNotFound, OptionSessionExpired,
     OptionSelectiveRepeatWindowSize, OptionProxySecurityID]"

definition string_option_codes :: "option_code list" where
  "string_option_codes = [OptionURIHost, OptionEtag, OptionLocationPath, OptionURIPath,
     OptionURIQuery, OptionLocationQuery, OptionProxyURI, OptionCoapsUri, OptionChecksum]"

text \<open>
  One turn of the option loop on a non-empty rest: it panics, returns with an error
  (\<open>OptReturn True e\<close> returns the message built so far, \<open>OptReturn False e\<close> returns nil),
  or goes on with an option to append, if any, the option number and the rest.
\<close>

datatype opt_result =
    OptPanic
  | OptReturn bool err
  | OptNext "coap_option option" "16 word" bytes

definition read_value :: "16 word \<Rightarrow> bytes \<Rightarrow> bytes \<Rightarrow> opt_result" where
  "read_value lastOptionID optionValue rest =
    (let optCode = uint lastOptionID
     in if optCode \<in> set int_option_codes then
          (case decodeInt optionValue of
             Inl e \<Rightarrow> OptReturn False e
           | Inr intVal \<Rightarrow> OptNext (Some (NewOption optCode (VUint32 intVal))) lastOptionID rest)
        else if optCode \<in> set string_option_codes then
          OptNext (Some (NewOption optCode (VString optionValue))) lastOptionID rest
        else if lastOptionID AND 1 = 1 then OptReturn True ErrUnknownCriticalOption
        else OptNext None lastOptionID rest)"

definition read_option :: "16 word \<Rightarrow> byte \<Rightarrow> bytes \<Rightarrow> opt_result" where
  "read_option lastOptionID b tmp =
    (case read_ext (ucast (drop_bit 4 b)) tmp of
       ExtPanic \<Rightarrow> OptPanic
     | ExtReserved \<Rightarrow> OptReturn True ErrOptionDeltaUsesValue15
     | ExtOK optionDelta tmp \<Rightarrow>
         let lastOptionID = lastOptionID + optionDelta
         in case read_ext (ucast (b AND 0x0f)) tmp of
              ExtPanic \<Rightarrow> OptPanic
            | ExtReserved \<Rightarrow> OptReturn True ErrOptionLengthUsesValue15
            | ExtOK optionLength tmp \<Rightarrow>
                if unat optionLength \<le> length tmp
                then read_value lastOptionID (take (unat optionLength) tmp)
                       (drop (unat optionLength) tmp)
                else OptNext (Some (NewOption (uint lastOptionID) VNil)) lastOptionID tmp)"

lemma read_ext_length: "read_ext nibble tmp = ExtOK v rest \<Longrightarrow> length rest \<le> length tmp"
  by (auto simp: read_ext_def split: if_splits list.splits)

lemma read_value_rest: "read_value c v rest = OptNext opt c' rest' \<Longrightarrow> rest' = rest \<and> c' = c"
  by (auto simp: read_value_def Let_def split: if_splits sum.splits)

lemma read_option_length:
  "read_option c b tmp = OptNext opt c' rest \<Longrightarrow> length rest \<le> length tmp"
  by (fastforce simp: read_option_def Let_def split: ext_result.splits if_splits
      dest!: read_ext_length read_value_rest)

text \<open>The loop: \<open>opts\<close> holds the options appended so far.\<close>

datatype loop_result =
    LoopPanic
  | LoopReturn "coap_option list option" err
  | LoopDone "coap_option list" bytes

function read_options :: "16 word \<Rightarrow> coap_option list \<Rightarrow> bytes \<Rightarrow> loop_result" where
  "read_options lastOptionID opts [] = LoopDone opts []"
| "read_options lastOptionID opts (b # tmp) =
     (if b = PayloadMarker then LoopDone opts tmp
      else case read_option lastOptionID b tmp of
             OptPanic \<Rightarrow> LoopPanic
           | OptReturn True e \<Rightarrow> LoopReturn (Some opts) e
           | OptReturn False e \<Rightarrow> LoopReturn None e
           | OptNext opt lastOptionID rest \<Rightarrow>
               read_options lastOptionID
                 (case opt of None \<Rightarrow> opts | Some opt \<Rightarrow> opts @ [opt]) rest)"
  by pat_completeness auto
termination
  by (relation "measure (\<lambda>(lastOptionID, opts, tmp). length tmp)")
     (auto dest!: read_option_length)

datatype 'a go = Panic | Ret 'a

type_synonym msg_result = "coap_msg option \<times> err option"

definition deserialize_body :: "bytes \<Rightarrow> msg_result go" where
  "deserialize_body data =
    (if length data < 4 then Ret (Some zero_msg, Some ErrPacketLengthLessThan4)
     else if drop_bit 6 (data ! 0) \<noteq> 1 then Ret (None, Some ErrInvalidCoapVersion)
     else
       let tokenLength = unat (data ! 0 AND 0x0f)
       in if 4 + tokenLength > length data then Panic
          else
            let m = zero_msg\<lparr>MType := drop_bit 4 (data ! 0) AND 0x03, MCode := data ! 1,
                      MessageID := get_be16 (data ! 2) (data ! 3),
                      Token := take tokenLength (drop 4 data)\<rparr>
            in case read_options 0 [] (drop (4 + tokenLength) data) of
                 LoopPanic \<Rightarrow> Panic
               | LoopReturn None e \<Rightarrow> Ret (None, Some e)
               | LoopReturn (Some opts) e \<Rightarrow> Ret (Some (m\<lparr>Options := opts\<rparr>), Some e)
               | LoopDone opts tmp \<Rightarrow>
                   let m = m\<lparr>Options := opts, Payload := Some (BytesPayload tmp)\<rparr>
                   in Ret (Some m, validateMessage m))"

definition deserialize :: "bytes \<Rightarrow> msg_result" where
  "deserialize data = (case deserialize_body data of Panic \<Rightarrow> (None, None) | Ret r \<Rightarrow> r)"

end
