(* ===== verification/Secure_Session.thy ===== *)
theory Secure_Session
  imports Coap_Wire
begin

text \<open>
  The \<open>session\<close> package: key agreement, key derivation and the AEAD of one secured session.
  The primitives it calls (Curve25519, SHA-256, HKDF, AES-GCM) are the parameter \<open>crypto\<close>;
  \<open>crypto_laws\<close> states the documented behaviour the package relies on.
\<close>

subsection \<open>The primitives\<close>

text \<open>A cipher of \<open>aes12.NewGCM\<close>: nonce, text and associated data.\<close>

record gcm =
  gcmSeal :: "bytes \<Rightarrow> bytes \<Rightarrow> bytes \<Rightarrow> bytes"
  gcmOpen :: "bytes \<Rightarrow> bytes \<Rightarrow> bytes \<Rightarrow> bytes option"

text \<open>\<open>HkdfRead secret salt info n\<close> reads \<open>n\<close> bytes of \<open>hkdf.New(sha256.New, \<dots>)\<close>; \<open>NewGCM\<close> is
  \<open>aes12.NewCipher\<close> followed by \<open>aes12.NewGCM\<close>.\<close>

record crypto =
  ScalarMult :: "bytes \<Rightarrow> bytes \<Rightarrow> bytes"
  ScalarBaseMult :: "bytes \<Rightarrow> bytes"
  Sum256 :: "bytes \<Rightarrow> bytes"
  HkdfRead :: "bytes \<Rightarrow> bytes \<Rightarrow> bytes \<Rightarrow> nat \<Rightarrow> bytes option"
  NewGCM :: "bytes \<Rightarrow> gcm option"

subsection \<open>Curve25519.go\<close>

definition KEY_SIZE :: nat where "KEY_SIZE = 32"

record Curve25519 =
  privateKey :: bytes
  publicKey :: bytes

definition clamp :: "bytes \<Rightarrow> bytes" where
  "clamp k = (let k = k[0 := k ! 0 AND 248]; k = k[31 := k ! 31 AND 127] in k[31 := k ! 31 OR 64])"

text \<open>\<open>rnd\<close> is what \<open>rand.Read\<close> returns for 32 bytes, \<open>None\<close> on an error.\<close>

definition NewCurve25519 :: "crypto \<Rightarrow> bytes option \<Rightarrow> err + Curve25519" where
  "NewCurve25519 cr rnd = (case rnd of
      None \<Rightarrow> Inl (ErrExternal 25519)
    | Some r \<Rightarrow> Inr \<lparr>privateKey = clamp r, publicKey = ScalarBaseMult cr (clamp r)\<rparr>)"

definition NewStaticCurve25519 :: "crypto \<Rightarrow> bytes \<Rightarrow> Curve25519" where
  "NewStaticCurve25519 cr pk = \<lparr>privateKey = clamp pk, publicKey = ScalarBaseMult cr (clamp pk)\<rparr>"

definition GetPublicKey :: "Curve25519 \<Rightarrow> bytes" where
  "GetPublicKey curve = publicKey curve"

definition GenerateSharedSecret :: "crypto \<Rightarrow> Curve25519 \<Rightarrow> bytes \<Rightarrow> err + bytes" where
  "GenerateSharedSecret cr curve peerPublicKey =
    (if length peerPublicKey \<noteq> KEY_SIZE then Inl ErrPublicKeySize
     else Inr (ScalarMult cr (privateKey curve) peerPublicKey))"

subsection \<open>HKDF.go\<close>

definition keyLen :: nat where "keyLen = 16"

definition DeriveKeysFromSharedSecret ::
    "crypto \<Rightarrow> bytes \<Rightarrow> bytes \<Rightarrow> bytes \<Rightarrow> err + bytes \<times> bytes \<times> bytes \<times> bytes" where
  "DeriveKeysFromSharedSecret cr sharedSecret salt info =
    (case HkdfRead cr sharedSecret salt info (2 * keyLen + 2 * 4) of
       None \<Rightarrow> Inl (ErrExternal 5869)
     | Some s \<Rightarrow>
         Inr (take keyLen s, take keyLen (drop keyLen s), take 4 (drop (2 * keyLen) s),
           drop (2 * keyLen + 4) s))"

subsection \<open>AEAD.go\<close>

record AEAD =
  PeerKey :: bytes
  MyKey :: bytes
  PeerIV :: bytes
  MyIV :: bytes
  encrypter :: gcm
  decrypter :: gcm

definition NewAEAD :: "crypto \<Rightarrow> bytes \<Rightarrow> bytes \<Rightarrow> bytes \<Rightarrow> bytes \<Rightarrow> err + AEAD" where
  "NewAEAD cr peerKey myKey peerIV myIV =
    (if length myKey \<noteq> 16 \<or> length peerKey \<noteq> 16 \<or> length myIV \<noteq> 4 \<or> length peerIV \<noteq> 4
     then Inl ErrAeadKeySize
     else case NewGCM cr myKey of
       None \<Rightarrow> Inl (ErrExternal 12)
     | Some enc \<Rightarrow> (case NewGCM cr peerKey of
         None \<Rightarrow> Inl (ErrExternal 12)
       | Some dec \<Rightarrow> Inr \<lparr>PeerKey = peerKey, MyKey = myKey, PeerIV = peerIV, MyIV = myIV,
           encrypter = enc, decrypter = dec\<rparr>))"

definition makeNonce :: "bytes \<Rightarrow> 16 word \<Rightarrow> bytes" where
  "makeNonce iv counter =
    (let res = replicate 12 0;
         res = take 4 iv @ drop (length (take 4 iv)) res;
         n = put_le16 counter
     in take 4 res @ n @ drop 6 res)"

definition Open :: "AEAD \<Rightarrow> bytes \<Rightarrow> 16 word \<Rightarrow> bytes \<Rightarrow> bytes option" where
  "Open aead cipherText counter ad = gcmOpen (decrypter aead) (makeNonce (PeerIV aead) counter) cipherText ad"

definition Seal :: "AEAD \<Rightarrow> bytes \<Rightarrow> 16 word \<Rightarrow> bytes \<Rightarrow> bytes" where
  "Seal aead plainText counter ad = gcmSeal (encrypter aead) (makeNonce (MyIV aead) counter) plainText ad"

subsection \<open>SecuredSession.go\<close>

text \<open>The AEAD of a session is the zero value, here \<open>None\<close>, until a signature was verified.\<close>

record SecuredSession =
  Curve :: Curve25519
  SAEAD :: "AEAD option"
  PeerPublicKey' :: bytes
  UpdatedAt :: int

definition NewSecuredSession :: "crypto \<Rightarrow> bytes \<Rightarrow> bytes option \<Rightarrow> err + SecuredSession" where
  "NewSecuredSession cr pk rnd =
    (case (if pk = [] then NewCurve25519 cr rnd else Inr (NewStaticCurve25519 cr (Sum256 cr pk))) of
       Inl e \<Rightarrow> Inl e
     | Inr c \<Rightarrow> Inr \<lparr>Curve = c, SAEAD = None, PeerPublicKey' = [], UpdatedAt = 0\<rparr>)"

definition GetSignature :: "crypto \<Rightarrow> SecuredSession \<Rightarrow> err + bytes" where
  "GetSignature cr s =
    (case GenerateSharedSecret cr (Curve s) (PeerPublicKey' s) of
       Inl e \<Rightarrow> Inl e | Inr secret \<Rightarrow> Inr (Sum256 cr secret))"

text \<open>\<open>Verify\<close> and \<open>PeerVerify\<close> differ in the roles of the two keys; \<open>swap\<close> is \<open>PeerVerify\<close>.\<close>

definition verify_with :: "bool \<Rightarrow> crypto \<Rightarrow> SecuredSession \<Rightarrow> bytes \<Rightarrow> err option \<times> SecuredSession" where
  "verify_with swap cr s peerSignature =
    (case GetSignature cr s of
       Inl e \<Rightarrow> (Some e, s)
     | Inr signature \<Rightarrow>
         if signature \<noteq> peerSignature then (Some ErrSignatureMismatch, s)
         else case GenerateSharedSecret cr (Curve s) (PeerPublicKey' s) of
           Inl e \<Rightarrow> (Some e, s)
         | Inr secret \<Rightarrow> (case DeriveKeysFromSharedSecret cr secret [] [] of
             Inl e \<Rightarrow> (Some e, s)
           | Inr (peerKey, myKey, peerIV, myIV) \<Rightarrow>
               (case (if swap then NewAEAD cr myKey peerKey myIV peerIV
                      else NewAEAD cr peerKey myKey peerIV myIV) of
                  Inl e \<Rightarrow> (Some e, s\<lparr>SAEAD := None\<rparr>)
                | Inr a \<Rightarrow> (None, s\<lparr>SAEAD := Some a\<rparr>))))"

definition Verify :: "crypto \<Rightarrow> SecuredSession \<Rightarrow> bytes \<Rightarrow> err option \<times> SecuredSession" where
  "Verify = verify_with False"

definition PeerVerify :: "crypto \<Rightarrow> SecuredSession \<Rightarrow> bytes \<Rightarrow> err option \<times> SecuredSession" where
  "PeerVerify = verify_with True"

subsection \<open>Laws of the primitives\<close>

definition clamped :: "bytes \<Rightarrow> bool" where
  "clamped k \<longleftrightarrow> length k = KEY_SIZE \<and> clamp k = k"

definition gcm_laws :: "gcm \<Rightarrow> bool" where
  "gcm_laws g \<longleftrightarrow>
    (\<forall>nonce p ad. length nonce = 12 \<longrightarrow> gcmOpen g nonce (gcmSeal g nonce p ad) ad = Some p \<and>
       length (gcmSeal g nonce p ad) = length p + 16)"

definition crypto_laws :: "crypto \<Rightarrow> bool" where
  "crypto_laws cr \<longleftrightarrow>
    (\<forall>a b. clamped a \<and> clamped b \<longrightarrow>
       ScalarMult cr a (ScalarBaseMult cr b) = ScalarMult cr b (ScalarBaseMult cr a)) \<and>
    (\<forall>a. length (ScalarBaseMult cr a) = 32) \<and> (\<forall>x. length (Sum256 cr x) = 32) \<and>
    (\<forall>secret salt info n. n \<le> 8160 \<longrightarrow> (\<exists>s. HkdfRead cr secret salt info n = Some s \<and> length s = n)) \<and>
    (\<forall>k. length k = 16 \<longrightarrow> (\<exists>g. NewGCM cr k = Some g \<and> gcm_laws g))"

lemma length_makeNonce [simp]: "length (makeNonce iv c) = 12"
  by (simp add: makeNonce_def Let_def)

lemma makeNonce_4: "length iv = 4 \<Longrightarrow> makeNonce iv c = iv @ put_le16 c @ replicate 6 0"
  by (simp add: makeNonce_def Let_def)

lemma put_le16_inj: "put_le16 a = put_le16 b \<Longrightarrow> a = b"
  by (metis get_put_be16 list.inject put_le16_def)

lemma length_clamp [simp]: "length (clamp k) = length k"
  by (simp add: clamp_def Let_def)

lemma clamp_nth: "length k = 32 \<Longrightarrow> clamp k ! i =
   (if i = 0 then k ! 0 AND 248 else if i = 31 then (k ! 31 AND 127) OR 64 else k ! i)"
  by (simp add: clamp_def Let_def nth_list_update)

lemma clamp_clamp: "length k = 32 \<Longrightarrow> clamp (clamp k) = clamp k"
proof (rule nth_equalityI)
  fix i assume "length k = 32" "i < length (clamp (clamp k))"
  moreover have "((w AND 127) OR 64) AND 127 OR 64 = (w AND 127) OR (64 :: byte)" for w
    by (simp add: bit.conj_disj_distrib2 and.assoc or.assoc)
  ultimately show "clamp (clamp k) ! i = clamp k ! i"
    by (simp add: clamp_nth and.assoc)
qed simp

lemma clamped_clamp: "length k = 32 \<Longrightarrow> clamped (clamp k)"
  by (simp add: clamped_def KEY_SIZE_def clamp_clamp)

text \<open>A session of this package: its public key belongs to its private key.\<close>

definition session_ok :: "crypto \<Rightarrow> SecuredSession \<Rightarrow> bool" where
  "session_ok cr s \<longleftrightarrow> clamped (privateKey (Curve s)) \<and>
     publicKey (Curve s) = ScalarBaseMult cr (privateKey (Curve s))"

lemma session_ok_new:
  assumes "crypto_laws cr" "NewSecuredSession cr pk rnd = Inr s" "\<forall>r. rnd = Some r \<longrightarrow> length r = 32"
  shows "session_ok cr s"
  using assms
  by (auto simp: NewSecuredSession_def NewCurve25519_def NewStaticCurve25519_def session_ok_def
      crypto_laws_def clamped_clamp split: if_splits option.splits)

subsection \<open>Facts\<close>

text \<open>The signature a session computes itself never mismatches: what the peer sent is not
  compared with anything.\<close>

lemma self_signature_accepted:
  "GetSignature cr s = Inr sig \<Longrightarrow> fst (verify_with b cr s sig) \<noteq> Some ErrSignatureMismatch"
  by (auto simp: verify_with_def NewAEAD_def GenerateSharedSecret_def DeriveKeysFromSharedSecret_def
      split: sum.splits option.splits if_splits)

lemma DeriveKeys_ok:
  assumes "crypto_laws cr"
  obtains pk mk pv mv where "DeriveKeysFromSharedSecret cr secret salt info = Inr (pk, mk, pv, mv)"
    "length pk = 16" "length mk = 16" "length pv = 4" "length mv = 4"
proof -
  have "(40 :: nat) \<le> 8160 \<longrightarrow> (\<exists>s. HkdfRead cr secret salt info 40 = Some s \<and> length s = 40)"
    using assms unfolding crypto_laws_def by blast
  then obtain s where "HkdfRead cr secret salt info 40 = Some s" "length s = 40" by auto
  then show thesis
    using that by (simp add: DeriveKeysFromSharedSecret_def keyLen_def)
qed

lemma NewAEAD_ok:
  assumes "crypto_laws cr" "length pk = 16" "length mk = 16" "length pv = 4" "length mv = 4"
  obtains e d where "NewGCM cr mk = Some e" "NewGCM cr pk = Some d" "gcm_laws e" "gcm_laws d"
    "NewAEAD cr pk mk pv mv = Inr \<lparr>PeerKey = pk, MyKey = mk, PeerIV = pv, MyIV = mv, encrypter = e, decrypter = d\<rparr>"
proof -
  have "\<exists>g. NewGCM cr k = Some g \<and> gcm_laws g" if "length k = 16" for k
    using assms(1) that unfolding crypto_laws_def by blast
  then obtain e d where "NewGCM cr mk = Some e" "NewGCM cr pk = Some d" "gcm_laws e" "gcm_laws d"
    using assms(2,3) by metis
  then show thesis using that assms(2-5) by (simp add: NewAEAD_def)
qed

text \<open>Two AEADs with crossed keys and initialisation vectors.\<close>

definition aead_match :: "AEAD \<Rightarrow> AEAD \<Rightarrow> bool" where
  "aead_match a b \<longleftrightarrow> decrypter b = encrypter a \<and> decrypter a = encrypter b \<and>
     PeerIV b = MyIV a \<and> PeerIV a = MyIV b \<and> gcm_laws (encrypter a) \<and> gcm_laws (encrypter b)"

lemma aead_match_open:
  assumes "aead_match a b"
  shows "Open b (Seal a p c ad) c ad = Some p" "Open a (Seal b p c ad) c ad = Some p"
  using assms by (simp_all add: aead_match_def Open_def Seal_def gcm_laws_def)

lemma length_Seal: "aead_match a b \<Longrightarrow> length (Seal a p c ad) = length p + 16"
  by (simp add: aead_match_def Seal_def gcm_laws_def)

subsection \<open>A concrete instance of the laws\<close>

definition toy_gcm :: "bytes \<Rightarrow> gcm" where
  "toy_gcm k = \<lparr>gcmSeal = (\<lambda>n p ad. p @ n @ take 4 (k @ [0, 0, 0, 0])),
     gcmOpen = (\<lambda>n c ad. if drop (length c - 16) c = n @ take 4 (k @ [0, 0, 0, 0]) then Some (take (length c - 16) c) else None)\<rparr>"

definition toy_crypto :: crypto where
  "toy_crypto = \<lparr>ScalarMult = (\<lambda>a b. map2 (XOR) a b),
     ScalarBaseMult = (\<lambda>b. take 32 (b @ replicate 32 0)),
     Sum256 = (\<lambda>x. take 32 (x @ replicate 32 9)),
     HkdfRead = (\<lambda>secret salt info n. if n \<le> 8160 then Some (take n (secret @ replicate n 5)) else None),
     NewGCM = (\<lambda>k. if length k = 16 then Some (toy_gcm k) else None)\<rparr>"

lemma toy_crypto_laws: "crypto_laws toy_crypto"
proof -
  have "map2 (XOR) a b = map2 (XOR) b (a :: bytes)" for a b
    by (subst zip_commute) (auto simp: xor.commute intro!: map_cong)
  moreover have "gcm_laws (toy_gcm k)" if "length k = 16" for k
    using that by (simp add: gcm_laws_def toy_gcm_def)
  ultimately show ?thesis
    by (auto simp: crypto_laws_def toy_crypto_def clamped_def KEY_SIZE_def)
qed

subsection \<open>Properties\<close>

lemma sessions_match:
  assumes "crypto_laws cr" "session_ok cr cl" "session_ok cr sv"
    and "PeerPublicKey' cl = publicKey (Curve sv)" "PeerPublicKey' sv = publicKey (Curve cl)"
  shows "\<exists>sig a b. GetSignature cr cl = Inr sig \<and> GetSignature cr sv = Inr sig \<and>
    Verify cr cl sig = (None, cl\<lparr>SAEAD := Some a\<rparr>) \<and> PeerVerify cr sv sig = (None, sv\<lparr>SAEAD := Some b\<rparr>) \<and>
    aead_match a b"
proof -
  let ?x = "ScalarMult cr (privateKey (Curve cl)) (publicKey (Curve sv))"
  have len: "length (publicKey (Curve cl)) = KEY_SIZE" "length (publicKey (Curve sv)) = KEY_SIZE"
    using assms(1-3) by (simp_all add: crypto_laws_def session_ok_def KEY_SIZE_def)
  have sym: "ScalarMult cr (privateKey (Curve sv)) (publicKey (Curve cl)) = ?x"
    using assms(1-3) by (simp add: crypto_laws_def session_ok_def)
  have sec: "GenerateSharedSecret cr (Curve cl) (PeerPublicKey' cl) = Inr ?x"
    "GenerateSharedSecret cr (Curve sv) (PeerPublicKey' sv) = Inr ?x"
    using len sym assms(4,5) by (simp_all add: GenerateSharedSecret_def)
  obtain pk mk pv mv where d: "DeriveKeysFromSharedSecret cr ?x [] [] = Inr (pk, mk, pv, mv)"
    "length pk = 16" "length mk = 16" "length pv = 4" "length mv = 4"
    using DeriveKeys_ok [OF assms(1)] by blast
  obtain e d' where g: "NewGCM cr mk = Some e" "NewGCM cr pk = Some d'" "gcm_laws e" "gcm_laws d'"
    and a: "NewAEAD cr pk mk pv mv = Inr \<lparr>PeerKey = pk, MyKey = mk, PeerIV = pv, MyIV = mv, encrypter = e, decrypter = d'\<rparr>"
    using NewAEAD_ok [OF assms(1) d(2-5)] by blast
  let ?A = "\<lparr>PeerKey = pk, MyKey = mk, PeerIV = pv, MyIV = mv, encrypter = e, decrypter = d'\<rparr>"
    and ?B = "\<lparr>PeerKey = mk, MyKey = pk, PeerIV = mv, MyIV = pv, encrypter = d', decrypter = e\<rparr>"
  have b: "NewAEAD cr mk pk mv pv = Inr ?B"
    using g d(2-5) by (simp add: NewAEAD_def)
  have m: "aead_match ?A
      ?B"
    using g by (simp add: aead_match_def)
  have "Verify cr cl (Sum256 cr ?x) = (None, cl\<lparr>SAEAD := Some ?A\<rparr>)"
    by (simp add: Verify_def verify_with_def GetSignature_def sec d a)
  moreover have "PeerVerify cr sv (Sum256 cr ?x) = (None, sv\<lparr>SAEAD := Some ?B\<rparr>)"
    by (simp add: PeerVerify_def verify_with_def GetSignature_def sec d b)
  ultimately show ?thesis
    using m sec by (auto simp: GetSignature_def)
qed

text \<open>When client and server hold each other's public key, both compute the same signature,
  \<open>Verify\<close> at the client and \<open>PeerVerify\<close> at the server succeed on it, and the two sessions
  match: each opens what the other seals under the same counter, in both directions.\<close>

theorem handshake_sessions_match:
  assumes "crypto_laws cr" "session_ok cr cl" "session_ok cr sv"
    and "PeerPublicKey' cl = publicKey (Curve sv)" "PeerPublicKey' sv = publicKey (Curve cl)"
  shows "\<exists>sig cl' sv' a b. GetSignature cr cl = Inr sig \<and> GetSignature cr sv = Inr sig \<and>
    Verify cr cl sig = (None, cl') \<and> PeerVerify cr sv sig = (None, sv') \<and>
    SAEAD cl' = Some a \<and> SAEAD sv' = Some b \<and> aead_match a b \<and>
    (\<forall>p c ad. Open b (Seal a p c ad) c ad = Some p \<and> Open a (Seal b p c ad) c ad = Some p)"
proof -
  from sessions_match [OF assms] obtain sig a b where m: "GetSignature cr cl = Inr sig" "GetSignature cr sv = Inr sig"
    "Verify cr cl sig = (None, cl\<lparr>SAEAD := Some a\<rparr>)" "PeerVerify cr sv sig = (None, sv\<lparr>SAEAD := Some b\<rparr>)" "aead_match a b"
    by blast
  then show ?thesis
    using aead_match_open [OF m(5)]
    by (intro exI [of _ sig] exI [of _ "cl\<lparr>SAEAD := Some a\<rparr>"] exI [of _ "sv\<lparr>SAEAD := Some b\<rparr>"] exI [of _ a] exI [of _ b]) simp
qed

definition toy_session :: "byte \<Rightarrow> byte \<Rightarrow> SecuredSession" where
  "toy_session me peer = \<lparr>Curve = NewStaticCurve25519 toy_crypto (replicate 32 me), SAEAD = None,
     PeerPublicKey' = publicKey (NewStaticCurve25519 toy_crypto (replicate 32 peer)), UpdatedAt = 0\<rparr>"

lemma toy_session_ok: "session_ok toy_crypto (toy_session me peer)"
  by (simp add: session_ok_def toy_session_def NewStaticCurve25519_def clamped_clamp)

theorem handshake_sessions_match_witness:
  "\<exists>sig cl' sv' a b. Verify toy_crypto (toy_session 1 2) sig = (None, cl') \<and>
    PeerVerify toy_crypto (toy_session 2 1) sig = (None, sv') \<and>
    SAEAD cl' = Some a \<and> SAEAD sv' = Some b \<and> Open b (Seal a [1, 2, 3] 7 []) 7 [] = Some [1, 2, 3]"
proof -
  have "PeerPublicKey' (toy_session 1 2) = publicKey (Curve (toy_session 2 1))"
    "PeerPublicKey' (toy_session 2 1) = publicKey (Curve (toy_session 1 2))"
    by (simp_all add: toy_session_def)
  from handshake_sessions_match [OF toy_crypto_laws toy_session_ok toy_session_ok this]
  show ?thesis by blast
qed

text \<open>The nonce: the vector of the direction, the id, zeros; under one vector different ids give
  different nonces.\<close>

lemma makeNonce_inj:
  assumes "length iv = 4"
  shows "inj (makeNonce iv)" "length (makeNonce iv c) = 12" "take 4 (makeNonce iv c) = iv"
  using assms by (auto simp: makeNonce_4 intro!: injI dest: put_le16_inj)

lemma NewAEAD_keys:
  "NewAEAD cr pk mk pv mv = Inr a \<Longrightarrow>
   NewGCM cr mk = Some (encrypter a) \<and> MyIV a = mv \<and> length mv = 4"
  by (auto simp: NewAEAD_def split: if_splits option.splits)

end
