(* ===== verification/Coap_Uri.thy ===== *)
theory Coap_Uri
  imports Coap_Message
begin

text \<open>
  The URI methods of \<open>message.go\<close>: path and query are kept as repeated options, one per
  path segment and one per \<open>key=value\<close> pair. The functions of the \<open>strings\<close> and \<open>net/url\<close>
  packages used there are modelled for the one-byte separators the code passes them.
\<close>

subsection \<open>Library functions\<close>

text \<open>\<open>strings.Split(s, sep)\<close>, \<open>strings.Join(parts, sep)\<close>, \<open>strings.Index(s, sep)\<close>,
  \<open>strings.SplitN(s, sep, 2)\<close> and \<open>strings.Trim(s, cutset)\<close>.\<close>

fun Split :: "byte \<Rightarrow> bytes \<Rightarrow> bytes list" where
  "Split sep [] = [[]]"
| "Split sep (b # bs) =
     (if b = sep then [] # Split sep bs
      else case Split sep bs of [] \<Rightarrow> [[b]] | p # ps \<Rightarrow> (b # p) # ps)"

fun Join :: "byte \<Rightarrow> bytes list \<Rightarrow> bytes" where
  "Join sep [] = []"
| "Join sep [p] = p"
| "Join sep (p # ps) = p @ sep # Join sep ps"

fun Index :: "byte \<Rightarrow> bytes \<Rightarrow> nat option" where
  "Index sep [] = None"
| "Index sep (b # bs) = (if b = sep then Some 0 else map_option Suc (Index sep bs))"

definition SplitN2 :: "byte \<Rightarrow> bytes \<Rightarrow> bytes list" where
  "SplitN2 sep s = (case Index sep s of None \<Rightarrow> [s] | Some i \<Rightarrow> [take i s, drop (Suc i) s])"

definition Trim :: "bytes \<Rightarrow> bytes \<Rightarrow> bytes" where
  "Trim cutset s =
    (let l = dropWhile (\<lambda>b. b \<in> set cutset) s
     in rev (dropWhile (\<lambda>b. b \<in> set cutset) (rev l)))"

text \<open>\<open>url.QueryEscape\<close>: letters, digits and \<open>-_.~\<close> stay, a blank becomes \<open>+\<close>, any other
  byte becomes \<open>%\<close> and two upper-case hexadecimal digits.\<close>

definition upper_hex :: "byte \<Rightarrow> byte" where
  "upper_hex d = (if d < 10 then 48 + d else 55 + d)"

definition unreserved :: "byte \<Rightarrow> bool" where
  "unreserved b \<longleftrightarrow> (97 \<le> b \<and> b \<le> 122) \<or> (65 \<le> b \<and> b \<le> 90) \<or> (48 \<le> b \<and> b \<le> 57) \<or>
     b = 45 \<or> b = 95 \<or> b = 46 \<or> b = 126"

definition escape_byte :: "byte \<Rightarrow> bytes" where
  "escape_byte b =
    (if unreserved b then [b] else if b = 32 then [43]
     else [37, upper_hex (drop_bit 4 b), upper_hex (b AND 15)])"

definition QueryEscape :: "bytes \<Rightarrow> bytes" where
  "QueryEscape s = concat (map escape_byte s)"

abbreviation slash :: byte where "slash \<equiv> 47"
abbreviation eqsign :: byte where "eqsign \<equiv> 61"

subsection \<open>Path\<close>

fun add_path_parts :: "coap_msg \<Rightarrow> bytes list \<Rightarrow> coap_msg" where
  "add_path_parts m [] = m"
| "add_path_parts m (path # parts) =
     add_path_parts (if path \<noteq> [] then AddOption m OptionURIPath (VString path) else m) parts"

definition SetURIPath :: "coap_msg \<Rightarrow> bytes \<Rightarrow> coap_msg" where
  "SetURIPath m fullPath = add_path_parts m (Split slash fullPath)"

definition GetURIPath :: "coap_msg \<Rightarrow> bytes" where
  "GetURIPath m = slash # Join slash (GetOptionsAsString m OptionURIPath)"

subsection \<open>Query\<close>

definition SetURIQuery :: "coap_msg \<Rightarrow> bytes \<Rightarrow> bytes \<Rightarrow> coap_msg" where
  "SetURIQuery m k v = AddOption m OptionURIQuery (VString (k @ eqsign # v))"

definition parseOneQuery :: "bytes \<Rightarrow> bytes" where
  "parseOneQuery q = (case Index eqsign q of
      Some i \<Rightarrow> if i > 0 then QueryEscape (take i q) @ eqsign # QueryEscape (drop (i + 1) q) else []
    | None \<Rightarrow> [])"

definition GetURIQueryString :: "coap_msg \<Rightarrow> bytes" where
  "GetURIQueryString m =
    Join 38 (map (\<lambda>v. parseOneQuery (StringValue v)) (GetOptions m OptionURIQuery))"

definition GetURIQueryArray :: "coap_msg \<Rightarrow> bytes list" where
  "GetURIQueryArray m = map StringValue (GetOptions m OptionURIQuery)"

fun first_query :: "bytes \<Rightarrow> bytes list \<Rightarrow> bytes" where
  "first_query q [] = []"
| "first_query q (v # qs) =
     (case SplitN2 eqsign v of [k, w] \<Rightarrow> if k = q then w else first_query q qs
      | _ \<Rightarrow> first_query q qs)"

definition GetURIQuery :: "coap_msg \<Rightarrow> bytes \<Rightarrow> bytes" where
  "GetURIQuery m q = first_query q (GetURIQueryArray m)"

definition GetURI :: "coap_msg \<Rightarrow> bytes \<Rightarrow> bytes" where
  "GetURI m host =
    (let result = GetSchemeString m @ lit ''://'' @ host @ GetURIPath m;
         query = GetURIQueryString m
     in if length query > 0 then result @ 63 # query else result)"

subsection \<open>Facts\<close>

lemma Split_not_Nil [simp]: "Split sep s \<noteq> []"
  by (induction s) (auto split: list.splits)

lemma Split_segment: "sep \<notin> set p \<Longrightarrow> Split sep (p @ sep # s) = p # Split sep s"
  by (induction p) auto

lemma Split_last: "sep \<notin> set p \<Longrightarrow> Split sep p = [p]"
  by (induction p) auto

lemma Split_Join:
  "ps \<noteq> [] \<Longrightarrow> \<forall>p \<in> set ps. sep \<notin> set p \<Longrightarrow> Split sep (Join sep ps) = ps"
  by (induction sep ps rule: Join.induct) (simp_all add: Split_segment Split_last)

lemma Split_sound: "\<forall>p \<in> set (Split sep s). sep \<notin> set p"
  by (induction s) (auto split: list.splits)

lemma Index_append: "sep \<notin> set k \<Longrightarrow> Index sep (k @ sep # v) = Some (length k)"
  by (induction k) auto

lemma Index_None: "Index sep s = None \<longleftrightarrow> sep \<notin> set s"
  by (induction s) auto

lemma SplitN2_append: "sep \<notin> set k \<Longrightarrow> SplitN2 sep (k @ sep # v) = [k, v]"
  by (simp add: SplitN2_def Index_append)

lemma add_path_parts_paths:
  "GetOptionsAsString (add_path_parts m ps) OptionURIPath =
     GetOptionsAsString m OptionURIPath @ filter (\<lambda>p. p \<noteq> []) ps"
  by (induction m ps rule: add_path_parts.induct)
     (auto simp: GetOptionsAsString_def GetOptions_AddOption repeatable_codes_def StringValue_def)

lemma add_path_parts_other:
  "c \<noteq> OptionURIPath \<Longrightarrow> GetOptions (add_path_parts m ps) c = GetOptions m c"
  by (induction m ps rule: add_path_parts.induct) (auto simp: GetOptions_AddOption)

lemma SetURIPath_paths:
  "GetOptionsAsString (SetURIPath m p) OptionURIPath =
     GetOptionsAsString m OptionURIPath @ filter (\<lambda>p. p \<noteq> []) (Split slash p)"
  unfolding SetURIPath_def by (rule add_path_parts_paths)

text \<open>\<open>GetURIQuery\<close> skips the pairs of other keys.\<close>

lemma first_query_append:
  "\<forall>q \<in> set qs. hd (SplitN2 eqsign q) \<noteq> k \<or> length (SplitN2 eqsign q) \<noteq> 2 \<Longrightarrow>
   first_query k (qs @ rs) = first_query k rs"
  by (induction qs) (auto simp: SplitN2_def split: option.splits)

subsection \<open>Properties\<close>

text \<open>C19: A path set on a message without a path reads back in canonical form: the empty
  segments are dropped, and a path written as slash-separated non-empty segments reads
  back as it was.\<close>

theorem uri_path_roundtrip:
  assumes "GetOptions m OptionURIPath = []"
  shows "GetURIPath (SetURIPath m p) = slash # Join slash (filter (\<lambda>s. s \<noteq> []) (Split slash p)) \<and>
    (\<forall>ps. ps \<noteq> [] \<and> (\<forall>s \<in> set ps. s \<noteq> [] \<and> slash \<notin> set s) \<and> p = slash # Join slash ps \<longrightarrow>
      GetURIPath (SetURIPath m p) = p)"
proof -
  have "GetOptionsAsString m OptionURIPath = []"
    using assms by (simp add: GetOptionsAsString_def)
  then have "GetURIPath (SetURIPath m p) = slash # Join slash (filter (\<lambda>s. s \<noteq> []) (Split slash p))"
    unfolding GetURIPath_def SetURIPath_paths by simp
  then show ?thesis by (auto simp: Split_Join)
qed

theorem uri_path_roundtrip_witness:
  "GetURIPath (SetURIPath zero_msg (lit ''/sensor/data'')) = lit ''/sensor/data''"
proof -
  have "GetOptions zero_msg OptionURIPath = []" by (simp add: GetOptions_def zero_msg_def)
  moreover have "\<forall>s \<in> set [lit ''sensor'', lit ''data'']. s \<noteq> [] \<and> slash \<notin> set s"
    "lit ''/sensor/data'' = slash # Join slash [lit ''sensor'', lit ''data'']"
    by (simp_all add: lit_def)
  ultimately show ?thesis
    using uri_path_roundtrip [of zero_msg "lit ''/sensor/data''"] by blast
qed

text \<open>C20: A query pair set on a message reads back under its key, if no pair of that key was
  there before; the values read under other keys do not change.\<close>

theorem uri_query_roundtrip:
  assumes "eqsign \<notin> set k" "\<forall>q \<in> set (GetURIQueryArray m). hd (SplitN2 eqsign q) \<noteq> k"
  shows "GetURIQuery (SetURIQuery m k v) k = v \<and>
    (\<forall>k'. k' \<noteq> k \<longrightarrow> GetURIQuery (SetURIQuery m k v) k' = GetURIQuery m k')"
proof -
  have a: "GetURIQueryArray (SetURIQuery m k v) = GetURIQueryArray m @ [k @ eqsign # v]"
    by (simp add: GetURIQueryArray_def SetURIQuery_def GetOptions_AddOption repeatable_codes_def StringValue_def)
  have "GetURIQuery (SetURIQuery m k v) k = v"
    using assms by (simp add: GetURIQuery_def a first_query_append SplitN2_append)
  moreover have "first_query k' (qs @ [k @ eqsign # v]) = first_query k' qs" if "k' \<noteq> k" for k' qs
    using that assms(1) by (induction qs) (auto simp: SplitN2_append split: list.splits)
  ultimately show ?thesis by (simp add: GetURIQuery_def a)
qed

theorem uri_query_roundtrip_witness:
  "GetURIQuery (SetURIQuery (SetURIQuery zero_msg (lit ''a'') (lit ''1'')) (lit ''b'') (lit ''x=y'')) (lit ''b'')
     = lit ''x=y''"
proof -
  have "eqsign \<notin> set (lit ''b'')"
    "\<forall>q \<in> set (GetURIQueryArray (SetURIQuery zero_msg (lit ''a'') (lit ''1''))).
       hd (SplitN2 eqsign q) \<noteq> lit ''b''"
    by code_simp+
  then show ?thesis using uri_query_roundtrip by blast
qed

end
