(* ===== verification/Go_Url.thy ===== *)
theory Go_Url
  imports Coap_Uri
begin

text \<open>
  The parts of Go's \<open>net/url\<close> the repository calls: \<open>Parse\<close> (scheme, host, path and raw
  query of the result, and whether it fails) and \<open>ParseQuery\<close>. Errors are \<open>None\<close>.
\<close>

definition Cut :: "byte \<Rightarrow> bytes \<Rightarrow> bytes \<times> bytes" where
  "Cut sep s = (case Index sep s of None \<Rightarrow> (s, []) | Some i \<Rightarrow> (take i s, drop (Suc i) s))"

definition LastIndex :: "byte \<Rightarrow> bytes \<Rightarrow> nat option" where
  "LastIndex sep s = map_option (\<lambda>i. length s - Suc i) (Index sep (rev s))"

definition unhex :: "byte \<Rightarrow> byte option" where
  "unhex c =
    (if 48 \<le> c \<and> c \<le> 57 then Some (c - 48)
     else if 97 \<le> c \<and> c \<le> 102 then Some (c - 97 + 10)
     else if 65 \<le> c \<and> c \<le> 70 then Some (c - 65 + 10)
     else None)"

text \<open>The modes of \<open>unescape\<close>: path, query component, host, zone and userinfo.\<close>

datatype enc = EncPath | EncQuery | EncHost | EncZone | EncUser

text \<open>Bytes a host may hold unescaped; bytes from 128 on may too.\<close>

definition host_byte :: "byte \<Rightarrow> bool" where
  "host_byte c \<longleftrightarrow> unreserved c \<or> c \<ge> 128 \<or> c \<in> set (lit ''!$&'' @ [39] @ lit ''()*+,;=:[]<>'' @ [34])"

fun unescape :: "enc \<Rightarrow> bytes \<Rightarrow> bytes option" where
  "unescape mode [] = Some []"
| "unescape mode (c # cs) =
    (if c = 37 then
       (case cs of
          a # b # rest \<Rightarrow>
            (case (unhex a, unhex b) of
               (Some x, Some y) \<Rightarrow>
                 let v = push_bit 4 x OR y
                 in if mode = EncHost \<and> x < 8 \<and> \<not> (a = 50 \<and> b = 53) then None
                    else if mode = EncZone \<and> \<not> (a = 50 \<and> b = 53) \<and> v \<noteq> 32 \<and> \<not> host_byte v then None
                    else map_option ((#) v) (unescape mode rest)
             | _ \<Rightarrow> None)
        | _ \<Rightarrow> None)
     else if c = 43 then map_option ((#) (if mode = EncQuery then 32 else 43)) (unescape mode cs)
     else if (mode = EncHost \<or> mode = EncZone) \<and> \<not> host_byte c then None
     else map_option ((#) c) (unescape mode cs))"

definition is_letter :: "byte \<Rightarrow> bool" where
  "is_letter c \<longleftrightarrow> (97 \<le> c \<and> c \<le> 122) \<or> (65 \<le> c \<and> c \<le> 90)"

definition to_lower :: "byte \<Rightarrow> byte" where
  "to_lower c = (if 65 \<le> c \<and> c \<le> 90 then c + 32 else c)"

text \<open>\<open>getScheme\<close>: \<open>i\<close> counts the bytes seen; the result is the scheme and the rest.\<close>

fun getScheme :: "bytes \<Rightarrow> bytes \<Rightarrow> bytes \<Rightarrow> (bytes \<times> bytes) option" where
  "getScheme raw seen [] = Some ([], raw)"
| "getScheme raw seen (c # cs) =
    (if is_letter c then getScheme raw (seen @ [c]) cs
     else if (48 \<le> c \<and> c \<le> 57) \<or> c = 43 \<or> c = 45 \<or> c = 46 then
       (if seen = [] then Some ([], raw) else getScheme raw (seen @ [c]) cs)
     else if c = 58 then (if seen = [] then None else Some (seen, cs))
     else Some ([], raw))"

definition validOptionalPort :: "bytes \<Rightarrow> bool" where
  "validOptionalPort port \<longleftrightarrow> port = [] \<or> (hd port = 58 \<and> list_all (\<lambda>b. 48 \<le> b \<and> b \<le> 57) (tl port))"

text \<open>\<open>strings.Index(s, ''%25'')\<close>.\<close>

fun index_zone :: "bytes \<Rightarrow> nat option" where
  "index_zone (a # b # c # s) =
     (if [a, b, c] = [37, 50, 53] then Some 0 else map_option Suc (index_zone (b # c # s)))"
| "index_zone _ = None"

definition parseHost :: "bytes \<Rightarrow> bytes option" where
  "parseHost host =
    (if host \<noteq> [] \<and> hd host = 91 then
       (case LastIndex 93 host of
          None \<Rightarrow> None
        | Some i \<Rightarrow>
            if \<not> validOptionalPort (drop (Suc i) host) then None
            else (case index_zone (take i host) of
                None \<Rightarrow> unescape EncHost host
              | Some z \<Rightarrow> (case (unescape EncHost (take z host), unescape EncZone (drop z (take i host)),
                                unescape EncHost (drop i host)) of
                    (Some a, Some b, Some c) \<Rightarrow> Some (a @ b @ c) | _ \<Rightarrow> None)))
     else (case LastIndex 58 host of
         Some i \<Rightarrow> if validOptionalPort (drop i host) then unescape EncHost host else None
       | None \<Rightarrow> unescape EncHost host))"

definition userinfo_byte :: "byte \<Rightarrow> bool" where
  "userinfo_byte c \<longleftrightarrow> unreserved c \<or> c \<in> set (lit '':!$&'' @ [39] @ lit ''()*+,;=%@'')"

definition parseAuthority :: "bytes \<Rightarrow> bytes option" where
  "parseAuthority authority =
    (case LastIndex 64 authority of
       None \<Rightarrow> parseHost authority
     | Some i \<Rightarrow> (case parseHost (drop (Suc i) authority) of
         None \<Rightarrow> None
       | Some host \<Rightarrow>
           let userinfo = take i authority; (user, password) = Cut 58 userinfo
           in if \<not> list_all userinfo_byte userinfo then None
              else if unescape EncUser user = None \<or> unescape EncUser password = None then None
              else Some host))"

record url =
  Scheme :: bytes
  Host :: bytes
  Path :: bytes
  RawQuery :: bytes

definition has_ctl :: "bytes \<Rightarrow> bool" where
  "has_ctl s \<longleftrightarrow> list_ex (\<lambda>b. b < 32 \<or> b = 127) s"

definition url_parse :: "bytes \<Rightarrow> url option" where
  "url_parse rawURL =
    (if has_ctl rawURL then None
     else if rawURL = [42] then Some \<lparr>Scheme = [], Host = [], Path = [42], RawQuery = []\<rparr>
     else case getScheme rawURL [] rawURL of
       None \<Rightarrow> None
     | Some (sch, rest) \<Rightarrow>
         let sch = map to_lower sch; (rest, query) = Cut 63 rest
         in if \<not> (rest \<noteq> [] \<and> hd rest = slash) \<and> sch \<noteq> [] then
              Some \<lparr>Scheme = sch, Host = [], Path = [], RawQuery = query\<rparr>
            else if \<not> (rest \<noteq> [] \<and> hd rest = slash) \<and> 58 \<in> set (fst (Cut slash rest)) then None
            else if (sch \<noteq> [] \<or> take 3 rest \<noteq> [slash, slash, slash]) \<and> take 2 rest = [slash, slash] then
              let rest = drop 2 rest;
                  (authority, rest) = (case Index slash rest of None \<Rightarrow> (rest, []) | Some i \<Rightarrow> (take i rest, drop i rest))
              in (case (parseAuthority authority, unescape EncPath rest) of
                    (Some h, Some p) \<Rightarrow> Some \<lparr>Scheme = sch, Host = h, Path = p, RawQuery = query\<rparr>
                  | _ \<Rightarrow> None)
            else (case unescape EncPath rest of
                    Some p \<Rightarrow> Some \<lparr>Scheme = sch, Host = [], Path = p, RawQuery = query\<rparr>
                  | None \<Rightarrow> None))"

definition url_Parse :: "bytes \<Rightarrow> url option" where
  "url_Parse rawURL =
    (let (u, frag) = Cut 35 rawURL
     in case url_parse u of None \<Rightarrow> None
        | Some url \<Rightarrow> if unescape EncPath frag = None then None else Some url)"

text \<open>\<open>url.Values\<close> in the order of the first occurrence of each key. \<open>ParseQuery\<close> returns
  what it could parse and the first error; the callers drop the values on an error.\<close>

type_synonym url_values = "(bytes \<times> bytes list) list"

definition add_value :: "bytes \<Rightarrow> bytes \<Rightarrow> url_values \<Rightarrow> url_values" where
  "add_value k v m =
    (if k \<in> fst ` set m then map (\<lambda>(j, vs). (j, if j = k then vs @ [v] else vs)) m else m @ [(k, [v])])"

fun parse_pairs :: "bytes list \<Rightarrow> url_values \<Rightarrow> url_values option" where
  "parse_pairs [] m = Some m"
| "parse_pairs (p # ps) m =
    (if 59 \<in> set p then None
     else if p = [] then parse_pairs ps m
     else let (k, v) = Cut eqsign p
          in case (unescape EncQuery k, unescape EncQuery v) of
               (Some k, Some v) \<Rightarrow> parse_pairs ps (add_value k v m)
             | _ \<Rightarrow> None)"

definition url_ParseQuery :: "bytes \<Rightarrow> url_values option" where
  "url_ParseQuery query = (if query = [] then Some [] else parse_pairs (Split 38 query) [])"

subsection \<open>Facts\<close>

lemma Cut_append: "sep \<notin> set a \<Longrightarrow> Cut sep (a @ sep # b) = (a, b)"
  by (simp add: Cut_def Index_append)

lemma Cut_none: "sep \<notin> set a \<Longrightarrow> Cut sep a = (a, [])"
  by (simp add: Cut_def Index_None [THEN iffD2])

text \<open>\<open>QueryUnescape\<close> inverts \<open>QueryEscape\<close>.\<close>

lemma nibble_all:
  "list_all (\<lambda>d :: byte. unhex (upper_hex d) = Some d \<and> unreserved (upper_hex d))
     [0, 1, 2, 3, 4, 5, 6, 7, 8, 9, 10, 11, 12, 13, 14, 15]"
  by code_simp

lemma nibble_cases:
  assumes "(d :: byte) < 16"
  shows "d \<in> set [0, 1, 2, 3, 4, 5, 6, 7, 8, 9, 10, 11, 12, 13, 14, 15]"
proof -
  have "unat d < 16" using assms by (simp add: word_less_nat_alt)
  moreover have "[0..<16] = [0, 1, 2, 3, 4, 5, 6, 7, 8, 9, 10, 11, 12, 13, 14, 15 :: nat]" by code_simp
  ultimately have "unat d \<in> set [0, 1, 2, 3, 4, 5, 6, 7, 8, 9, 10, 11, 12, 13, 14, 15]"
    by (metis atLeastLessThan_iff le0 set_upt)
  then have "(word_of_nat (unat d) :: byte) \<in> word_of_nat ` set [0, 1, 2, 3, 4, 5, 6, 7, 8, 9, 10, 11, 12, 13, 14, 15]"
    by (rule imageI)
  then show ?thesis by simp
qed

lemma nibbles_less: "drop_bit 4 (b :: byte) < 16" "(b :: byte) AND 15 < 16"
proof -
  have "unat b < 256" using unsigned_less [of b] by simp
  then show "drop_bit 4 b < 16"
    unfolding word_less_nat_alt unat_drop_bit_eq by (simp add: drop_bit_eq_div less_mult_imp_div_less)
  have "b AND 15 \<le> 15" by (rule word_and_le1)
  then show "b AND 15 < 16" by (rule order_le_less_trans) simp
qed

lemma escape_byte_facts:
  "unreserved b \<Longrightarrow> b \<noteq> 37 \<and> b \<noteq> 43"
  "unhex (upper_hex (drop_bit 4 b)) = Some (drop_bit 4 b)"
  "unhex (upper_hex (b AND 15)) = Some (b AND 15)"
  "push_bit 4 (drop_bit 4 b) OR (b AND 15) = b"
  "list_all (\<lambda>c. unreserved c \<or> c = 43 \<or> c = 37) (escape_byte b)"
proof -
  have n: "unhex (upper_hex d) = Some d" "unreserved (upper_hex d)" if "d < 16" for d
    using nibble_all nibble_cases [OF that] unfolding list_all_iff by blast+
  show "unreserved b \<Longrightarrow> b \<noteq> 37 \<and> b \<noteq> 43" by (auto simp: unreserved_def)
  show "unhex (upper_hex (drop_bit 4 b)) = Some (drop_bit 4 b)"
    "unhex (upper_hex (b AND 15)) = Some (b AND 15)"
    using n nibbles_less by blast+
  have "b AND 15 = take_bit 4 b" by (simp add: take_bit_eq_mask mask_numeral)
  then show "push_bit 4 (drop_bit 4 b) OR (b AND 15) = b"
    by (simp add: bit_eq_iff bit_simps) auto
  show "list_all (\<lambda>c. unreserved c \<or> c = 43 \<or> c = 37) (escape_byte b)"
    using n nibbles_less by (simp add: escape_byte_def)
qed

lemma unescape_escape_byte:
  "unescape EncQuery (escape_byte b @ rest) = map_option ((#) b) (unescape EncQuery rest)"
  using escape_byte_facts(1) [of b]
  by (cases "unreserved b"; cases "b = 32")
     (auto simp: escape_byte_def escape_byte_facts Let_def)

lemma unescape_QueryEscape: "unescape EncQuery (QueryEscape s) = Some s"
proof (induction s)
  case (Cons b s)
  then show ?case by (simp add: QueryEscape_def unescape_escape_byte)
qed (simp add: QueryEscape_def)

lemma QueryEscape_safe: "c \<in> set (QueryEscape s) \<Longrightarrow> unreserved c \<or> c = 43 \<or> c = 37"
  using escape_byte_facts(5) by (auto simp: QueryEscape_def list_all_iff)

lemma unescape_path_plain: "37 \<notin> set s \<Longrightarrow> unescape EncPath s = Some s"
  by (induction s) auto

end
