(* ===== verification/Coap_Roundtrip.thy ===== *)
theory Coap_Roundtrip
  imports Coap_Wire
begin

text \<open>
  \<open>deserialize\<close> inverts \<open>Serialize\<close>: what a peer reads from the datagram of a message is
  the message with its options in code order, each value in its decoded form, and the
  options of unknown even numbers gone.
\<close>

subsection \<open>What survives the wire\<close>

definition decoded_value :: "option_code \<Rightarrow> bytes \<Rightarrow> optval option" where
  "decoded_value c b =
    (if c \<in> set int_option_codes
     then (case decodeInt b of Inr v \<Rightarrow> Some (VUint32 v) | Inl _ \<Rightarrow> None)
     else if c \<in> set string_option_codes then Some (VString b)
     else None)"

definition decoded_option :: "coap_option \<Rightarrow> coap_option option" where
  "decoded_option opt =
    map_option (NewOption (OCode opt)) (decoded_value (OCode opt) (valueToBytes (OValue opt)))"

definition decoded_options :: "coap_option list \<Rightarrow> coap_option list" where
  "decoded_options opts = List.map_filter decoded_option opts"

text \<open>
  \<open>wire_option\<close>: the option fits the format and its number is known or even. An integer
  option holds at most 4 bytes; a value is at most 65535 bytes long, since the reader adds
  269 to the extended length in 16 bits.
\<close>

definition wire_option :: "coap_option \<Rightarrow> bool" where
  "wire_option opt \<longleftrightarrow>
    0 \<le> OCode opt \<and> OCode opt < 65536 \<and> int (length (valueToBytes (OValue opt))) < 65536 \<and>
    (OCode opt \<in> set int_option_codes \<longrightarrow> length (valueToBytes (OValue opt)) \<le> 4) \<and>
    (OCode opt \<in> set int_option_codes \<or> OCode opt \<in> set string_option_codes \<or> even (OCode opt))"

definition wire_msg :: "coap_msg \<Rightarrow> bool" where
  "wire_msg m \<longleftrightarrow> MType m \<le> 3 \<and> length (Token m) \<le> 8 \<and> length (Options m) \<le> 12 \<and>
    list_all wire_option (Options m) \<and> opts_unique (Options m)"

text \<open>What \<open>deserialize\<close> returns for the datagram of \<open>m\<close>.\<close>

definition received_msg :: "coap_msg \<Rightarrow> coap_msg" where
  "received_msg m =
    zero_msg\<lparr>MType := MType m, MCode := MCode m, MessageID := MessageID m, Token := Token m,
      Options := decoded_options (sort_key OCode (Options (normalise_scheme m))),
      Payload := Some (BytesPayload (case Payload m of None \<Rightarrow> [] | Some p \<Rightarrow> Bytes p))\<rparr>"

subsection \<open>One option\<close>

lemma header_byte_all:
  "list_all (\<lambda>d. list_all (\<lambda>l.
     let b = word_of_int (push_bit 4 d OR l) :: byte
     in ucast (drop_bit 4 b) = (word_of_int d :: 16 word) \<and> ucast (b AND 0x0f) = (word_of_int l :: 16 word)
        \<and> b \<noteq> PayloadMarker) [0..14]) [0..14]"
  by code_simp

lemma header_byte:
  assumes "0 \<le> d" "d \<le> 14" "0 \<le> l" "l \<le> 14"
  shows "ucast (drop_bit 4 (word_of_int (push_bit 4 d OR l) :: byte)) = (word_of_int d :: 16 word)"
    "ucast ((word_of_int (push_bit 4 d OR l) :: byte) AND 0x0f) = (word_of_int l :: 16 word)"
    "(word_of_int (push_bit 4 d OR l) :: byte) \<noteq> PayloadMarker"
  using header_byte_all assms by (simp_all only: list_all_iff set_upto Let_def atLeastAtMost_iff) blast+

lemma header_value:
  assumes "0 \<le> v" "v \<le> 65804"
  shows "0 \<le> fst (getOptionHeaderValue v)" "fst (getOptionHeaderValue v) \<le> 14"
  using assms by (simp_all add: getOptionHeaderValue_def)

lemma small_nibble_all:
  "list_all (\<lambda>v. (word_of_int v :: 16 word) \<noteq> 13 \<and> (word_of_int v :: 16 word) \<noteq> 14 \<and>
     (word_of_int v :: 16 word) \<noteq> 15) [0..12]"
  by code_simp

lemma read_ext_bytes:
  assumes "0 \<le> v" "v \<le> 65804"
  shows "read_ext (word_of_int (fst (getOptionHeaderValue v)))
      (ext_bytes (fst (getOptionHeaderValue v)) v @ rest) = ExtOK (word_of_int v) rest"
proof -
  consider "v \<le> 12" | "12 < v" "v \<le> 268" | "268 < v" by linarith
  then show ?thesis
  proof cases
    case 1
    with assms have "(word_of_int v :: 16 word) \<noteq> 13" "(word_of_int v :: 16 word) \<noteq> 14"
      "(word_of_int v :: 16 word) \<noteq> 15"
      using small_nibble_all by (simp_all only: list_all_iff set_upto atLeastAtMost_iff) blast+
    with 1 show ?thesis
      by (simp add: read_ext_def ext_bytes_def getOptionHeaderValue_def)
  next
    case 2
    have "(ucast (word_of_int w :: byte) :: 16 word) = word_of_int w" if "0 \<le> w" "w < 256" for w
      by (rule word_uint_eqI)
        (use that in \<open>simp add: uint_up_ucast is_up uint_word_of_int_eq take_bit_int_eq_self\<close>)
    from this [of "v - 13"] have "(ucast (word_of_int (v - 13) :: byte) :: 16 word) = word_of_int (v - 13)"
      using 2 by simp
    with 2 show ?thesis
      by (simp add: read_ext_def ext_bytes_def getOptionHeaderValue_def)
  next
    case 3
    with assms show ?thesis
      by (simp add: read_ext_def ext_bytes_def getOptionHeaderValue_def put_be16_def)
  qed
qed

lemma word_of_int_add_diff: "word_of_int prev + word_of_int (c - prev) = (word_of_int c :: 16 word)"
  by (simp flip: of_int_add)

lemma unat_word_of_int16: "0 \<le> v \<Longrightarrow> v < 65536 \<Longrightarrow> unat (word_of_int v :: 16 word) = nat v"
  by (simp add: unat_eq_nat_uint uint_word_of_int_eq take_bit_int_eq_self)

lemma uint_word_of_int16: "0 \<le> v \<Longrightarrow> v < 65536 \<Longrightarrow> uint (word_of_int v :: 16 word) = v"
  by (simp add: uint_word_of_int_eq take_bit_int_eq_self)

lemma word_and_1: "(word_of_int v :: 16 word) AND 1 = 1 \<longleftrightarrow> odd v"
proof -
  have "odd (word_of_int v :: 16 word) \<longleftrightarrow> odd v"
    by (simp only: bit_0 [symmetric] bit_word_of_int_iff) simp
  then show ?thesis by (simp add: and_one_eq mod_2_eq_odd)
qed

lemma read_value_option:
  assumes "wire_option opt"
  shows "read_value (word_of_int (OCode opt)) (valueToBytes (OValue opt)) rest =
    OptNext (decoded_option opt) (word_of_int (OCode opt)) rest"
proof -
  have u: "uint (word_of_int (OCode opt) :: 16 word) = OCode opt"
    using assms by (simp add: wire_option_def uint_word_of_int16)
  have "decodeInt (valueToBytes (OValue opt)) \<noteq> Inl e" if "OCode opt \<in> set int_option_codes" for e
    using assms that by (auto simp: wire_option_def decodeInt_def Let_def)
  then show ?thesis
    using assms unfolding read_value_def Let_def u decoded_option_def decoded_value_def word_and_1
    by (auto simp: wire_option_def split: sum.splits)
qed

lemma write_option_Cons:
  "\<exists>hd tl. write_option prev opt = hd # tl \<and> hd = word_of_int
     (push_bit 4 (fst (getOptionHeaderValue (go_int (OCode opt - prev)))) OR
      fst (getOptionHeaderValue (int (length (valueToBytes (OValue opt))))))"
  by (simp add: write_option_def Let_def)

lemma read_write_option:
  assumes "wire_option opt" "0 \<le> prev" "prev \<le> OCode opt"
  obtains b tmp where "write_option prev opt = b # tmp" "b \<noteq> PayloadMarker"
    "\<And>rest. read_option (word_of_int prev) b (tmp @ rest) =
       OptNext (decoded_option opt) (word_of_int (OCode opt)) rest"
proof -
  let ?v = "valueToBytes (OValue opt)" and ?d = "OCode opt - prev"
  let ?l = "int (length ?v)"
  have d: "0 \<le> ?d" "?d \<le> 65804" "go_int ?d = ?d"
    using assms by (auto simp: wire_option_def intro!: go_int_id)
  have l: "0 \<le> ?l" "?l \<le> 65804" and l16: "unat (word_of_int ?l :: 16 word) = length ?v"
    using assms(1) by (auto simp: wire_option_def unat_word_of_int16 simp del: of_int_of_nat_eq)
  let ?hd = "fst (getOptionHeaderValue ?d)" and ?hl = "fst (getOptionHeaderValue ?l)"
  let ?b = "word_of_int (push_bit 4 ?hd OR ?hl) :: byte"
  note hb = header_byte [OF header_value [OF d(1,2)] header_value [OF l]]
  have w: "write_option prev opt = ?b # ext_bytes ?hd ?d @ ext_bytes ?hl ?l @ ?v"
    by (simp add: write_option_def Let_def d(3))
  have "read_option (word_of_int prev) ?b ((ext_bytes ?hd ?d @ ext_bytes ?hl ?l @ ?v) @ rest) =
      OptNext (decoded_option opt) (word_of_int (OCode opt)) rest" for rest
    unfolding read_option_def hb(1,2) append_assoc read_ext_bytes [OF d(1,2)]
    by (simp add: Let_def word_of_int_add_diff read_ext_bytes [OF l] l16
        read_value_option [OF assms(1)] del: of_int_of_nat_eq)
  with w hb(3) show thesis by (rule that)
qed

subsection \<open>The option loop\<close>

lemma read_write_options:
  assumes "list_all wire_option opts" "sorted (map OCode opts)" "0 \<le> prev"
    "\<forall>opt \<in> set opts. prev \<le> OCode opt"
  shows "read_options (word_of_int prev) acc (write_options prev opts @ rest) =
    read_options (word_of_int (if opts = [] then prev else OCode (List.last opts)))
      (acc @ decoded_options opts) rest"
  using assms
proof (induction opts arbitrary: prev acc)
  case Nil
  then show ?case by (simp add: decoded_options_def map_filter_simps)
next
  case (Cons opt opts)
  from Cons.prems have wire: "wire_option opt" "0 \<le> prev" "prev \<le> OCode opt" by auto
  obtain b tmp where w: "write_option prev opt = b # tmp" "b \<noteq> PayloadMarker"
    "\<And>rest. read_option (word_of_int prev) b (tmp @ rest) =
       OptNext (decoded_option opt) (word_of_int (OCode opt)) rest"
    using read_write_option [OF wire] by blast
  have "0 \<le> OCode opt" using wire by simp
  then show ?case
    using w Cons.IH [of "OCode opt"] Cons.prems
    by (cases "decoded_option opt") (auto simp: decoded_options_def map_filter_simps)
qed

lemma read_options_payload:
  "read_options c acc (write_payload p) =
    LoopDone acc (case p of None \<Rightarrow> [] | Some p \<Rightarrow> Bytes p)"
  by (auto simp: write_payload_def split: option.split)

subsection \<open>The header\<close>

lemma header_all:
  "list_all (\<lambda>t. list_all (\<lambda>n.
     let b = (push_bit 6 1 OR push_bit 4 t OR (0x0f AND of_nat n)) :: byte
     in drop_bit 6 b = 1 \<and> drop_bit 4 b AND 0x03 = t \<and> unat (b AND 0x0f) = n)
     [0,1,2,3,4,5,6,7,8]) [0,1,2,3]"
  by code_simp

lemma type_le_3: "(t :: byte) \<le> 3 \<Longrightarrow> t \<in> set [0,1,2,3]"
proof -
  assume "t \<le> 3"
  then have "unat t \<le> 3" by (simp add: word_le_nat_alt)
  then have "unat t = 0 \<or> unat t = 1 \<or> unat t = 2 \<or> unat t = 3" by linarith
  then have "(of_nat (unat t) :: byte) \<in> set [0,1,2,3]" by (elim disjE) simp_all
  then show ?thesis by simp
qed

lemma header_bits:
  assumes "t \<le> 3" "n \<le> 8"
  shows "drop_bit 6 ((push_bit 6 1 OR push_bit 4 t OR (0x0f AND of_nat n)) :: byte) = 1"
    "drop_bit 4 ((push_bit 6 1 OR push_bit 4 t OR (0x0f AND of_nat n)) :: byte) AND 0x03 = t"
    "unat (((push_bit 6 1 OR push_bit 4 t OR (0x0f AND of_nat n)) :: byte) AND 0x0f) = n"
proof -
  have "n \<in> set [0,1,2,3,4,5,6,7,8]" using assms(2) by (auto simp: le_Suc_eq numeral_eq_Suc)
  with type_le_3 [OF assms(1)] header_all
  show "drop_bit 6 ((push_bit 6 1 OR push_bit 4 t OR (0x0f AND of_nat n)) :: byte) = 1"
    "drop_bit 4 ((push_bit 6 1 OR push_bit 4 t OR (0x0f AND of_nat n)) :: byte) AND 0x03 = t"
    "unat (((push_bit 6 1 OR push_bit 4 t OR (0x0f AND of_nat n)) :: byte) AND 0x0f) = n"
    unfolding list_all_iff Let_def by blast+
qed

lemma deserialize_body_header:
  assumes "MType m \<le> 3" "length (Token m) \<le> 8"
  shows "deserialize_body (write_header m @ Token m @ rest) =
    (let r = zero_msg\<lparr>MType := MType m, MCode := MCode m, MessageID := MessageID m, Token := Token m\<rparr>
     in case read_options 0 [] rest of
          LoopPanic \<Rightarrow> Panic
        | LoopReturn None e \<Rightarrow> Ret (None, Some e)
        | LoopReturn (Some opts) e \<Rightarrow> Ret (Some (r\<lparr>Options := opts\<rparr>), Some e)
        | LoopDone opts tmp \<Rightarrow>
            let r = r\<lparr>Options := opts, Payload := Some (BytesPayload tmp)\<rparr>
            in Ret (Some r, validateMessage r))"
proof -
  let ?b = "(push_bit 6 1 OR push_bit 4 (MType m) OR (0x0f AND of_nat (length (Token m)))) :: byte"
  have w: "write_header m @ Token m @ rest =
      ?b # MCode m # ucast (drop_bit 8 (MessageID m)) # ucast (MessageID m) # Token m @ rest"
    by (simp add: write_header_def put_be16_def)
  have d: "drop (4 + k) (a # b # c # d # xs) = drop k xs" for k a b c d and xs :: bytes
    by (simp add: numeral_eq_Suc)
  have n: "xs ! 2 = hd (tl (tl xs))" "xs ! 3 = hd (tl (tl (tl xs)))" if "length xs > 3" for xs :: bytes
    using that by (cases xs; cases "tl xs"; cases "tl (tl xs)"; cases "tl (tl (tl xs))"; simp add: numeral_eq_Suc)+
  show ?thesis
    unfolding w deserialize_body_def
    using header_bits [OF assms] by (simp add: Let_def n d)
qed

subsection \<open>The whole message\<close>

lemma length_decoded_with: "length (opts_with c (decoded_options opts)) \<le> length (opts_with c opts)"
  by (induction opts) (auto simp: decoded_options_def map_filter_simps decoded_option_def split: option.splits)

lemma opts_unique_decoded: "opts_unique opts \<Longrightarrow> opts_unique (decoded_options opts)"
  unfolding opts_unique_iff using length_decoded_with order_trans by blast

lemma opts_unique_sort: "opts_unique (sort_key OCode opts) \<longleftrightarrow> opts_unique opts"
  by (simp add: opts_unique_iff sort_key_stable)

lemma scheme_option_wire: "wire_option (NewOption OptionURIScheme (VInt COAP_SCHEME))"
  by (simp add: wire_option_def valueToBytes_def encodeInt_def int_option_codes_def)

lemma normalise_scheme_fields [simp]:
  "MType (normalise_scheme m) = MType m" "MCode (normalise_scheme m) = MCode m"
  "MessageID (normalise_scheme m) = MessageID m" "Token (normalise_scheme m) = Token m"
  "Payload (normalise_scheme m) = Payload m"
  by (simp_all add: normalise_scheme_def AddOption_opts split: option.split)

lemma wire_msg_normalise:
  assumes "wire_msg m"
  shows "wire_msg (normalise_scheme m)"
proof (cases "GetOption m OptionURIScheme")
  case None
  with assms show ?thesis by (simp add: normalise_scheme_def)
next
  case (Some opt)
  then have mem: "opt \<in> set (Options m)" "OCode opt = OptionURIScheme"
    by (auto simp: GetOption_def find_Some_iff)
  have "length (opts_without OptionURIScheme (Options m)) < length (Options m)"
    using mem by (intro length_filter_less) auto
  then have "wire_msg (AddOption m OptionURIScheme (VInt COAP_SCHEME))"
    using assms scheme_option_wire unfolding wire_msg_def AddOption_opts
    by (auto simp: opts_add_def Let_def IsRepeatableOption_def repeatable_codes_def list_all_iff
        opts_unique_iff)
  with assms Some show ?thesis by (simp add: normalise_scheme_def)
qed

lemma deserialize_Serialize:
  assumes "wire_msg m"
  shows "deserialize (fst (Serialize pdq m)) = (Some (received_msg m), None)"
proof -
  let ?m = "normalise_scheme m" and ?opts = "sort_key OCode (Options (normalise_scheme m))"
  have wm: "wire_msg ?m" using assms by (rule wire_msg_normalise)
  then have wire: "list_all wire_option ?opts" "\<forall>opt \<in> set ?opts. 0 \<le> OCode opt"
    by (auto simp: wire_msg_def list_all_iff wire_option_def)
  have loop: "read_options 0 [] (write_options 0 ?opts @ write_payload (Payload m)) =
      LoopDone (decoded_options ?opts) (case Payload m of None \<Rightarrow> [] | Some p \<Rightarrow> Bytes p)"
    using read_write_options [OF wire(1) sorted_sort_key _ wire(2), of "[]" "write_payload (Payload m)"]
    by (simp add: read_options_payload)
  have "opts_unique (decoded_options ?opts)"
    using wm by (simp add: wire_msg_def opts_unique_decoded opts_unique_sort)
  then have "\<not> list_ex (bad_repeat (received_msg m)) (Options (received_msg m))"
    by (intro opts_unique_no_bad_repeat) (simp add: received_msg_def)
  moreover have "MType (received_msg m) \<le> 3"
    using assms by (simp add: received_msg_def wire_msg_def)
  moreover have "unat (of_nat (length (Token m)) :: byte) = length (Token m)"
    using assms by (simp add: wire_msg_def unat_of_nat)
  then have "GetTokenLength (received_msg m) \<le> 8"
    using assms by (simp add: received_msg_def wire_msg_def GetTokenLength_def word_le_nat_alt)
  ultimately have valid: "validateMessage (received_msg m) = None"
    by (simp add: validateMessage_def not_less)
  let ?m2 = "?m\<lparr>Options := ?opts\<rparr>"
  have "fst (Serialize pdq m) = write_header ?m2 @ Token ?m2 @ (write_options 0 ?opts @ write_payload (Payload m))"
    using wm by (simp add: Serialize_def Let_def sortOptions_small wire_msg_def)
  moreover have "deserialize_body \<dots> = Ret (Some (received_msg m), None)"
    using assms valid
    by (subst deserialize_body_header) (simp_all add: wire_msg_def loop received_msg_def Let_def)
  ultimately show ?thesis by (simp add: deserialize_def)
qed

end
