(* ===== verification/Coap_Metrics.thy ===== *)
theory Coap_Metrics
  imports Coala_Prelude
begin

text \<open>
  \<open>metrics.go\<close>: the process-wide counters. Each is an \<open>int64\<close> updated atomically, so the
  counters together are a map from their names to values, and every update is one step.
\<close>

datatype counter =
    MetricReceivedMessages
  | MetricBreakedMessages
  | MetricSentMessages
  | MetricRetransmitMessages
  | MetricExpiredMessages
  | MetricSentMessageErrors
  | MetricSessionsRate
  | MetricSessionsCount
  | MetricSuccessfulHandhshakes
  | MetricProxySessions
  | MetricProxySessionsRate
  | MetricMaxMTU

type_synonym metrics = "counter \<Rightarrow> int"

definition zero_metrics :: metrics where
  "zero_metrics = (\<lambda>_. 0)"

definition Inc :: "counter \<Rightarrow> metrics \<Rightarrow> metrics" where
  "Inc c m = m(c := go_int (m c + 1))"

definition Dec :: "counter \<Rightarrow> metrics \<Rightarrow> metrics" where
  "Dec c m = m(c := go_int (m c - 1))"

definition Set_counter :: "counter \<Rightarrow> int \<Rightarrow> metrics \<Rightarrow> metrics" where
  "Set_counter c d m = m(c := d)"

definition Val :: "counter \<Rightarrow> metrics \<Rightarrow> int" where
  "Val c m = m c"

lemmas metric_defs = Inc_def Dec_def Set_counter_def Val_def

lemma Val_Inc: "Val d (Inc c m) = (if d = c then go_int (Val c m + 1) else Val d m)"
  by (simp add: metric_defs)

lemma Val_Inc_other [simp]: "d \<noteq> c \<Longrightarrow> Inc c m d = m d"
  by (simp add: metric_defs)

lemma Val_Dec_Inc: "go_int (Val c m) = Val c m \<Longrightarrow> Val c (Dec c (Inc c m)) = Val c m"
  using go_int_add_left [of "Val c m + 1" "-1"] by (simp add: metric_defs)

end
