(* ===== verification/Coap_Checksum.thy ===== *)
theory Coap_Checksum
  imports Coap_Roundtrip Coap_Metrics
begin

text \<open>
  The optional integrity check of \<open>message.go\<close>: \<open>OptionChecksum\<close> carries the CRC-32 of
  the serialised message without that option, in hexadecimal. The theory models
  \<open>crc32.ChecksumIEEE\<close>, the checksum functions and \<open>Deserialize\<close>, and proves that a
  receiver accepts what a sender checksums and rejects it with one payload byte changed.
\<close>

subsection \<open>CRC-32\<close>

text \<open>The bitwise form of the table-driven update of \<open>hash/crc32\<close>, reflected polynomial.\<close>

definition crc_bit :: "32 word \<Rightarrow> 32 word" where
  "crc_bit c = (if c AND 1 = 1 then drop_bit 1 c XOR 0xEDB88320 else drop_bit 1 c)"

definition crc_byte :: "byte \<Rightarrow> 32 word \<Rightarrow> 32 word" where
  "crc_byte b c = (crc_bit ^^ 8) (c XOR ucast b)"

definition ChecksumIEEE :: "bytes \<Rightarrow> 32 word" where
  "ChecksumIEEE data = NOT (fold crc_byte data (NOT 0))"

lemma xor_right_cancel: "x XOR z = y XOR z \<Longrightarrow> x = (y :: 32 word)"
  by (metis xor.assoc xor.right_neutral xor_self_eq)

lemma crc_bit_odd: "crc_bit c = (if odd c then drop_bit 1 c XOR 0xEDB88320 else drop_bit 1 c)"
  by (simp add: crc_bit_def and_one_eq mod_2_eq_odd)

lemma crc_bit_inj: "crc_bit c = crc_bit d \<Longrightarrow> c = d"
proof -
  assume eq: "crc_bit c = crc_bit d"
  have top: "bit (crc_bit x) 31 \<longleftrightarrow> odd x" for x
    by (auto simp: crc_bit_odd bit_simps dest: bit_imp_le_length)
  from eq have par: "odd c \<longleftrightarrow> odd d" using top by metis
  with eq have shift: "drop_bit 1 c = drop_bit 1 d"
    by (auto simp: crc_bit_odd split: if_splits dest: xor_right_cancel)
  show "c = d"
  proof (rule bit_word_eqI)
    fix n
    show "bit c n \<longleftrightarrow> bit d n"
      using par arg_cong [OF shift, of "\<lambda>w. bit w (n - 1)"]
      by (cases n) (simp_all add: bit_0 bit_simps)
  qed
qed

lemma crc_bits_inj: "(crc_bit ^^ n) c = (crc_bit ^^ n) d \<Longrightarrow> c = d"
  by (induction n) (auto dest: crc_bit_inj)

lemma crc_byte_inj: "crc_byte b c = crc_byte b d \<Longrightarrow> c = d"
  unfolding crc_byte_def by (drule crc_bits_inj) (rule xor_right_cancel)

lemma crc_byte_inj_byte: "crc_byte a c = crc_byte b c \<Longrightarrow> a = b"
proof -
  assume "crc_byte a c = crc_byte b c"
  then have "ucast a XOR c = ucast b XOR (c :: 32 word)"
    unfolding crc_byte_def by (auto dest: crc_bits_inj simp: xor.commute)
  then have "(ucast a :: 32 word) = ucast b" by (rule xor_right_cancel)
  then have "uint (ucast a :: 32 word) = uint (ucast b :: 32 word)" by simp
  then show "a = b" by (simp add: uint_up_ucast is_up word_uint_eq_iff)
qed

lemma fold_crc_inj: "fold crc_byte bs c = fold crc_byte bs d \<Longrightarrow> c = d"
  by (induction bs arbitrary: c d) (auto dest: crc_byte_inj)

text \<open>Two inputs that differ in exactly one byte have different checksums.\<close>

lemma ChecksumIEEE_one_byte:
  "a \<noteq> b \<Longrightarrow> ChecksumIEEE (xs @ a # ys) \<noteq> ChecksumIEEE (xs @ b # ys)"
  by (auto simp: ChecksumIEEE_def dest!: fold_crc_inj crc_byte_inj_byte)

subsection \<open>The hexadecimal rendering\<close>

text \<open>\<open>fmt.Sprintf("%08x", crc)\<close>.\<close>

definition hex_digit :: "32 word \<Rightarrow> byte" where
  "hex_digit d = (if d < 10 then 48 + ucast d else 87 + ucast d)"

definition sprintf_08x :: "32 word \<Rightarrow> bytes" where
  "sprintf_08x w = map (\<lambda>i. hex_digit (drop_bit (4 * i) w AND 0xf)) [7,6,5,4,3,2,1,0]"

lemma hex_digit_all:
  "list_all (\<lambda>d. list_all (\<lambda>e. hex_digit (of_nat d) = hex_digit (of_nat e) \<longrightarrow> d = e) [0..<16]) [0..<16]"
  by code_simp

lemma hex_digit_inj:
  assumes "hex_digit (x AND 0xf) = hex_digit (y AND 0xf)"
  shows "x AND 0xf = y AND 0xf"
proof -
  have range: "unat (z AND 0xf) \<in> set [0..<16]" for z :: "32 word"
    using word_and_le1 [of z "0xf"] by (simp add: word_le_nat_alt and.commute)
  have "hex_digit (of_nat (unat (x AND 0xf))) = hex_digit (of_nat (unat (y AND 0xf)))"
    using assms by simp
  then have "unat (x AND 0xf) = unat (y AND 0xf)"
    using hex_digit_all range [of x] range [of y] unfolding list_all_iff by blast
  then show ?thesis by (metis word_unat_eq_iff)
qed

lemma sprintf_08x_inj: "sprintf_08x x = sprintf_08x y \<Longrightarrow> x = y"
proof (rule bit_word_eqI)
  fix n assume eq: "sprintf_08x x = sprintf_08x y" and "n < LENGTH(32)"
  then have n: "n div 4 \<in> set [7,6,5,4,3,2,1,0]" by auto
  with eq have "drop_bit (4 * (n div 4)) x AND 0xf = drop_bit (4 * (n div 4)) y AND 0xf"
    unfolding sprintf_08x_def map_eq_conv by (blast intro: hex_digit_inj)
  then have "bit (drop_bit (4 * (n div 4)) x AND 0xf) (n mod 4) =
      bit (drop_bit (4 * (n div 4)) y AND 0xf) (n mod 4)" by simp
  moreover have "n mod 4 = 0 \<or> n mod 4 = 1 \<or> n mod 4 = 2 \<or> n mod 4 = 3" by presburger
  then have "bit (0xf :: 32 word) (n mod 4)" by (elim disjE) simp_all
  ultimately show "bit x n = bit y n"
    by (simp only: bit_and_iff bit_drop_bit_eq o_apply mult_div_mod_eq simp_thms)
qed

subsection \<open>The checksum option\<close>

definition cloneForChecksum :: "coap_msg \<Rightarrow> coap_msg" where
  "cloneForChecksum m =
    zero_msg\<lparr>MessageID := MessageID m, MType := MType m, MCode := MCode m, Token := Token m,
      Payload := (case Payload m of Some p \<Rightarrow> Some (BytesPayload (Bytes p)) | None \<Rightarrow> Some EmptyPayload),
      Options := opts_without OptionChecksum (Options m)\<rparr>"

definition calculateChecksum :: "sorter \<Rightarrow> coap_msg \<Rightarrow> bytes" where
  "calculateChecksum pdq m = sprintf_08x (ChecksumIEEE (fst (Serialize pdq (cloneForChecksum m))))"

definition applyChecksum :: "sorter \<Rightarrow> coap_msg \<Rightarrow> coap_msg" where
  "applyChecksum pdq m =
    (let m1 = RemoveOptions m OptionChecksum
     in AddOption m1 OptionChecksum (VString (calculateChecksum pdq m1)))"

definition verifyChecksum :: "sorter \<Rightarrow> coap_msg \<Rightarrow> err option" where
  "verifyChecksum pdq m = (case GetOption m OptionChecksum of
      None \<Rightarrow> None
    | Some opt \<Rightarrow>
        if StringValue opt \<noteq> calculateChecksum pdq m then Some ErrChecksumMismatch else None)"

definition Deserialize :: "sorter \<Rightarrow> bytes \<Rightarrow> metrics \<Rightarrow> msg_result \<times> metrics" where
  "Deserialize pdq data met =
    (let (m, e) = deserialize data
     in case (m, e) of
          (None, None) \<Rightarrow> ((None, Some ErrNilMessage), met)
        | (_, Some err) \<Rightarrow> ((m, Some err), Inc MetricBreakedMessages met)
        | (Some msg, None) \<Rightarrow>
            (case verifyChecksum pdq msg of
               Some _ \<Rightarrow> ((None, Some ErrChecksumMismatch), Inc MetricBreakedMessages met)
             | None \<Rightarrow> ((Some msg, None), met)))"

text \<open>\<open>applyChecksum\<close> is idempotent and always leaves a checksum that verifies.\<close>

lemma cloneForChecksum_add [simp]:
  "cloneForChecksum (AddOption m OptionChecksum v) = cloneForChecksum m"
  "cloneForChecksum (RemoveOptions m OptionChecksum) = cloneForChecksum m"
  by (auto simp: cloneForChecksum_def AddOption_opts opts_add_def Let_def RemoveOptions_def)

subsection \<open>Both sides compute the same checksum\<close>

text \<open>
  \<open>stable_option\<close>: the receiver decodes the value the sender has, so that it encodes it
  to the same bytes again. Integer options set from \<open>int\<close>, \<open>uint32\<close> or a byte have it,
  and so have string options set from strings.
\<close>

definition stable_option :: "coap_option \<Rightarrow> bool" where
  "stable_option opt = (case decoded_option opt of
      None \<Rightarrow> False
    | Some opt' \<Rightarrow> valueToBytes (OValue opt') = valueToBytes (OValue opt) \<and>
        (OCode opt \<in> set int_option_codes \<longrightarrow> IntValue opt' = IntValue opt))"

definition wire_view :: "coap_option list \<Rightarrow> (option_code \<times> bytes) list" where
  "wire_view opts = map (\<lambda>opt. (OCode opt, valueToBytes (OValue opt))) opts"

lemma write_options_view: "wire_view xs = wire_view ys \<Longrightarrow> write_options prev xs = write_options prev ys"
proof (induction xs arbitrary: ys prev)
  case Nil
  then show ?case by (simp add: wire_view_def)
next
  case (Cons x xs)
  then obtain y ys' where ys: "ys = y # ys'" by (cases ys) (auto simp: wire_view_def)
  with Cons have "write_option prev x = write_option prev y" "OCode x = OCode y"
    "wire_view xs = wire_view ys'"
    by (auto simp: wire_view_def write_option_def)
  with ys Cons.IH [of ys'] show ?case by simp
qed

lemma filter_wire_view: "filter (\<lambda>p. fst p = c) (wire_view opts) = wire_view (opts_with c opts)"
  by (simp add: wire_view_def filter_map o_def)

lemma sorted_filters_eq:
  fixes A B :: "('k::linorder \<times> 'b) list"
  assumes "sorted (map fst A)" "sorted (map fst B)"
    and "\<And>k. filter (\<lambda>p. fst p = k) A = filter (\<lambda>p. fst p = k) B"
  shows "A = B"
proof -
  have "count (mset A) p = count (mset B) p" for p
  proof -
    have "count (mset xs) p = count (mset (filter (\<lambda>q. fst q = fst p) xs)) p" for xs :: "('k \<times> 'b) list"
      by simp
    then show ?thesis using assms(3) by metis
  qed
  then have "mset B = mset A" by (intro multiset_eqI) simp
  then have "sort_key fst A = B"
    using assms(2,3) by (intro properties_for_sort_key) (simp_all add: eq_commute)
  moreover have "sort_key fst A = A"
    using assms(1) by (intro properties_for_sort_key) simp_all
  ultimately show ?thesis by simp
qed

lemma wire_view_sort_eqI:
  assumes "\<And>c. wire_view (opts_with c xs) = wire_view (opts_with c ys)"
  shows "wire_view (sort_key OCode xs) = wire_view (sort_key OCode ys)"
proof (rule sorted_filters_eq)
  have "map fst (wire_view opts) = map OCode opts" for opts
    by (simp add: wire_view_def)
  then show "sorted (map fst (wire_view (sort_key OCode xs)))" "sorted (map fst (wire_view (sort_key OCode ys)))"
    by simp_all
  show "filter (\<lambda>p. fst p = c) (wire_view (sort_key OCode xs)) =
      filter (\<lambda>p. fst p = c) (wire_view (sort_key OCode ys))" for c
    using assms by (simp add: filter_wire_view sort_key_stable)
qed

lemma decoded_option_code: "decoded_option opt = Some opt' \<Longrightarrow> OCode opt' = OCode opt"
  by (auto simp: decoded_option_def)

lemma opts_with_decoded: "opts_with c (decoded_options opts) = decoded_options (opts_with c opts)"
  by (induction opts)
     (auto simp: decoded_options_def map_filter_simps dest: decoded_option_code split: option.splits)

lemma wire_view_decoded: "list_all stable_option opts \<Longrightarrow> wire_view (decoded_options opts) = wire_view opts"
  by (induction opts)
     (auto simp: decoded_options_def map_filter_simps wire_view_def stable_option_def
      dest: decoded_option_code split: option.splits)

definition needs_scheme :: "coap_msg \<Rightarrow> bool" where
  "needs_scheme m = (case GetOption m OptionURIScheme of
      Some opt \<Rightarrow> OValue opt = VNil \<or> IntValue opt \<noteq> COAPS_SCHEME | None \<Rightarrow> False)"

lemma normalise_scheme_needs:
  "normalise_scheme m = (if needs_scheme m then AddOption m OptionURIScheme (VInt COAP_SCHEME) else m)"
  by (simp add: normalise_scheme_def needs_scheme_def split: option.split)

lemma GetOptions_normalise:
  "GetOptions (normalise_scheme m) c =
    (if c = OptionURIScheme \<and> needs_scheme m then [NewOption OptionURIScheme (VInt COAP_SCHEME)]
     else GetOptions m c)"
  by (simp add: normalise_scheme_needs GetOptions_AddOption repeatable_codes_def)

lemma GetOptions_clone:
  "GetOptions (cloneForChecksum m) c = (if c = OptionChecksum then [] else GetOptions m c)"
  by (simp add: GetOptions_def cloneForChecksum_def)

lemma GetOptions_received:
  "GetOptions (received_msg m) c = decoded_options (GetOptions (normalise_scheme m) c)"
  by (simp add: GetOptions_def received_msg_def opts_with_decoded sort_key_stable)

lemma needs_scheme_clone: "needs_scheme (cloneForChecksum m) = needs_scheme m"
  by (simp add: needs_scheme_def GetOption_GetOptions GetOptions_clone)

lemma stable_scheme_0: "decoded_option (NewOption OptionURIScheme (VInt COAP_SCHEME)) =
    Some (NewOption OptionURIScheme (VUint32 0))"
  by (simp add: decoded_option_def decoded_value_def int_option_codes_def valueToBytes_def)

lemma needs_scheme_received:
  assumes "list_all stable_option (Options m)"
  shows "needs_scheme (received_msg m) \<longleftrightarrow> needs_scheme m"
proof (cases "needs_scheme m")
  case True
  then show ?thesis
    by (simp add: needs_scheme_def [of "received_msg m"] GetOption_GetOptions GetOptions_received
        GetOptions_normalise decoded_options_def map_filter_simps
        stable_scheme_0 [unfolded option_defs scheme_defs] IntValue_def)
next
  case False
  show ?thesis
  proof (cases "GetOptions m OptionURIScheme")
    case Nil
    with False show ?thesis
      by (simp add: needs_scheme_def [of "received_msg m"] GetOption_GetOptions GetOptions_received
          GetOptions_normalise decoded_options_def map_filter_simps)
  next
    case (Cons opt rest)
    then have "opt \<in> set (GetOptions m OptionURIScheme)" by simp
    then have mem: "opt \<in> set (Options m)" "OCode opt = OptionURIScheme"
      by (simp_all add: GetOptions_def)
    with assms have "stable_option opt" by (auto simp: list_all_iff)
    then obtain opt' where opt': "decoded_option opt = Some opt'" "IntValue opt' = IntValue opt"
      using mem(2) by (auto simp: stable_option_def int_option_codes_def split: option.splits)
    moreover have "OValue opt' \<noteq> VNil"
      using opt'(1) by (auto simp: decoded_option_def decoded_value_def split: if_splits sum.splits)
    moreover have "IntValue opt = COAPS_SCHEME"
      using False Cons by (simp add: needs_scheme_def GetOption_GetOptions)
    ultimately show ?thesis
      using False Cons
      by (simp add: needs_scheme_def [of "received_msg m"] GetOption_GetOptions GetOptions_received
          GetOptions_normalise decoded_options_def map_filter_simps)
  qed
qed

lemma Serialize_bytes:
  assumes "wire_msg m"
  shows "fst (Serialize pdq m) =
    write_header m @ Token m @ write_options 0 (sort_key OCode (Options (normalise_scheme m)))
      @ write_payload (Payload m)"
  using wire_msg_normalise [OF assms]
  by (simp add: Serialize_def Let_def sortOptions_small wire_msg_def write_header_def)

lemma wire_msg_clone: "wire_msg m \<Longrightarrow> wire_msg (cloneForChecksum m)"
  by (auto simp: wire_msg_def cloneForChecksum_def list_all_iff intro: le_trans [OF length_filter_le])

lemma length_decoded_options: "length (decoded_options opts) \<le> length opts"
  by (induction opts) (auto simp: decoded_options_def map_filter_simps split: option.splits)

lemma wire_option_cong:
  "OCode opt' = OCode opt \<Longrightarrow> valueToBytes (OValue opt') = valueToBytes (OValue opt) \<Longrightarrow>
   wire_option opt' = wire_option opt"
  by (simp add: wire_option_def)

lemma decoded_options_wire:
  "list_all stable_option opts \<Longrightarrow> list_all wire_option opts \<Longrightarrow> list_all wire_option (decoded_options opts)"
proof (induction opts)
  case (Cons opt opts)
  then obtain opt' where "decoded_option opt = Some opt'"
    and "valueToBytes (OValue opt') = valueToBytes (OValue opt)"
    by (auto simp: stable_option_def split: option.splits)
  moreover from this have "OCode opt' = OCode opt" by (simp add: decoded_option_code)
  ultimately show ?case
    using Cons wire_option_cong [of opt' opt] by (simp add: decoded_options_def map_filter_simps)
qed (simp add: decoded_options_def map_filter_simps)

lemma stable_normalise:
  assumes "list_all stable_option (Options m)"
  shows "list_all stable_option (Options (normalise_scheme m))"
proof -
  have "stable_option (NewOption OptionURIScheme (VInt COAP_SCHEME))"
    by (simp add: stable_option_def stable_scheme_0 [unfolded option_defs scheme_defs]
        valueToBytes_def IntValue_def)
  with assms show ?thesis
    by (auto simp: normalise_scheme_needs AddOption_opts opts_add_def Let_def list_all_iff)
qed

lemma wire_msg_received:
  assumes "wire_msg m" "list_all stable_option (Options m)"
  shows "wire_msg (received_msg m)"
proof -
  have n: "wire_msg (normalise_scheme m)" "list_all stable_option (Options (normalise_scheme m))"
    using assms by (simp_all add: wire_msg_normalise stable_normalise)
  then show ?thesis
    using length_decoded_options [of "sort_key OCode (Options (normalise_scheme m))"]
      decoded_options_wire [of "sort_key OCode (Options (normalise_scheme m))"]
    by (simp add: wire_msg_def received_msg_def list_all_iff opts_unique_decoded opts_unique_sort)
qed

text \<open>The receiver's checksum of what it decoded is the sender's.\<close>

lemma calculateChecksum_received:
  assumes "wire_msg m" "list_all stable_option (Options m)"
  shows "calculateChecksum pdq (received_msg m) = calculateChecksum pdq m"
proof -
  let ?c = "cloneForChecksum m" and ?r = "cloneForChecksum (received_msg m)"
  have st: "list_all stable_option (GetOptions (normalise_scheme m) c)" for c
    using stable_normalise [OF assms(2)] by (auto simp: GetOptions_def list_all_iff)
  have "wire_view (GetOptions (normalise_scheme ?r) c) = wire_view (GetOptions (normalise_scheme ?c) c)" for c
    using wire_view_decoded [OF st, of c]
    by (auto simp: GetOptions_normalise needs_scheme_clone needs_scheme_received [OF assms(2)]
        GetOptions_clone GetOptions_received)
  then have "wire_view (sort_key OCode (Options (normalise_scheme ?r))) =
      wire_view (sort_key OCode (Options (normalise_scheme ?c)))"
    by (intro wire_view_sort_eqI) (simp add: GetOptions_def)
  then have "write_options 0 (sort_key OCode (Options (normalise_scheme ?r))) =
      write_options 0 (sort_key OCode (Options (normalise_scheme ?c)))"
    by (rule write_options_view)
  moreover have "write_header ?r = write_header ?c" "Token ?r = Token ?c"
    by (simp_all add: write_header_def cloneForChecksum_def received_msg_def)
  moreover have "write_payload (Payload ?r) = write_payload (Payload ?c)"
    by (auto simp: write_payload_def cloneForChecksum_def received_msg_def split: option.splits)
  ultimately show ?thesis
    using wire_msg_clone [OF wire_msg_received [OF assms]] wire_msg_clone [OF assms(1)]
    by (simp add: calculateChecksum_def Serialize_bytes)
qed

lemma GetOption_received_checksum:
  assumes "GetOptions m OptionChecksum = [NewOption OptionChecksum (VString cs)]"
  shows "GetOption (received_msg m) OptionChecksum = Some (NewOption OptionChecksum (VString cs))"
  using assms
  by (simp add: GetOption_GetOptions GetOptions_received GetOptions_normalise decoded_options_def
      map_filter_simps decoded_option_def decoded_value_def int_option_codes_def
      string_option_codes_def valueToBytes_def)

lemma Deserialize_checksummed:
  assumes "wire_msg m" "list_all stable_option (Options m)"
    and "GetOptions m OptionChecksum = [NewOption OptionChecksum (VString cs)]"
  shows "Deserialize pdq (fst (Serialize pdq m)) met =
    (if cs = calculateChecksum pdq m then ((Some (received_msg m), None), met)
     else ((None, Some ErrChecksumMismatch), Inc MetricBreakedMessages met))"
  using GetOption_received_checksum [OF assms(3)]
  by (simp add: Deserialize_def deserialize_Serialize [OF assms(1)] verifyChecksum_def
      calculateChecksum_received [OF assms(1,2)] StringValue_def)

lemma RemoveOptions_wire: "wire_msg m \<Longrightarrow> wire_msg (RemoveOptions m c)"
  by (auto simp: wire_msg_def RemoveOptions_def list_all_iff intro: le_trans [OF length_filter_le])

lemma checksum_option_stable:
  "stable_option (NewOption OptionChecksum (VString cs))"
  "length cs < 65536 \<Longrightarrow> wire_option (NewOption OptionChecksum (VString cs))"
  by (simp_all add: stable_option_def decoded_option_def decoded_value_def int_option_codes_def
      string_option_codes_def valueToBytes_def wire_option_def)

lemma length_calculateChecksum: "length (calculateChecksum pdq m) = 8"
  by (simp add: calculateChecksum_def sprintf_08x_def)

lemma stable_applyChecksum:
  "list_all stable_option (Options m) \<Longrightarrow> list_all stable_option (Options (applyChecksum pdq m))"
  using checksum_option_stable(1)
  by (auto simp: applyChecksum_def Let_def AddOption_opts opts_add_def RemoveOptions_def list_all_iff)

lemma wire_msg_applyChecksum:
  assumes "wire_msg m" "length (Options m) < 12" "list_all stable_option (Options m)"
  shows "wire_msg (applyChecksum pdq m)"
proof -
  let ?m = "RemoveOptions m OptionChecksum"
  have "length (opts_without OptionChecksum (Options m)) \<le> length (Options m)" by simp
  then have "length (opts_without OptionChecksum (Options m)) < 12" using assms(2) by linarith
  then show ?thesis
    using RemoveOptions_wire [OF assms(1), of OptionChecksum] checksum_option_stable(2)
      opts_unique_AddOption [of ?m OptionChecksum "VString (calculateChecksum pdq ?m)"]
    by (auto simp: applyChecksum_def Let_def AddOption_opts opts_add_def RemoveOptions_def
        wire_msg_def IsRepeatableOption_def repeatable_codes_def list_all_iff length_calculateChecksum)
qed

lemma calculateChecksum_applyChecksum:
  "calculateChecksum pdq (applyChecksum pdq m) = calculateChecksum pdq m"
  unfolding calculateChecksum_def applyChecksum_def Let_def cloneForChecksum_add by simp

lemma GetOptions_applyChecksum:
  "GetOptions (applyChecksum pdq m) OptionChecksum =
    [NewOption OptionChecksum (VString (calculateChecksum pdq m))]"
  unfolding applyChecksum_def Let_def calculateChecksum_def cloneForChecksum_add
  by (simp add: GetOptions_AddOption repeatable_codes_def)

text \<open>The payload is the tail of the datagram, behind a prefix that does not depend on it.\<close>

lemma Serialize_payload_prefix:
  assumes "wire_msg m" "Payload m = Some p" "length q = length (Bytes p)" "q \<noteq> []"
  shows "\<exists>pre. fst (Serialize pdq m) = pre @ Bytes p \<and>
    fst (Serialize pdq (m\<lparr>Payload := Some (BytesPayload q)\<rparr>)) = pre @ q"
proof -
  let ?m = "m\<lparr>Payload := Some (BytesPayload q)\<rparr>"
  have "wire_msg ?m" using assms(1) by (simp add: wire_msg_def)
  moreover have "Options (normalise_scheme ?m) = Options (normalise_scheme m)"
    by (simp add: normalise_scheme_def GetOption_def AddOption_opts split: option.split)
  ultimately show ?thesis
    using assms Serialize_bytes [OF assms(1), of pdq] Serialize_bytes [of ?m pdq]
    by (auto simp: write_header_def write_payload_def)
qed

lemma calculateChecksum_payload:
  assumes "wire_msg m" "Payload m = Some p" "i < length (Bytes p)" "b \<noteq> Bytes p ! i"
  shows "calculateChecksum pdq m \<noteq>
    calculateChecksum pdq (m\<lparr>Payload := Some (BytesPayload ((Bytes p)[i := b]))\<rparr>)"
proof -
  let ?c = "cloneForChecksum m" and ?q = "(Bytes p)[i := b]"
  have c: "cloneForChecksum (m\<lparr>Payload := Some (BytesPayload ?q)\<rparr>) = ?c\<lparr>Payload := Some (BytesPayload ?q)\<rparr>"
    by (simp add: cloneForChecksum_def zero_msg_def)
  have ne: "?q \<noteq> []" using assms(3) by auto
  have "Payload ?c = Some (BytesPayload (Bytes p))" using assms(2) by (simp add: cloneForChecksum_def)
  then obtain pre where "fst (Serialize pdq ?c) = pre @ Bytes p"
    "fst (Serialize pdq (?c\<lparr>Payload := Some (BytesPayload ?q)\<rparr>)) = pre @ ?q"
    using Serialize_payload_prefix [OF wire_msg_clone [OF assms(1)], of "BytesPayload (Bytes p)" ?q pdq] ne
    by auto
  moreover have "ChecksumIEEE (pre @ Bytes p) \<noteq> ChecksumIEEE (pre @ ?q)"
    using ChecksumIEEE_one_byte [of "Bytes p ! i" b "pre @ take i (Bytes p)" "drop (Suc i) (Bytes p)"] assms(3,4)
    by (simp add: upd_conv_take_nth_drop id_take_nth_drop [symmetric])
  ultimately show ?thesis
    by (auto simp: calculateChecksum_def c dest: sprintf_08x_inj)
qed

subsection \<open>What an accepted message looks like\<close>

text \<open>
  \<open>received_option\<close>: the value has the type its number calls for. \<open>VNil\<close> marks an option
  whose declared length went past the end of the datagram.
\<close>

definition received_option :: "coap_option \<Rightarrow> bool" where
  "received_option opt \<longleftrightarrow> 0 \<le> OCode opt \<and> OCode opt < 65536 \<and>
    (case OValue opt of
       VUint32 v \<Rightarrow> OCode opt \<in> set int_option_codes
     | VString s \<Rightarrow> OCode opt \<in> set string_option_codes
     | VNil \<Rightarrow> True
     | _ \<Rightarrow> False)"

lemma uint_16_bounds: "0 \<le> uint (c :: 16 word)" "uint (c :: 16 word) < 65536"
  using uint_lt2p [of c] by simp_all

lemma read_option_received:
  "read_option c b tmp = OptNext (Some opt) c' rest \<Longrightarrow> received_option opt"
  by (auto simp: read_option_def read_value_def Let_def received_option_def uint_16_bounds
      simp del: option_defs split: ext_result.splits if_splits sum.splits)

lemma read_option_suffix:
  "read_option c b tmp = OptNext opt c' rest \<Longrightarrow> \<exists>pre. tmp = pre @ rest"
proof -
  have e: "\<exists>pre. tmp = pre @ rest" if "read_ext n tmp = ExtOK v rest" for n tmp v and rest :: bytes
    using that by (auto simp: read_ext_def split: if_splits list.splits)
  have v: "rest = drop n tmp" if "read_value c v (drop n tmp) = OptNext opt c' rest" for c v n c' opt tmp rest
    using read_value_rest [OF that] by simp
  show "read_option c b tmp = OptNext opt c' rest \<Longrightarrow> \<exists>pre. tmp = pre @ rest"
    by (auto simp: read_option_def Let_def split: ext_result.splits if_splits dest!: e v)
       (metis append.assoc append_take_drop_id)+
qed

lemma read_options_done:
  assumes "read_options c opts tmp = LoopDone opts' rest" "list_all received_option opts"
  shows "list_all received_option opts' \<and> (\<exists>pre. tmp = pre @ rest)"
  using assms
proof (induction c opts tmp rule: read_options.induct)
  case (1 c opts)
  then show ?case by simp
next
  case (2 c opts b tmp)
  show ?case
  proof (cases "b = PayloadMarker")
    case True
    with 2 have "opts' = opts" "rest = tmp" by auto
    with 2 show ?thesis by (metis append.simps)
  next
    case False
    then obtain opt c' rest1 where o: "read_option c b tmp = OptNext opt c' rest1"
      and r: "read_options c' (case opt of None \<Rightarrow> opts | Some opt \<Rightarrow> opts @ [opt]) rest1 = LoopDone opts' rest"
      using "2.prems"(1) by (auto split: opt_result.splits bool.splits)
    have "list_all received_option (case opt of None \<Rightarrow> opts | Some opt \<Rightarrow> opts @ [opt])"
      using "2.prems"(2) o by (auto simp: read_option_received split: option.splits)
    with "2.IH" [OF False o] r have "list_all received_option opts'" "\<exists>pre. rest1 = pre @ rest"
      by auto
    moreover obtain pre where "tmp = pre @ rest1" using read_option_suffix [OF o] by blast
    ultimately show ?thesis by (metis append.assoc append_Cons)
  qed
qed

lemma read_options_error:
  "read_options c opts tmp = LoopReturn mo e \<Longrightarrow>
   e \<in> {ErrOptionDeltaUsesValue15, ErrOptionLengthUsesValue15, ErrUnknownCriticalOption, ErrDataOutsideOfType}"
proof (induction c opts tmp rule: read_options.induct)
  case (1 c opts)
  then show ?case by simp
next
  case (2 c opts b tmp)
  have "e' \<in> {ErrOptionDeltaUsesValue15, ErrOptionLengthUsesValue15, ErrUnknownCriticalOption, ErrDataOutsideOfType}"
    if "read_option c b tmp = OptReturn k e'" for k e'
    using that by (auto simp: read_option_def read_value_def Let_def decodeInt_def
        split: ext_result.splits if_splits sum.splits)
  with 2 show ?case
    by (auto split: if_splits opt_result.splits bool.splits)
qed

lemma deserialize_cases:
  obtains (panic) "deserialize_body data = Panic" "deserialize data = (None, None)"
  | (error) m e where "deserialize data = (m, Some e)" "e \<noteq> ErrNilMessage" "deserialize_body data \<noteq> Panic"
  | (ok) m where "deserialize data = (Some m, None)" "deserialize_body data = Ret (Some m, None)"
proof -
  have v: "validateMessage m \<noteq> Some ErrNilMessage" for m
    by (simp add: validateMessage_def)
  show thesis
  proof (cases "deserialize_body data")
    case Panic
    then show thesis by (simp add: deserialize_def panic)
  next
    case (Ret r)
    obtain mo eo where r: "r = (mo, eo)" by (cases r)
    show thesis
    proof (cases eo)
      case None
      with Ret r have "mo \<noteq> None"
        by (auto simp: deserialize_body_def Let_def split: if_splits loop_result.splits option.splits)
      with None Ret r show thesis by (auto simp: deserialize_def intro: ok)
    next
      case (Some e)
      with Ret r v have "e \<noteq> ErrNilMessage"
        by (auto simp: deserialize_body_def Let_def split: if_splits loop_result.splits option.splits
            dest: read_options_error)
      with Some Ret r show thesis by (auto simp: deserialize_def intro: error)
    qed
  qed
qed

lemma deserialize_body_ok:
  assumes "deserialize_body data = Ret (Some m, None)"
  shows "4 \<le> length data \<and> MType m \<le> 3 \<and> length (Token m) \<le> 8 \<and>
    list_all received_option (Options m) \<and> \<not> list_ex (bad_repeat m) (Options m) \<and>
    (\<exists>pre p. Payload m = Some (BytesPayload p) \<and> data = pre @ p)"
proof -
  let ?k = "unat (data ! 0 AND 0x0f)"
  have k: "?k \<le> 15"
    using word_and_le1 [of "data ! 0" "0x0f"] by (simp add: word_le_nat_alt and.commute)
  from assms obtain opts tmp where len: "4 \<le> length data" "4 + ?k \<le> length data"
    and loop: "read_options 0 [] (drop (4 + ?k) data) = LoopDone opts tmp"
    and m: "m = zero_msg\<lparr>MType := drop_bit 4 (data ! 0) AND 0x03, MCode := data ! 1,
        MessageID := get_be16 (data ! 2) (data ! 3), Token := take ?k (drop 4 data),
        Options := opts, Payload := Some (BytesPayload tmp)\<rparr>"
    and valid: "validateMessage m = None"
    by (auto simp: deserialize_body_def Let_def split: if_splits loop_result.splits option.splits)
  have "length (Token m) = ?k" using m len by simp
  moreover from this k have "unat (GetTokenLength m) = ?k"
    by (simp add: GetTokenLength_def unat_of_nat)
  moreover from this have "?k \<le> 8"
    using valid by (auto simp: validateMessage_def word_le_nat_alt not_less split: if_splits)
  moreover obtain pre where "list_all received_option opts" "drop (4 + ?k) data = pre @ tmp"
    using read_options_done [OF loop] by auto
  moreover from this have "\<exists>pre. data = pre @ tmp"
    by (metis append.assoc append_take_drop_id)
  moreover have "MType m \<le> 3" "\<not> list_ex (bad_repeat m) (Options m)"
    using valid by (auto simp: validateMessage_def not_less split: if_splits)
  ultimately show ?thesis using len(1) m by auto
qed

subsection \<open>Properties\<close>

definition sample_msg :: coap_msg where
  "sample_msg = zero_msg\<lparr>MessageID := 0x1234, MType := CON, MCode := POST, Token := [1, 2, 3],
     Options := [NewOption OptionURIScheme (VInt 1), NewOption OptionURIQuery (VString (lit ''k=v'')),
       NewOption OptionURIPath (VString (lit ''checksum'')), NewOption OptionBlock1 (VInt 14)],
     Payload := Some (StringPayload (lit ''body''))\<rparr>"

lemma sample_wire: "wire_msg sample_msg"
  by code_simp

lemma sample_stable: "list_all stable_option (Options sample_msg)"
  by code_simp

text \<open>C1: A datagram written by \<open>Serialize\<close> is read back by \<open>Deserialize\<close>: type, code,
  message id, token and payload are those of the message, the options are its options in
  code order with their decoded values, no error is returned and no metric changes.\<close>

theorem wire_roundtrip:
  assumes "wire_msg m" "GetOption m OptionChecksum = None"
  shows "Deserialize pdq (fst (Serialize pdq m)) met = ((Some (received_msg m), None), met)"
proof -
  have "GetOptions m OptionChecksum = []"
    using assms(2) by (simp add: GetOption_GetOptions split: list.splits)
  then have "GetOption (received_msg m) OptionChecksum = None"
    by (simp add: GetOption_GetOptions GetOptions_received GetOptions_normalise decoded_options_def
        map_filter_simps)
  then show ?thesis
    by (simp add: Deserialize_def deserialize_Serialize [OF assms(1)] verifyChecksum_def)
qed

theorem wire_roundtrip_witness:
  "Deserialize id (fst (Serialize id sample_msg)) zero_metrics =
     ((Some (received_msg sample_msg), None), zero_metrics)"
  by (rule wire_roundtrip [OF sample_wire]) (simp add: sample_msg_def GetOption_def)



definition sample_datagram :: bytes where
  "sample_datagram = fst (Serialize id (applyChecksum id sample_msg))"

text \<open>C16: A checksummed datagram in which one payload byte was changed in transit is
  rejected with \<open>ErrChecksumMismatch\<close> and counted as broken.\<close>

theorem checksum_detects_payload_change:
  assumes "wire_msg m" "length (Options m) < 12" "list_all stable_option (Options m)"
    and "Payload m = Some p" "i < length (Bytes p)"
    and "data = fst (Serialize pdq (applyChecksum pdq m))"
    and "k = length data - length (Bytes p) + i" "b \<noteq> data ! k"
  shows "Deserialize pdq (data[k := b]) met =
    ((None, Some ErrChecksumMismatch), Inc MetricBreakedMessages met)"
proof -
  let ?s = "applyChecksum pdq m"
  let ?s' = "?s\<lparr>Payload := Some (BytesPayload ((Bytes p)[i := b]))\<rparr>"
  note wire = wire_msg_applyChecksum [OF assms(1-3)] and st = stable_applyChecksum [OF assms(3)]
  have wire': "wire_msg ?s'" and st': "list_all stable_option (Options ?s')"
    using wire st by (simp_all add: wire_msg_def)
  have p: "Payload ?s = Some p"
    using assms(4) by (simp add: applyChecksum_def Let_def AddOption_opts RemoveOptions_def)
  have ne: "(Bytes p)[i := b] \<noteq> []" using assms(5) by auto
  obtain pre where data: "data = pre @ Bytes p" and data': "fst (Serialize pdq ?s') = pre @ (Bytes p)[i := b]"
    using Serialize_payload_prefix [OF wire p, of "(Bytes p)[i := b]" pdq] ne assms(6) by auto
  have k: "k = length pre + i" using assms(7) data by simp
  then have upd: "data[k := b] = fst (Serialize pdq ?s')" and ne: "b \<noteq> Bytes p ! i"
    using assms(8) data data' by (simp_all add: list_update_append)
  have "GetOptions ?s' OptionChecksum = [NewOption OptionChecksum (VString (calculateChecksum pdq ?s))]"
    using GetOptions_applyChecksum [of pdq m] by (simp add: GetOptions_def calculateChecksum_applyChecksum)
  moreover have "calculateChecksum pdq ?s \<noteq> calculateChecksum pdq ?s'"
    by (rule calculateChecksum_payload [OF wire p assms(5) ne])
  ultimately show ?thesis
    unfolding upd using Deserialize_checksummed [OF wire' st'] by simp
qed

theorem checksum_detects_payload_change_witness:
  "Deserialize id (sample_datagram[length sample_datagram - 4 + 3 :=
       sample_datagram ! (length sample_datagram - 4 + 3) + 1]) zero_metrics =
     ((None, Some ErrChecksumMismatch), Inc MetricBreakedMessages zero_metrics)"
proof -
  have p: "Payload sample_msg = Some (StringPayload (lit ''body''))" "length (Options sample_msg) < 12"
    by (simp_all add: sample_msg_def)
  have l: "length (Bytes (StringPayload (lit ''body''))) = 4" by (simp add: lit_def)
  show ?thesis
    by (rule checksum_detects_payload_change
        [OF sample_wire p(2) sample_stable p(1) _ sample_datagram_def, where i = 3])
       (simp_all only: l, simp_all)
qed

text \<open>C17: Whatever \<open>Deserialize\<close> accepts is well formed: at least 4 bytes of input, a type
  of 2 bits, a token of at most 8 bytes, options whose values have the type of their
  number, no repeated critical option, a payload that is the tail of the datagram, and a
  checksum that verifies if there is one.\<close>

theorem Deserialize_accepted:
  assumes "fst (Deserialize pdq data met) = (Some m, None)"
  shows "4 \<le> length data \<and> MType m \<le> 3 \<and> length (Token m) \<le> 8 \<and>
    list_all received_option (Options m) \<and> \<not> list_ex (bad_repeat m) (Options m) \<and>
    (\<exists>pre p. Payload m = Some (BytesPayload p) \<and> data = pre @ p) \<and> verifyChecksum pdq m = None"
  using assms deserialize_body_ok [of data]
  by (cases data rule: deserialize_cases) (auto simp: Deserialize_def split: option.splits)

theorem Deserialize_accepted_witness:
  "\<exists>m. fst (Deserialize id [0x40, 1, 0, 7, 0xb1, 97, 0xff, 98] zero_metrics) = (Some m, None) \<and>
     list_all received_option (Options m)"
proof -
  let ?d = "[0x40, 1, 0, 7, 0xb1, 97, 0xff, 98] :: bytes"
  have "Option.is_none (snd (fst (Deserialize id ?d zero_metrics)))"
    "\<not> Option.is_none (fst (fst (Deserialize id ?d zero_metrics)))"
    by code_simp+
  then have "\<exists>m. fst (Deserialize id ?d zero_metrics) = (Some m, None)"
    by (cases "fst (Deserialize id ?d zero_metrics)") (auto simp: Option.is_none_def)
  then show ?thesis using Deserialize_accepted [of id ?d zero_metrics] by blast
qed

text \<open>C18: \<open>Deserialize\<close> returns on every input, with exactly one of: a message and no
  error; \<open>ErrNilMessage\<close> and no message, where the body panicked (and then no metric
  counts it); another error, counted once as a broken message.\<close>

theorem Deserialize_outcomes:
  "case Deserialize pdq data met of ((m, e), met') \<Rightarrow>
     (deserialize_body data \<noteq> Panic \<and> m \<noteq> None \<and> e = None \<and> met' = met) \<or>
     (deserialize_body data = Panic \<and> m = None \<and> e = Some ErrNilMessage \<and> met' = met) \<or>
     (deserialize_body data \<noteq> Panic \<and> e \<notin> {None, Some ErrNilMessage} \<and>
        met' = Inc MetricBreakedMessages met)"
  by (cases data rule: deserialize_cases)
     (auto simp: Deserialize_def Let_def split: option.splits)

end
