(* ===== verification/Coala_Env.thy ===== *)
theory Coala_Env
  imports Session_Store Secure_Session Go_Url Coap_Checksum
begin

text \<open>
  What the transport works on: the process-wide state it changes (metrics, id counter,
  proxy ids, session pool), and its environment (clock, random sources, socket, channel)
  as streams read in order. A blocked call is one that has used up its events.
\<close>

subsection \<open>Transport and environment\<close>

text \<open>What one \<open>conn.Read\<close> returns: bytes, a timeout, or another error.\<close>

datatype read_event = ReadData bytes | ReadTimeout | ReadError nat

text \<open>What one round of the \<open>select\<close> in \<open>sendARQBlock2ACK\<close> takes: a message from its
  channel, or the \<open>time.After\<close> of one \<open>timeWait\<close>.\<close>

datatype chan_event = ChanMessage coap_msg | ChanTimeout

text \<open>
  The \<open>transport\<close> struct with the addresses of its connection. \<open>tr_sorter\<close> is the part of
  \<open>sort.Sort\<close> for more than 12 elements, \<open>tr_range\<close> the order in which \<open>range\<close> visits a map.
\<close>

record transport =
  tr_crypto :: crypto
  tr_sorter :: sorter
  tr_range :: "url_values \<Rightarrow> url_values"
  tr_privateKey :: bytes
  tr_local :: bytes
  tr_remote :: bytes

text \<open>\<open>time.Now\<close> reads the clock stream plus the time spent in timers that fired, \<open>waited\<close>.\<close>

text \<open>\<open>sent\<close> lists the calls of \<open>Write\<close> (address \<open>None\<close>) and \<open>WriteTo\<close>; \<open>wres n\<close> is the error
  the \<open>n\<close>-th of them returns. \<open>crand\<close> is \<open>crypto/rand\<close>, \<open>mrand\<close> is \<open>rand.Uint32\<close>.\<close>

record env =
  met :: metrics
  ids :: id_source
  clock :: "nat \<Rightarrow> int"
  clock_pos :: nat
  waited :: int
  crand :: "nat \<Rightarrow> bytes option"
  crand_pos :: nat
  mrand :: "nat \<Rightarrow> 32 word"
  mrand_pos :: nat
  sent :: "(bytes option \<times> bytes) list"
  wres :: "nat \<Rightarrow> err option"
  reads :: "read_event list"
  chan :: "chan_event list"
  proxyIDs :: "32 word shardedCache"
  sessions :: "SecuredSession shardedCache"

definition tick :: "env \<Rightarrow> int \<times> env" where
  "tick e = (clock e (clock_pos e) + waited e, e\<lparr>clock_pos := Suc (clock_pos e)\<rparr>)"

definition wait_for :: "int \<Rightarrow> env \<Rightarrow> env" where
  "wait_for d e = e\<lparr>waited := waited e + d\<rparr>"

definition with_ids :: "(id_source \<Rightarrow> 'a \<times> id_source) \<Rightarrow> env \<Rightarrow> 'a \<times> env" where
  "with_ids f e = (let (x, g) = f (ids e) in (x, e\<lparr>ids := g\<rparr>))"

definition inc :: "counter \<Rightarrow> env \<Rightarrow> env" where
  "inc c e = e\<lparr>met := Inc c (met e)\<rparr>"

definition socket_write :: "bytes option \<Rightarrow> bytes \<Rightarrow> env \<Rightarrow> err option \<times> env" where
  "socket_write addr buf e = (wres e (length (sent e)), e\<lparr>sent := sent e @ [(addr, buf)]\<rparr>)"

text \<open>\<open>fmt.Sprintf(''%v'', n)\<close> of an unsigned number.\<close>

fun decimal :: "nat \<Rightarrow> bytes" where
  "decimal n = (if n < 10 then [of_nat (48 + n)] else decimal (n div 10) @ [of_nat (48 + n mod 10)])"

declare decimal.simps [simp del]

subsection \<open>Proxy ids and sessions (\<open>security.go\<close>)\<close>

definition setProxyIDIfNeed :: "coap_msg \<Rightarrow> bytes \<Rightarrow> env \<Rightarrow> 32 word \<times> coap_msg \<times> env" where
  "setProxyIDIfNeed m senderAddr e =
    (if GetOption m OptionProxyURI \<noteq> None then
       let (now, e) = tick e;
           key = ProxyAddr m @ senderAddr;
           (v, st) = Proxy_Get key now (proxyIDs e);
           e = e\<lparr>proxyIDs := st\<rparr>
       in case v of
            Some v \<Rightarrow> (v, AddOption m OptionProxySecurityID (VUint32 v), e)
          | None \<Rightarrow>
              let v = mrand e (mrand_pos e);
                  e = e\<lparr>mrand_pos := Suc (mrand_pos e)\<rparr>;
                  (now, e) = tick e;
                  e = e\<lparr>proxyIDs := Proxy_Set key v now (proxyIDs e)\<rparr>
              in (v, AddOption m OptionProxySecurityID (VUint32 v), e)
     else (0, m, e))"

definition getProxyIDIfNeed :: "bytes \<Rightarrow> bytes \<Rightarrow> env \<Rightarrow> 32 word option \<times> env" where
  "getProxyIDIfNeed proxyAddr senderAddr e =
    (let (now, e) = tick e;
         (v, st) = Proxy_Get (proxyAddr @ senderAddr) now (proxyIDs e)
     in (v, e\<lparr>proxyIDs := st\<rparr>))"

text \<open>The proxy part of a session key: the address followed by the id, if one is known.\<close>

definition withProxyID :: "bytes \<Rightarrow> bytes \<Rightarrow> env \<Rightarrow> bytes \<times> env" where
  "withProxyID proxyAddr senderAddr e =
    (if length proxyAddr > 0 then
       let (v, e) = getProxyIDIfNeed proxyAddr senderAddr e
       in (case v of Some pid \<Rightarrow> proxyAddr @ decimal (unat pid) | None \<Rightarrow> proxyAddr, e)
     else (proxyAddr, e))"

definition getSessionForAddress :: "bytes \<Rightarrow> bytes \<Rightarrow> bytes \<Rightarrow> env \<Rightarrow> SecuredSession option \<times> env" where
  "getSessionForAddress senderAddr receiverAddr proxyAddr e =
    (let (now, e) = tick e;
         (v, st) = Session_Get senderAddr receiverAddr proxyAddr now (sessions e);
         e = e\<lparr>sessions := st\<rparr>
     in case v of
          None \<Rightarrow> (None, e)
        | Some s \<Rightarrow>
            let (now, e) = tick e
            in (Some s, e\<lparr>sessions := Session_Set senderAddr receiverAddr proxyAddr s now (sessions e)\<rparr>))"

definition storeSession :: "SecuredSession \<Rightarrow> bytes \<Rightarrow> bytes \<Rightarrow> bytes \<Rightarrow> env \<Rightarrow> env" where
  "storeSession s senderAddr receiverAddr proxyAddr e =
    (let (now, e) = tick e
     in e\<lparr>sessions := Session_Set senderAddr receiverAddr proxyAddr s now (sessions e)\<rparr>)"

definition setSessionForAddress :: "SecuredSession \<Rightarrow> bytes \<Rightarrow> bytes \<Rightarrow> bytes \<Rightarrow> env \<Rightarrow> env" where
  "setSessionForAddress s senderAddr receiverAddr proxyAddr e =
    inc MetricSessionsRate (storeSession s senderAddr receiverAddr proxyAddr e)"

definition deleteSessionForAddress :: "bytes \<Rightarrow> bytes \<Rightarrow> bytes \<Rightarrow> env \<Rightarrow> env" where
  "deleteSessionForAddress senderAddr receiverAddr proxyAddr e =
    e\<lparr>sessions := Session_Delete senderAddr receiverAddr proxyAddr (sessions e)\<rparr>"

subsection \<open>Encryption (\<open>encryption.go\<close>)\<close>

definition encryptionOptions :: "coap_msg \<Rightarrow> bytes \<Rightarrow> AEAD \<Rightarrow> coap_msg" where
  "encryptionOptions m address aead =
    (let coapsURI = Seal aead (GetURI m address) (MessageID m) [];
         m = RemoveOptions m OptionURIPath;
         m = RemoveOptions m OptionURIQuery
     in AddOption m OptionCoapsUri (VString coapsURI))"

definition encrypt :: "coap_msg \<Rightarrow> bytes \<Rightarrow> AEAD \<Rightarrow> coap_msg" where
  "encrypt m address aead =
    (let m = (case Payload m of
                Some p \<Rightarrow> if Length p \<noteq> 0
                  then m\<lparr>Payload := Some (BytesPayload (Seal aead (Bytes p) (MessageID m) []))\<rparr> else m
              | None \<Rightarrow> m)
     in encryptionOptions m address aead)"

fun set_queries :: "coap_msg \<Rightarrow> url_values \<Rightarrow> coap_msg" where
  "set_queries m [] = m"
| "set_queries m ((k, v) # qs) = set_queries (SetURIQuery m k (hd v)) qs"

definition decryptionOptions :: "transport \<Rightarrow> coap_msg \<Rightarrow> AEAD \<Rightarrow> err option \<times> coap_msg" where
  "decryptionOptions tr m aead =
    (case GetOption m OptionCoapsUri of
       None \<Rightarrow> (None, m)
     | Some opt \<Rightarrow> (case Open aead (StringValue opt) (MessageID m) [] of
         None \<Rightarrow> (Some (ErrExternal 1), m)
       | Some coapsURI \<Rightarrow> (case url_Parse coapsURI of
           None \<Rightarrow> (Some (ErrExternal 2), m)
         | Some parsedURL \<Rightarrow> (case url_ParseQuery (RawQuery parsedURL) of
             None \<Rightarrow> (Some (ErrExternal 3), m)
           | Some queries \<Rightarrow>
               let m = SetURIPath m (Path parsedURL);
                   m = set_queries m (tr_range tr queries)
               in (None, RemoveOptions m OptionCoapsUri)))))"

definition decrypt :: "transport \<Rightarrow> coap_msg \<Rightarrow> AEAD \<Rightarrow> err option \<times> coap_msg" where
  "decrypt tr m aead =
    (case Payload m of
       Some p \<Rightarrow>
         if Length p \<noteq> 0 then
           (case Open aead (Bytes p) (MessageID m) [] of
              None \<Rightarrow> (Some (ErrExternal 1), m)
            | Some newPayload \<Rightarrow> decryptionOptions tr (m\<lparr>Payload := Some (BytesPayload newPayload)\<rparr>) aead)
         else decryptionOptions tr m aead
     | None \<Rightarrow> decryptionOptions tr m aead)"

end
