(* ===== verification/Coap_Block.thy ===== *)
theory Coap_Block
  imports Coap_Uri Coap_Roundtrip "HOL-Library.Log_Nat"
begin

text \<open>
  Block options (\<open>block.go\<close>) and the segmentation of a large payload into block messages
  (\<open>constructNextBlock\<close> and \<open>newBlockingMessage\<close> of \<open>common.go\<close>, and the loop around them
  in \<open>transport.go\<close>).
\<close>

subsection \<open>The block option\<close>

record block =
  BlockNumber :: int
  MoreBlocks :: bool
  BlockSize :: int

definition newBlock :: "bool \<Rightarrow> int \<Rightarrow> int \<Rightarrow> block" where
  "newBlock moreBlocks num sz = \<lparr>BlockNumber = num, MoreBlocks = moreBlocks, BlockSize = sz\<rparr>"

text \<open>
  \<open>int(math.Log(float64(blockSize))/math.Log(2) - 4)\<close>: the binary logarithm less 4,
  truncated towards zero. \<open>computeSZX_log\<close> below relates the integer computation to the
  real logarithm. The caller passes 1 to 1024 only, where the rounding of the two
  floating-point logarithms does not change the truncated result.
\<close>

fun floor_log2 :: "nat \<Rightarrow> nat" where
  "floor_log2 n = (if n < 2 then 0 else Suc (floor_log2 (n div 2)))"

declare floor_log2.simps [simp del]

definition computeSZX :: "int \<Rightarrow> int" where
  "computeSZX blockSize =
    (let n = nat blockSize; l = int (floor_log2 n)
     in if l \<ge> 4 \<or> 2 ^ floor_log2 n = n then l - 4 else l + 1 - 4)"

definition ToInt :: "block \<Rightarrow> int" where
  "ToInt blk =
    (if BlockSize blk > 1024 \<or> BlockSize blk \<le> 0 then 0
     else let szx = computeSZX (BlockSize blk);
              m = (if \<not> MoreBlocks blk then 0 else 1)
          in go_int (push_bit 4 (BlockNumber blk)) OR push_bit 3 m OR szx)"

definition newBlockFromInt :: "int \<Rightarrow> block" where
  "newBlockFromInt blockValue =
    (let num = drop_bit 4 blockValue;
         m = drop_bit 3 (blockValue AND 8);
         szx = blockValue AND 7
     in \<lparr>BlockNumber = num, MoreBlocks = m \<noteq> 0, BlockSize = 2 ^ nat (szx + 4)\<rparr>)"

definition GetBlock1 :: "coap_msg \<Rightarrow> block option" where
  "GetBlock1 m = map_option (\<lambda>opt. newBlockFromInt (IntValue opt)) (GetOption m OptionBlock1)"

definition GetBlock2 :: "coap_msg \<Rightarrow> block option" where
  "GetBlock2 m = map_option (\<lambda>opt. newBlockFromInt (IntValue opt)) (GetOption m OptionBlock2)"

lemma floor_log2_bounds: "n > 0 \<Longrightarrow> 2 ^ floor_log2 n \<le> n \<and> n < 2 * 2 ^ floor_log2 n"
proof (induction n rule: floor_log2.induct)
  case (1 n)
  then show ?case by (cases "n < 2") (auto simp: floor_log2.simps [of n])
qed

lemma computeSZX_log:
  assumes "b > 0"
  shows "computeSZX b =
    (if 0 \<le> log 2 (real_of_int b) - 4 then \<lfloor>log 2 (real_of_int b) - 4\<rfloor>
     else \<lceil>log 2 (real_of_int b) - 4\<rceil>)"
proof -
  let ?n = "nat b" and ?l = "floor_log2 (nat b)"
  have b: "real_of_int b = real ?n" "real ?n > 0" using assms by simp_all
  have "2 ^ ?l \<le> ?n" "?n < 2 * 2 ^ ?l" using floor_log2_bounds [of ?n] assms by auto
  then have lo: "2 ^ ?l \<le> real ?n" and hi: "real ?n < 2 * 2 ^ ?l"
    by (metis of_nat_le_iff of_nat_numeral of_nat_power, metis of_nat_less_iff of_nat_mult of_nat_numeral of_nat_power)
  have fl: "\<lfloor>log 2 (real ?n)\<rfloor> = int ?l"
    using lo hi b(2) by (intro floor_log_eq_powr_iff [THEN iffD2]) (simp_all add: powr_add powr_realpow)
  have cl: "\<lceil>log 2 (real ?n)\<rceil> = int ?l + 1" if "2 ^ ?l \<noteq> ?n"
  proof -
    have "(2::real) ^ ?l \<noteq> real ?n" using that by (metis of_nat_eq_iff of_nat_numeral of_nat_power)
    then show ?thesis
      using lo hi b(2)
      by (intro ceiling_log_eq_powr_iff [THEN iffD2]) (simp_all add: powr_add powr_realpow)
  qed
  have ex: "log 2 (real ?n) = real ?l" if "2 ^ ?l = ?n"
    by (subst that [symmetric]) (simp add: log_nat_power)
  have ge: "0 \<le> log 2 (real ?n) - 4 \<longleftrightarrow> 4 \<le> int ?l"
    using fl by linarith
  show ?thesis
    unfolding computeSZX_def Let_def b(1) ge
    using fl cl ex by (auto simp: floor_diff_numeral ceiling_diff_numeral)
qed

lemma push4_or_add:
  assumes "0 \<le> low" "low < 16"
  shows "push_bit 4 num OR low = 16 * num + (low :: int)"
proof -
  have "take_bit 4 low = low" using assms by (simp add: take_bit_int_eq_self)
  then have low: "bit low n \<Longrightarrow> n < 4" for n by (metis bit_take_bit_iff)
  have "push_bit 4 num + low = push_bit 4 num OR low"
    by (rule disjunctive_add) (use low in \<open>fastforce simp: bit_simps\<close>)
  then show ?thesis by (simp add: push_bit_eq_mult)
qed

lemma and_low_nibble:
  "(16 * num + low) AND 7 = (low :: int) AND 7"
  "(16 * num + low) AND 8 = (low :: int) AND 8"
proof -
  have m: "x AND 7 = take_bit 4 x AND 7" "x AND 8 = take_bit 4 x AND 8" for x :: int
    by (simp_all add: take_bit_eq_mask mask_numeral and.assoc)
  have "take_bit 4 (16 * num + low) = take_bit 4 low" by (simp add: take_bit_eq_mod)
  then show "(16 * num + low) AND 7 = low AND 7" "(16 * num + low) AND 8 = low AND 8"
    by (metis m)+
qed

lemma computeSZX_sizes:
  "computeSZX 16 = 0" "computeSZX 32 = 1" "computeSZX 64 = 2" "computeSZX 128 = 3"
  "computeSZX 256 = 4" "computeSZX 512 = 5" "computeSZX 1024 = 6"
  by (simp_all add: computeSZX_def Let_def floor_log2.simps)

text \<open>A block descriptor with one of the seven legal sizes survives the encoding.\<close>

definition legal_block :: "block \<Rightarrow> bool" where
  "legal_block blk \<longleftrightarrow> BlockSize blk \<in> {16, 32, 64, 128, 256, 512, 1024} \<and>
     0 \<le> BlockNumber blk \<and> BlockNumber blk < 2 ^ 28"

lemma ToInt_legal:
  assumes "legal_block blk"
  obtains low where "ToInt blk = 16 * BlockNumber blk + low" "0 \<le> low" "low < 16"
    "2 ^ nat ((low AND 7) + 4) = BlockSize blk" "(drop_bit 3 (low AND 8) \<noteq> 0) = MoreBlocks blk"
proof -
  let ?low = "push_bit 3 (if \<not> MoreBlocks blk then 0 else 1 :: int) OR computeSZX (BlockSize blk)"
  have low: "0 \<le> ?low \<and> ?low < 16 \<and> 2 ^ nat ((?low AND 7) + 4) = BlockSize blk \<and>
      (drop_bit 3 (?low AND 8) \<noteq> 0) = MoreBlocks blk"
    using assms unfolding legal_block_def
    by (elim conjE insertE emptyE; cases "MoreBlocks blk") (simp_all add: computeSZX_sizes)
  have "go_int (push_bit 4 (BlockNumber blk)) = push_bit 4 (BlockNumber blk)"
    using assms by (intro go_int_id) (auto simp: legal_block_def push_bit_eq_mult)
  moreover have "\<not> (BlockSize blk > 1024 \<or> BlockSize blk \<le> 0)"
    using assms by (auto simp: legal_block_def)
  ultimately have "ToInt blk = push_bit 4 (BlockNumber blk) OR ?low"
    by (simp only: ToInt_def Let_def or.assoc if_False)
  then have "ToInt blk = 16 * BlockNumber blk + ?low"
    using push4_or_add low by simp
  then show thesis using low that by blast
qed

lemma newBlockFromInt_add:
  "0 \<le> low \<Longrightarrow> low < 16 \<Longrightarrow> newBlockFromInt (16 * num + low) =
    \<lparr>BlockNumber = num, MoreBlocks = drop_bit 3 (low AND 8) \<noteq> 0, BlockSize = 2 ^ nat ((low AND 7) + 4)\<rparr>"
  by (simp add: newBlockFromInt_def Let_def and_low_nibble drop_bit_eq_div)

lemma newBlockFromInt_ToInt: "legal_block blk \<Longrightarrow> newBlockFromInt (ToInt blk) = blk"
  by (rule ToInt_legal [of blk]) (simp_all add: newBlockFromInt_add)

lemma ToInt_range: "legal_block blk \<Longrightarrow> 0 \<le> ToInt blk \<and> ToInt blk < 2 ^ 32"
  by (rule ToInt_legal [of blk]) (simp_all add: legal_block_def)

text \<open>So does a descriptor sent as an option: the reader decodes it to 32 bits.\<close>

lemma decoded_block_option:
  assumes "legal_block blk" "c \<in> set int_option_codes"
  shows "decoded_option (NewOption c (VInt (ToInt blk))) = Some (NewOption c (VUint32 (word_of_int (ToInt blk))))"
    and "newBlockFromInt (IntValue (NewOption c (VUint32 (word_of_int (ToInt blk))))) = blk"
proof -
  show "decoded_option (NewOption c (VInt (ToInt blk))) = Some (NewOption c (VUint32 (word_of_int (ToInt blk))))"
    using assms(2) by (simp add: decoded_option_def decoded_value_def valueToBytes_def)
  have "uint (word_of_int (ToInt blk) :: 32 word) = ToInt blk"
    using ToInt_range [OF assms(1)] by (simp add: uint_word_of_int_eq take_bit_int_eq_self)
  then show "newBlockFromInt (IntValue (NewOption c (VUint32 (word_of_int (ToInt blk))))) = blk"
    using newBlockFromInt_ToInt [OF assms(1)] by (simp add: IntValue_def)
qed

subsection \<open>Segmentation\<close>

text \<open>
  \<open>stateSend\<close>. The code spells \<open>lenght\<close>. The fields count bytes and blocks and never
  become negative, since \<open>start\<close> only moves to \<open>stop\<close>.
\<close>

record state_send =
  lenght :: nat
  start :: nat
  stop :: nat
  nextNumBlock :: int
  blockSize :: nat
  windowsize :: int
  origMessage :: coap_msg
  spayload :: bytes

definition newBlockingMessage ::
    "coap_msg \<Rightarrow> bytes option \<Rightarrow> bytes \<Rightarrow> option_code \<Rightarrow> int \<Rightarrow> int \<Rightarrow> int \<Rightarrow> bool \<Rightarrow> id_source
      \<Rightarrow> coap_msg \<times> id_source" where
  "newBlockingMessage orig recipient frame optionBlock blockNum bsize windowSize isMore g =
    (let (m, g1) = NewCoAPMessage CON (MCode orig) g;
         m = (if GetScheme orig = COAPS_SCHEME then SetSchemeCOAPS m else m);
         m = AddOption m OptionSelectiveRepeatWindowSize (VInt windowSize);
         m = m\<lparr>Payload := Some (BytesPayload frame)\<rparr>;
         m = SetURIPath m (GetURIPath orig);
         m = m\<lparr>Token := Token orig\<rparr>;
         m = m\<lparr>AddChecksumOnSend := AddChecksumOnSend orig\<rparr>;
         m = AddOptions m (GetOptions orig OptionURIQuery);
         b = newBlock isMore blockNum bsize;
         m = AddOption m optionBlock (VInt (ToInt b));
         m = m\<lparr>Recipient := recipient\<rparr>
     in (m\<lparr>ProxyAddr := ProxyAddr orig\<rparr>, g1))"

definition constructNextBlock ::
    "option_code \<Rightarrow> state_send \<Rightarrow> id_source \<Rightarrow> (coap_msg \<times> bool) \<times> state_send \<times> id_source" where
  "constructNextBlock blockType s g =
    (let s = s\<lparr>stop := start s + blockSize s\<rparr>;
         s = (if stop s > lenght s then s\<lparr>stop := lenght s\<rparr> else s);
         blockbyte = take (stop s - start s) (drop (start s) (spayload s));
         isMore = stop s < lenght s;
         (blockMessage, g) = newBlockingMessage (origMessage s) (Recipient (origMessage s)) blockbyte
            blockType (nextNumBlock s) (int (blockSize s)) (windowsize s) isMore g;
         s = s\<lparr>nextNumBlock := nextNumBlock s + 1\<rparr>;
         s = s\<lparr>start := stop s\<rparr>;
         blockMessage = CloneOptions blockMessage (origMessage s) [OptionProxyURI, OptionProxySecurityID];
         blockMessage = blockMessage\<lparr>ProxyAddr := ProxyAddr (origMessage s)\<rparr>
     in ((blockMessage, \<not> isMore), s, g))"

text \<open>
  The loop that fills \<open>packets\<close>. It does not end when \<open>blockSize\<close> is 0; \<open>None\<close> stands
  for that.
\<close>

partial_function (option) construct_blocks ::
    "option_code \<Rightarrow> state_send \<Rightarrow> id_source \<Rightarrow> (coap_msg list \<times> id_source) option" where
  "construct_blocks blockType s g =
    (let ((blockMessage, fin), s, g) = constructNextBlock blockType s g
     in if fin then Some ([blockMessage], g)
        else Option.bind (construct_blocks blockType s g)
               (\<lambda>(msgs, g). Some (blockMessage # msgs, g)))"

text \<open>Code equations that unfold the loop only when the next block is known.\<close>

definition blocks_from ::
    "option_code \<Rightarrow> (coap_msg \<times> bool) \<times> state_send \<times> id_source \<Rightarrow> (coap_msg list \<times> id_source) option" where
  "blocks_from blockType = (\<lambda>((blockMessage, fin), s, g).
     if fin then Some ([blockMessage], g)
     else Option.bind (construct_blocks blockType s g) (\<lambda>(msgs, g). Some (blockMessage # msgs, g)))"

lemma blocks_from_code [code]:
  "blocks_from bt ((b, True), s, g) = Some ([b], g)"
  "blocks_from bt ((b, False), s, g) = Option.bind (construct_blocks bt s g) (\<lambda>(msgs, g). Some (b # msgs, g))"
  by (simp_all add: blocks_from_def)

lemma construct_blocks_code [code]:
  "construct_blocks bt s g = blocks_from bt (constructNextBlock bt s g)"
  by (simp add: construct_blocks.simps [of bt s g] blocks_from_def Let_def split_beta)

definition new_state_send :: "coap_msg \<Rightarrow> state_send" where
  "new_state_send m =
    (let p = (case Payload m of Some p \<Rightarrow> Bytes p | None \<Rightarrow> []);
         numblocks = (int (length p) + 1023) div 1024
     in \<lparr>lenght = length p, start = 0, stop = 0, nextNumBlock = 0, blockSize = MAX_PAYLOAD_SIZE,
         windowsize = (if numblocks < DEFAULT_WINDOW_SIZE then numblocks else DEFAULT_WINDOW_SIZE),
         origMessage = m, spayload = p\<rparr>)"

subsection \<open>What a block message carries\<close>

lemma AddOption_fields [simp]:
  "MType (AddOption m c v) = MType m" "MCode (AddOption m c v) = MCode m"
  "Payload (AddOption m c v) = Payload m" "Token (AddOption m c v) = Token m"
  "MessageID (AddOption m c v) = MessageID m" "Recipient (AddOption m c v) = Recipient m"
  "ProxyAddr (AddOption m c v) = ProxyAddr m" "Sender (AddOption m c v) = Sender m"
  "AddChecksumOnSend (AddOption m c v) = AddChecksumOnSend m"
  by (simp_all add: AddOption_opts)

lemma AddOptions_fields [simp]:
  "MType (AddOptions m os) = MType m" "MCode (AddOptions m os) = MCode m"
  "Payload (AddOptions m os) = Payload m" "Token (AddOptions m os) = Token m"
  "MessageID (AddOptions m os) = MessageID m" "Recipient (AddOptions m os) = Recipient m"
  "ProxyAddr (AddOptions m os) = ProxyAddr m" "Sender (AddOptions m os) = Sender m"
  "AddChecksumOnSend (AddOptions m os) = AddChecksumOnSend m"
  by (induction m os rule: AddOptions.induct) simp_all

lemma CloneOptions_fields [simp]:
  "MType (CloneOptions m cm cs) = MType m" "MCode (CloneOptions m cm cs) = MCode m"
  "Payload (CloneOptions m cm cs) = Payload m" "Token (CloneOptions m cm cs) = Token m"
  "MessageID (CloneOptions m cm cs) = MessageID m" "Recipient (CloneOptions m cm cs) = Recipient m"
  "ProxyAddr (CloneOptions m cm cs) = ProxyAddr m" "Sender (CloneOptions m cm cs) = Sender m"
  "AddChecksumOnSend (CloneOptions m cm cs) = AddChecksumOnSend m"
  by (induction m cm cs rule: CloneOptions.induct) simp_all

lemma SetURIPath_fields [simp]:
  "MType (SetURIPath m p) = MType m" "MCode (SetURIPath m p) = MCode m"
  "Payload (SetURIPath m p) = Payload m" "Token (SetURIPath m p) = Token m"
  "MessageID (SetURIPath m p) = MessageID m" "Recipient (SetURIPath m p) = Recipient m"
  "ProxyAddr (SetURIPath m p) = ProxyAddr m" "Sender (SetURIPath m p) = Sender m"
  "AddChecksumOnSend (SetURIPath m p) = AddChecksumOnSend m"
proof -
  have "MType (add_path_parts m ps) = MType m \<and> MCode (add_path_parts m ps) = MCode m \<and>
    Payload (add_path_parts m ps) = Payload m \<and> Token (add_path_parts m ps) = Token m \<and>
    MessageID (add_path_parts m ps) = MessageID m \<and> Recipient (add_path_parts m ps) = Recipient m \<and>
    ProxyAddr (add_path_parts m ps) = ProxyAddr m \<and> Sender (add_path_parts m ps) = Sender m \<and>
    AddChecksumOnSend (add_path_parts m ps) = AddChecksumOnSend m" for ps
    by (induction m ps rule: add_path_parts.induct) simp_all
  then show
    "MType (SetURIPath m p) = MType m" "MCode (SetURIPath m p) = MCode m"
    "Payload (SetURIPath m p) = Payload m" "Token (SetURIPath m p) = Token m"
    "MessageID (SetURIPath m p) = MessageID m" "Recipient (SetURIPath m p) = Recipient m"
    "ProxyAddr (SetURIPath m p) = ProxyAddr m" "Sender (SetURIPath m p) = Sender m"
    "AddChecksumOnSend (SetURIPath m p) = AddChecksumOnSend m"
    by (simp_all add: SetURIPath_def)
qed

lemma GetOptions_AddOptions_other:
  "\<forall>opt \<in> set opts. OCode opt \<noteq> c \<Longrightarrow> GetOptions (AddOptions m opts) c = GetOptions m c"
  by (induction m opts rule: AddOptions.induct) (simp_all add: GetOptions_AddOption)

lemma GetOptions_code: "\<forall>opt \<in> set (GetOptions m d). OCode opt = d"
  by (simp add: GetOptions_def)

lemma GetOptions_AddOptions_code:
  "c \<noteq> d \<Longrightarrow> GetOptions (AddOptions m (GetOptions cm d)) c = GetOptions m c"
  using GetOptions_code by (intro GetOptions_AddOptions_other) blast

lemma GetOptions_fields [simp]:
  "GetOptions (m\<lparr>ProxyAddr := a\<rparr>) c = GetOptions m c"
  "GetOptions (m\<lparr>Payload := p\<rparr>) c = GetOptions m c"
  "GetOptions (m\<lparr>MessageID := i\<rparr>) c = GetOptions m c"
  "GetOptions (m\<lparr>Token := t\<rparr>) c = GetOptions m c"
  "GetOptions (m\<lparr>Recipient := r\<rparr>) c = GetOptions m c"
  "GetOptions (m\<lparr>MCode := k\<rparr>) c = GetOptions m c"
  "GetOptions (m\<lparr>AddChecksumOnSend := b\<rparr>) c = GetOptions m c"
  by (simp_all add: GetOptions_def)

lemma GetOptions_CloneOptions_other:
  "c \<notin> set cs \<Longrightarrow> GetOptions (CloneOptions m cm cs) c = GetOptions m c"
  by (induction m cm cs rule: CloneOptions.induct)
     (simp_all add: GetOptions_AddOptions_code)

lemma NewCoAPMessage_fields:
  "MType (fst (NewCoAPMessage t c g)) = t" "MCode (fst (NewCoAPMessage t c g)) = c"
  "Options (fst (NewCoAPMessage t c g)) = []"
  by (simp_all add: NewCoAPMessage_def zero_msg_def split_beta)

definition frame :: "coap_msg \<Rightarrow> bytes" where
  "frame m = (case Payload m of None \<Rightarrow> [] | Some p \<Rightarrow> Bytes p)"

lemma frame_fields [simp]:
  "frame (AddOptions m opts) = frame m" "frame (CloneOptions m cm cs) = frame m"
  "frame (m\<lparr>ProxyAddr := a\<rparr>) = frame m"
  by (simp_all add: frame_def)

lemma GetScheme_cong:
  "GetOptions m OptionURIScheme = GetOptions m' OptionURIScheme \<Longrightarrow> GetScheme m = GetScheme m'"
  by (simp add: GetScheme_def GetOption_GetOptions)

lemma GetScheme_cases: "GetScheme m = COAPS_SCHEME \<or> GetScheme m = COAP_SCHEME"
  by (simp add: GetScheme_def split: option.split)

lemma GetOptions_SetURIPath_other:
  "c \<noteq> OptionURIPath \<Longrightarrow> GetOptions (SetURIPath m p) c = GetOptions m c"
  unfolding SetURIPath_def by (rule add_path_parts_other)

lemma GetScheme_clone:
  "GetScheme ((AddOptions (AddOptions m (GetOptions o1 OptionProxyURI)) (GetOptions o2 OptionProxySecurityID))\<lparr>ProxyAddr := a\<rparr>)
     = GetScheme m"
  by (rule GetScheme_cong) (simp add: GetOptions_AddOptions_code)

lemma GetScheme_SetSchemeCOAPS: "GetScheme (SetSchemeCOAPS m) = COAPS_SCHEME"
  by (simp add: GetScheme_def SetSchemeCOAPS_def GetOption_GetOptions GetOptions_AddOption
      repeatable_codes_def IntValue_def)

lemma GetScheme_new: "GetScheme (fst (NewCoAPMessage t c g)) = COAP_SCHEME"
  by (simp add: GetScheme_def GetOption_def NewCoAPMessage_fields)

lemma newBlockingMessage_scheme:
  assumes "opt \<noteq> OptionURIScheme"
  shows "GetScheme (fst (newBlockingMessage orig rcp fr opt n sz w isMore g)) = GetScheme orig"
proof -
  let ?m0 = "fst (NewCoAPMessage CON (MCode orig) g)"
  let ?m1 = "if GetScheme orig = COAPS_SCHEME then SetSchemeCOAPS ?m0 else ?m0"
  have "GetOptions (fst (newBlockingMessage orig rcp fr opt n sz w isMore g)) OptionURIScheme
      = GetOptions ?m1 OptionURIScheme"
    using assms by (simp add: newBlockingMessage_def Let_def split_beta GetOptions_AddOption
        GetOptions_AddOptions_code GetOptions_SetURIPath_other [unfolded option_defs])
  then have "GetScheme (fst (newBlockingMessage orig rcp fr opt n sz w isMore g)) = GetScheme ?m1"
    by (rule GetScheme_cong)
  also have "\<dots> = GetScheme orig"
    using GetScheme_cases [of orig] GetScheme_SetSchemeCOAPS [of ?m0] GetScheme_new by auto
  finally show ?thesis .
qed

lemma newBlockingMessage_fields:
  fixes orig rcp fr opt n sz w isMore g
  defines "b \<equiv> fst (newBlockingMessage orig rcp fr opt n sz w isMore g)"
  shows "MType b = CON" "MCode b = MCode orig" "Token b = Token orig" "frame b = fr"
    "Recipient b = rcp" "ProxyAddr b = ProxyAddr orig" "AddChecksumOnSend b = AddChecksumOnSend orig"
    "opt \<notin> set repeatable_codes \<Longrightarrow>
      GetOptions b opt = [NewOption opt (VInt (ToInt (newBlock isMore n sz)))]"
  unfolding b_def newBlockingMessage_def Let_def
  by (simp_all add: split_beta frame_def SetSchemeCOAPS_def NewCoAPMessage_fields
      GetOptions_AddOption GetOptions_def opts_with_add AddOption_opts)


subsection \<open>The blocks of a payload\<close>

text \<open>The reference: consecutive pieces of \<open>n\<close> bytes, the last one possibly shorter.\<close>

function chunks :: "nat \<Rightarrow> bytes \<Rightarrow> bytes list" where
  "chunks n xs = (if n = 0 \<or> length xs \<le> n then [xs] else take n xs # chunks n (drop n xs))"
  by pat_completeness auto
termination by (relation "measure (\<lambda>(n, xs). length xs)") auto

declare chunks.simps [simp del]

lemma concat_chunks: "concat (chunks n xs) = xs"
proof (induction n xs rule: chunks.induct)
  case (1 n xs)
  then show ?case by (cases "n = 0 \<or> length xs \<le> n") (simp_all add: chunks.simps [of n xs])
qed

lemma length_chunks: "n > 0 \<Longrightarrow> length (chunks n xs) = max 1 ((length xs + (n - 1)) div n)"
proof (induction n xs rule: chunks.induct)
  case (1 n xs)
  show ?case
  proof (cases "length xs \<le> n")
    case True
    then have "(length xs + (n - 1)) div n < 2"
      using 1(2) by (intro less_mult_imp_div_less) simp
    with True show ?thesis by (simp add: chunks.simps [of n xs])
  next
    case False
    then have "(length xs + (n - 1)) div n = Suc ((length xs - n + (n - 1)) div n)"
      using 1(2) by (simp add: div_if)
    moreover have "(length xs - n + (n - 1)) div n \<ge> 1"
      using False 1(2) by (simp add: div_greater_zero_iff Suc_le_eq)
    moreover have "length (chunks n xs) = Suc (length (chunks n (drop n xs)))"
      using False 1(2) by (subst chunks.simps) simp
    ultimately show ?thesis using 1 False by simp
  qed
qed

lemma chunks_not_Nil [simp]: "chunks n xs \<noteq> []"
  by (subst chunks.simps) simp

lemma nth_chunks: "i < length (chunks n xs) \<Longrightarrow> n > 0 \<Longrightarrow> chunks n xs ! i = take n (drop (n * i) xs)"
proof (induction n xs arbitrary: i rule: chunks.induct)
  case (1 n xs)
  show ?case
  proof (cases "length xs \<le> n")
    case True
    with 1(2,3) show ?thesis by (simp add: chunks.simps [of n xs])
  next
    case False
    with 1 show ?thesis by (cases i) (simp_all add: chunks.simps [of n xs] add.commute)
  qed
qed

text \<open>What the loop makes of the original message: the \<open>i\<close>-th block, with the more flag on
  all but the last.\<close>

definition block_of :: "option_code \<Rightarrow> coap_msg \<Rightarrow> bool \<Rightarrow> int \<Rightarrow> nat \<Rightarrow> coap_msg \<Rightarrow> bool" where
  "block_of bt orig isMore i bs m \<longleftrightarrow>
     MType m = CON \<and> MCode m = MCode orig \<and> Token m = Token orig \<and>
     Recipient m = Recipient orig \<and> ProxyAddr m = ProxyAddr orig \<and>
     AddChecksumOnSend m = AddChecksumOnSend orig \<and> GetScheme m = GetScheme orig \<and>
     GetOptions m bt = [NewOption bt (VInt (ToInt (newBlock isMore i (int bs))))]"

lemma constructNextBlock_step:
  assumes "bt \<notin> set repeatable_codes" "bt \<notin> {OptionProxyURI, OptionProxySecurityID, OptionURIScheme}"
    and "lenght s = length (spayload s)" "start s \<le> lenght s"
  obtains b s' g' where
    "constructNextBlock bt s g = ((b, \<not> start s + blockSize s < lenght s), s', g')"
    "block_of bt (origMessage s) (start s + blockSize s < lenght s) (nextNumBlock s) (blockSize s) b"
    "frame b = take (blockSize s) (drop (start s) (spayload s))"
    "start s' = min (start s + blockSize s) (lenght s)" "nextNumBlock s' = nextNumBlock s + 1"
    "lenght s' = lenght s" "spayload s' = spayload s" "blockSize s' = blockSize s"
    "origMessage s' = origMessage s"
proof -
  let ?c = "constructNextBlock bt s g"
  have min: "(if lenght s < start s + blockSize s then lenght s else start s + blockSize s)
      = min (start s + blockSize s) (lenght s)" by simp
  have take: "take (min (start s + blockSize s) (lenght s) - start s) (drop (start s) (spayload s))
      = take (blockSize s) (drop (start s) (spayload s))"
    using assms(3,4) by (cases "start s + blockSize s \<le> lenght s") (simp_all add: min_def)
  have lt: "min (start s + blockSize s) (lenght s) < lenght s \<longleftrightarrow> start s + blockSize s < lenght s"
    by auto
  show thesis
  proof (rule that [of "fst (fst ?c)" "fst (snd ?c)" "snd (snd ?c)"])
    show "?c = ((fst (fst ?c), \<not> start s + blockSize s < lenght s), fst (snd ?c), snd (snd ?c))"
      by (auto simp: constructNextBlock_def Let_def split_beta)
    show "block_of bt (origMessage s) (start s + blockSize s < lenght s) (nextNumBlock s) (blockSize s) (fst (fst ?c))"
      using assms(1,2)
      by (simp add: constructNextBlock_def Let_def split_beta block_of_def newBlockingMessage_fields
          GetOptions_AddOptions_code)
        (simp add: GetScheme_clone [unfolded option_defs] newBlockingMessage_scheme)
    show "frame (fst (fst ?c)) = take (blockSize s) (drop (start s) (spayload s))"
      using take by (auto simp: constructNextBlock_def Let_def split_beta newBlockingMessage_fields)
  qed (auto simp: constructNextBlock_def Let_def split_beta)
qed


lemma construct_blocks_chunks:
  assumes "bt \<notin> set repeatable_codes" "bt \<notin> {OptionProxyURI, OptionProxySecurityID, OptionURIScheme}"
    and "lenght s = length (spayload s)" "start s \<le> lenght s" "blockSize s > 0"
  shows "\<exists>msgs g'. construct_blocks bt s g = Some (msgs, g') \<and>
    map frame msgs = chunks (blockSize s) (drop (start s) (spayload s)) \<and>
    (\<forall>i < length msgs. block_of bt (origMessage s) (Suc i < length msgs) (nextNumBlock s + int i)
       (blockSize s) (msgs ! i))"
  using assms(3-5)
proof (induction "lenght s - start s" arbitrary: s g rule: less_induct)
  case less
  let ?more = "start s + blockSize s < lenght s"
  obtain b s' g' where step:
    "constructNextBlock bt s g = ((b, \<not> ?more), s', g')"
    "block_of bt (origMessage s) ?more (nextNumBlock s) (blockSize s) b"
    "frame b = take (blockSize s) (drop (start s) (spayload s))"
    "start s' = min (start s + blockSize s) (lenght s)" "nextNumBlock s' = nextNumBlock s + 1"
    and same: "lenght s' = lenght s" "spayload s' = spayload s" "blockSize s' = blockSize s"
    "origMessage s' = origMessage s"
    using constructNextBlock_step [OF assms(1,2) less(2,3)] by blast
  show ?case
  proof (cases ?more)
    case False
    then have "construct_blocks bt s g = Some ([b], g')"
      using step(1) by (simp add: construct_blocks.simps)
    with False step(2,3) less(2) show ?thesis
      by (intro exI [of _ "[b]"] exI [of _ g']) (simp add: chunks.simps le_diff_conv)
  next
    case True
    have "start s' = start s + blockSize s" using step(4) True by simp
    moreover have "lenght s - (start s + blockSize s) < lenght s - start s"
      using True less(4) by linarith
    ultimately obtain msgs g'' where rec: "construct_blocks bt s' g' = Some (msgs, g'')"
      "map frame msgs = chunks (blockSize s) (drop (start s + blockSize s) (spayload s))"
      "\<forall>i < length msgs. block_of bt (origMessage s) (Suc i < length msgs)
         (nextNumBlock s + 1 + int i) (blockSize s) (msgs ! i)"
      using less(1) [of s' g'] less(2-4) same step(5) True by (auto simp: less_diff_conv)
    have "msgs \<noteq> []" using rec(2) by (metis chunks_not_Nil list.map_disc_iff)
    have blocks: "block_of bt (origMessage s) (Suc i < length (b # msgs)) (nextNumBlock s + int i)
        (blockSize s) ((b # msgs) ! i)" if "i < length (b # msgs)" for i
      using that step(2) True rec(3) \<open>msgs \<noteq> []\<close>
      by (cases i) (auto simp: algebra_simps)
    have "map frame (b # msgs) = chunks (blockSize s) (drop (start s) (spayload s))"
      using rec(2) step(3) True less(2,4) by (subst chunks.simps) (simp add: add.commute le_diff_conv)
    moreover have "construct_blocks bt s g = Some (b # msgs, g'')"
      using step(1) True rec(1) by (simp add: construct_blocks.simps)
    ultimately show ?thesis using blocks by blast
  qed
qed

subsection \<open>Properties\<close>

text \<open>A block descriptor of a legal size and a number below 2^28 survives its encoding in
  an option value and the transmission of the option, which arrives as 32 bits.\<close>

theorem block_descriptor_roundtrip:
  assumes "legal_block blk" "c \<in> {OptionBlock1, OptionBlock2}"
  shows "newBlockFromInt (ToInt blk) = blk \<and> 0 \<le> ToInt blk \<and> ToInt blk < 2 ^ 32 \<and>
    (\<exists>opt. decoded_option (NewOption c (VInt (ToInt blk))) = Some opt \<and>
      newBlockFromInt (IntValue opt) = blk)"
proof -
  have "c \<in> set int_option_codes" using assms(2) by (auto simp: int_option_codes_def)
  then show ?thesis
    using decoded_block_option [OF assms(1)] newBlockFromInt_ToInt [OF assms(1)] ToInt_range [OF assms(1)]
    by blast
qed

theorem block_descriptor_roundtrip_witness:
  "newBlockFromInt (ToInt (newBlock True 77 1024)) = newBlock True 77 1024"
  using block_descriptor_roundtrip [of "newBlock True 77 1024" OptionBlock1]
  by (simp add: legal_block_def newBlock_def)

definition get_block :: "option_code \<Rightarrow> coap_msg \<Rightarrow> block option" where
  "get_block bt m = map_option (\<lambda>opt. newBlockFromInt (IntValue opt)) (GetOption m bt)"

lemma get_block_cases: "get_block OptionBlock1 = GetBlock1" "get_block OptionBlock2 = GetBlock2"
  unfolding get_block_def GetBlock1_def GetBlock2_def by (rule refl)+

lemma block_of_get_block:
  assumes "block_of bt orig isMore i 1024 m" "0 \<le> i" "i < 2 ^ 28"
  shows "get_block bt m = Some \<lparr>BlockNumber = i, MoreBlocks = isMore, BlockSize = 1024\<rparr>"
proof -
  have "newBlockFromInt (ToInt (newBlock isMore i 1024)) = newBlock isMore i 1024"
    using assms by (intro newBlockFromInt_ToInt) (simp add: legal_block_def newBlock_def)
  then show ?thesis
    using assms(1) by (simp add: block_of_def get_block_def GetOption_GetOptions IntValue_def newBlock_def)
qed

lemma segmented:
  assumes "bt = OptionBlock1 \<or> bt = OptionBlock2" "length (frame m) < 2 ^ 38"
  shows "\<exists>msgs g'. construct_blocks bt (new_state_send m) g = Some (msgs, g') \<and>
    concat (map frame msgs) = frame m \<and>
    length msgs = max 1 ((length (frame m) + 1023) div 1024) \<and>
    (\<forall>i < length msgs. frame (msgs ! i) = take 1024 (drop (1024 * i) (frame m)) \<and>
       MType (msgs ! i) = CON \<and> MCode (msgs ! i) = MCode m \<and> Token (msgs ! i) = Token m \<and>
       Recipient (msgs ! i) = Recipient m \<and> ProxyAddr (msgs ! i) = ProxyAddr m \<and>
       GetScheme (msgs ! i) = GetScheme m \<and>
       get_block bt (msgs ! i) =
         Some \<lparr>BlockNumber = int i, MoreBlocks = Suc i < length msgs, BlockSize = 1024\<rparr>)"
proof -
  let ?s = "new_state_send m"
  have s: "lenght ?s = length (spayload ?s)" "start ?s \<le> lenght ?s" "blockSize ?s = 1024"
    "spayload ?s = frame m" "start ?s = 0" "nextNumBlock ?s = 0" "origMessage ?s = m"
    by (simp_all add: new_state_send_def Let_def frame_def MAX_PAYLOAD_SIZE_def)
  have bt: "bt \<notin> set repeatable_codes" "bt \<notin> {OptionProxyURI, OptionProxySecurityID, OptionURIScheme}"
    using assms(1) by (auto simp: repeatable_codes_def)
  obtain msgs g' where r: "construct_blocks bt ?s g = Some (msgs, g')"
    "map frame msgs = chunks 1024 (frame m)"
    "\<forall>i < length msgs. block_of bt m (Suc i < length msgs) (int i) 1024 (msgs ! i)"
    using construct_blocks_chunks [OF bt s(1,2)] s by (metis add_0 drop_0 zero_less_numeral)
  have len: "length msgs = max 1 ((length (frame m) + 1023) div 1024)"
    using length_chunks [of 1024 "frame m"] arg_cong [OF r(2), of length] by simp
  then have "int (length msgs) \<le> 2 ^ 28" using assms(2) by simp
  then have "get_block bt (msgs ! i) = Some \<lparr>BlockNumber = int i, MoreBlocks = Suc i < length msgs, BlockSize = 1024\<rparr>"
    if "i < length msgs" for i
    using that r(3) by (intro block_of_get_block [of _ m]) auto
  moreover have "frame (msgs ! i) = take 1024 (drop (1024 * i) (frame m))" if "i < length msgs" for i
    using that r(2) nth_chunks [of i 1024 "frame m"] by (metis length_map nth_map zero_less_numeral)
  ultimately show ?thesis
    using r len by (intro exI [of _ msgs] exI [of _ g']) (simp add: concat_chunks block_of_def)
qed

text \<open>C5: Segmentation of a payload returns for every payload. The blocks in order concatenate
  to the payload; there is one per started 1024 bytes (one for the empty payload); block \<open>i\<close>
  holds the bytes from \<open>1024 i\<close> on, is a CON with the token, code, scheme and addressing of
  the original, and its descriptor reads back as number \<open>i\<close>, size 1024, and more exactly on
  all but the last.\<close>

theorem segmentation:
  assumes "bt = OptionBlock1 \<or> bt = OptionBlock2" "length (frame m) < 2 ^ 38"
  shows "\<exists>msgs g'. construct_blocks bt (new_state_send m) g = Some (msgs, g') \<and>
    concat (map frame msgs) = frame m \<and>
    length msgs = max 1 ((length (frame m) + 1023) div 1024) \<and>
    (\<forall>i < length msgs. frame (msgs ! i) = take 1024 (drop (1024 * i) (frame m)) \<and>
       MType (msgs ! i) = CON \<and> MCode (msgs ! i) = MCode m \<and> Token (msgs ! i) = Token m \<and>
       Recipient (msgs ! i) = Recipient m \<and> ProxyAddr (msgs ! i) = ProxyAddr m \<and>
       GetScheme (msgs ! i) = GetScheme m \<and>
       get_block bt (msgs ! i) =
         Some \<lparr>BlockNumber = int i, MoreBlocks = Suc i < length msgs, BlockSize = 1024\<rparr>)"
  by (rule segmented [OF assms])

theorem segmentation_witness:
  "\<exists>msgs g'. construct_blocks OptionBlock2
      (new_state_send (zero_msg\<lparr>Payload := Some (BytesPayload (replicate 2500 7))\<rparr>))
      \<lparr>currentMessageID = 0, rand_stream = (\<lambda>i. of_nat i), rand_pos = 0\<rparr> = Some (msgs, g') \<and>
    concat (map frame msgs) = replicate 2500 7 \<and> length msgs = 3"
proof -
  let ?m = "zero_msg\<lparr>Payload := Some (BytesPayload (replicate 2500 7))\<rparr>"
  have f: "frame ?m = replicate 2500 7" by (simp add: frame_def)
  then have "length (frame ?m) < 2 ^ 38" by simp
  note seg = segmentation [OF disjI2 [OF refl] this, of "\<lparr>currentMessageID = 0, rand_stream = (\<lambda>i. of_nat i), rand_pos = 0\<rparr>"]
  have "max 1 ((length (replicate 2500 (7 :: byte)) + 1023) div 1024) = 3" by simp
  with seg show ?thesis unfolding f by metis
qed

end
