(* ===== verification/Secure_Message.thy ===== *)
theory Secure_Message
  imports Coala_Env Coap_Block
begin

text \<open>
  What encryption keeps and hides of a message: the receiver of a secured message that holds
  the matching session gets back the payload, the path and the query, and the message in
  transit carries none of them in clear.
\<close>

subsection \<open>The URI survives \<open>url.Parse\<close>\<close>

text \<open>Bytes of a path segment that neither end a path nor start an escape.\<close>

definition plain_segment :: "bytes \<Rightarrow> bool" where
  "plain_segment p \<longleftrightarrow> p \<noteq> [] \<and> list_all (\<lambda>b. b \<notin> {47, 35, 37, 63, 127} \<and> 32 \<le> b) p"

definition plain_host :: "bytes \<Rightarrow> bool" where
  "plain_host h \<longleftrightarrow> list_all (\<lambda>b. b \<notin> {47, 35, 63, 127} \<and> 32 \<le> b) h \<and> parseAuthority h \<noteq> None"

definition query_text :: "bytes \<times> bytes \<Rightarrow> bytes" where
  "query_text = (\<lambda>(k, v). k @ eqsign # v)"

text \<open>A request whose path segments are plain and whose query is a list of pairs with
  distinct non-empty keys.\<close>

definition plain_request :: "coap_msg \<Rightarrow> (bytes \<times> bytes) list \<Rightarrow> bool" where
  "plain_request m kvs \<longleftrightarrow> list_all plain_segment (GetOptionsAsString m OptionURIPath) \<and>
     GetURIQueryArray m = map query_text kvs \<and> distinct (map fst kvs) \<and>
     list_all (\<lambda>(k, v). k \<noteq> [] \<and> eqsign \<notin> set k) kvs"

lemma unreserved_not_special:
  "unreserved b \<Longrightarrow> b \<noteq> 47 \<and> b \<noteq> 35 \<and> b \<noteq> 63 \<and> b \<noteq> 127 \<and> 32 \<le> b \<and> b \<noteq> 38 \<and> b \<noteq> 59 \<and> b \<noteq> 61"
  by (auto simp: unreserved_def elim: order_trans [rotated])

lemma QueryEscape_bytes:
  "c \<in> set (QueryEscape s) \<Longrightarrow> c \<noteq> 47 \<and> c \<noteq> 35 \<and> c \<noteq> 63 \<and> c \<noteq> 127 \<and> 32 \<le> c \<and> c \<noteq> 38 \<and> c \<noteq> 59 \<and> c \<noteq> 61"
  using QueryEscape_safe [of c s] unreserved_not_special [of c] by auto

definition query_pair :: "bytes \<times> bytes \<Rightarrow> bytes" where
  "query_pair = (\<lambda>(k, v). QueryEscape k @ eqsign # QueryEscape v)"

lemma parseOneQuery_text:
  "k \<noteq> [] \<Longrightarrow> eqsign \<notin> set k \<Longrightarrow> parseOneQuery (query_text (k, v)) = query_pair (k, v)"
  by (simp add: parseOneQuery_def query_text_def query_pair_def Index_append)

lemma query_pair_bytes:
  "c \<in> set (query_pair kv) \<Longrightarrow> c \<noteq> 35 \<and> c \<noteq> 63 \<and> c \<noteq> 127 \<and> 32 \<le> c \<and> c \<noteq> 38 \<and> c \<noteq> 59"
  using QueryEscape_bytes by (fastforce simp: query_pair_def split: prod.splits)

lemma Join_bytes: "c \<in> set (Join sep ps) \<Longrightarrow> c = sep \<or> (\<exists>p \<in> set ps. c \<in> set p)"
  by (induction sep ps rule: Join.induct) auto

lemma GetURIQueryString_pairs:
  assumes "plain_request m kvs"
  shows "GetURIQueryString m = Join 38 (map query_pair kvs)"
proof -
  have "GetURIQueryString m = Join 38 (map parseOneQuery (GetURIQueryArray m))"
    by (simp add: GetURIQueryString_def GetURIQueryArray_def comp_def)
  moreover have "map parseOneQuery (map query_text kvs) = map query_pair kvs"
    using assms by (auto simp: plain_request_def list_all_iff parseOneQuery_text)
  ultimately show ?thesis using assms by (metis plain_request_def)
qed

lemma parse_pairs_distinct:
  "distinct (map fst acc @ map fst kvs) \<Longrightarrow>
   parse_pairs (map query_pair kvs) acc = Some (acc @ map (\<lambda>(k, v). (k, [v])) kvs)"
proof (induction kvs arbitrary: acc)
  case (Cons kv kvs)
  obtain k v where kv: "kv = (k, v)" by (cases kv)
  have "59 \<notin> set (query_pair kv)" using query_pair_bytes by blast
  moreover have "Cut eqsign (query_pair kv) = (QueryEscape k, QueryEscape v)"
    unfolding kv query_pair_def prod.case by (rule Cut_append) (use QueryEscape_bytes in blast)
  moreover have "query_pair kv \<noteq> []" by (simp add: kv query_pair_def)
  moreover have "add_value k v acc = acc @ [(k, [v])]"
    using Cons.prems by (auto simp: add_value_def kv)
  ultimately show ?case
    using Cons.IH [of "acc @ [(k, [v])]"] Cons.prems by (simp add: unescape_QueryEscape kv)
qed simp

lemma url_ParseQuery_pairs:
  assumes "distinct (map fst kvs)"
  shows "url_ParseQuery (Join 38 (map query_pair kvs)) = Some (map (\<lambda>(k, v). (k, [v])) kvs)"
proof (cases kvs)
  case (Cons kv rest)
  have "Join 38 (map query_pair kvs) \<noteq> []"
    by (cases rest) (auto simp: Cons query_pair_def split: prod.splits)
  moreover have "Split 38 (Join 38 (map query_pair kvs)) = map query_pair kvs"
    by (rule Split_Join) (auto simp: Cons dest!: query_pair_bytes)
  ultimately show ?thesis
    using parse_pairs_distinct [of "[]" kvs] assms by (simp add: url_ParseQuery_def)
qed (simp add: url_ParseQuery_def)


lemma getScheme_coap:
  "getScheme raw [] (lit ''coap'' @ 58 # rest) = Some (lit ''coap'', rest)"
  "getScheme raw [] (lit ''coaps'' @ 58 # rest) = Some (lit ''coaps'', rest)"
  by (simp_all add: lit_def is_letter_def)

lemma GetSchemeString_cases: "GetSchemeString m = lit ''coap'' \<or> GetSchemeString m = lit ''coaps''"
  by (simp add: GetSchemeString_def split: option.split)

lemma lit_scheme_bytes: "\<forall>c \<in> set (lit ''coap'') \<union> set (lit ''coaps'').
    c \<noteq> 35 \<and> c \<noteq> 63 \<and> c \<noteq> 127 \<and> 32 \<le> c"
  "map to_lower (lit ''coap'') = lit ''coap''" "map to_lower (lit ''coaps'') = lit ''coaps''"
  "lit ''coap'' \<noteq> []" "lit ''coaps'' \<noteq> []" "hd (lit ''coap'') \<noteq> 42" "hd (lit ''coaps'') \<noteq> 42"
  by code_simp+

lemma url_Parse_parts:
  assumes sch: "sch = lit ''coap'' \<or> sch = lit ''coaps''" and host: "plain_host host"
    and path: "\<forall>c \<in> set path. c \<notin> {35, 37, 63, 127} \<and> 32 \<le> c"
    and query: "\<forall>c \<in> set query. c \<notin> {35, 127} \<and> 32 \<le> c"
    and raw: "raw = sch @ [58, slash, slash] @ host @ slash # path @ tail"
    and tail: "(tail = [] \<and> query = []) \<or> tail = 63 # query"
  shows "\<exists>h. url_Parse raw = Some \<lparr>Scheme = sch, Host = h, Path = slash # path, RawQuery = query\<rparr>"
proof -
  have schb: "\<forall>c \<in> set sch. c \<noteq> 35 \<and> c \<noteq> 63 \<and> c \<noteq> 127 \<and> 32 \<le> c" "map to_lower sch = sch"
      "sch \<noteq> []" "hd sch \<noteq> 42"
    using sch lit_scheme_bytes by auto
  have hostb: "\<forall>c \<in> set host. c \<noteq> 47 \<and> c \<noteq> 35 \<and> c \<noteq> 63 \<and> c \<noteq> 127 \<and> 32 \<le> c"
    using host by (auto simp: plain_host_def list_all_iff)
  let ?ok = "\<lambda>c :: byte. c \<noteq> 35 \<and> c \<noteq> 127 \<and> 32 \<le> c"
  have "list_all ?ok sch" "list_all ?ok host" "list_all ?ok path" "list_all ?ok query"
    unfolding list_all_iff using schb(1) hostb path query by blast+
  moreover from this(4) tail have "list_all ?ok tail" by auto
  moreover have "?ok 58" "?ok slash" by simp_all
  ultimately have "list_all ?ok raw"
    unfolding raw by (simp only: list_all_append list.pred_inject simp_thms)
  then have bytes: "\<forall>c \<in> set raw. ?ok c" by (simp only: list_all_iff)
  then have frag: "Cut 35 raw = (raw, [])" by (intro Cut_none) auto
  have ctl: "\<not> has_ctl raw" using bytes by (auto simp: has_ctl_def list_ex_iff)
  have star: "raw \<noteq> [42]" using schb(3,4) unfolding raw by (cases sch) auto
  let ?rest = "[slash, slash] @ host @ slash # path"
  have gs: "getScheme raw [] raw = Some (sch, ?rest @ tail)"
    using sch getScheme_coap [of raw] unfolding raw by auto
  have "63 \<notin> set ?rest" using hostb path by auto
  then have cut: "Cut 63 (?rest @ tail) = (?rest, query)"
    using tail Cut_append [of 63 ?rest query] Cut_none [of 63 ?rest] by auto
  have idx: "Index slash (host @ slash # path) = Some (length host)"
    using hostb by (intro Index_append) auto
  obtain h where h: "parseAuthority host = Some h" using host by (auto simp: plain_host_def)
  have up: "unescape EncPath (slash # path) = Some (slash # path)"
    using path by (intro unescape_path_plain) auto
  have r: "?rest \<noteq> []" "hd ?rest = slash" "take 2 ?rest = [slash, slash]" "drop 2 ?rest = host @ slash # path"
    by simp_all
  have take_drop_host: "take (length host) (host @ slash # path) = host"
    "drop (length host) (host @ slash # path) = slash # path"
    by simp_all
  have "url_parse raw = Some \<lparr>Scheme = sch, Host = h, Path = slash # path, RawQuery = query\<rparr>"
    unfolding url_parse_def if_not_P [OF ctl] if_not_P [OF star] gs option.case prod.case Let_def schb(2) cut
    using schb(3) r by (simp add: idx h up del: unescape.simps)
  then show ?thesis by (simp add: url_Parse_def frag)
qed

lemma path_bytes:
  assumes "list_all plain_segment ps"
  shows "\<forall>c \<in> set (Join slash ps). c \<notin> {35, 37, 63, 127} \<and> 32 \<le> c"
proof
  fix c assume "c \<in> set (Join slash ps)"
  then consider "c = slash" | p where "p \<in> set ps" "c \<in> set p" using Join_bytes by blast
  then show "c \<notin> {35, 37, 63, 127} \<and> 32 \<le> c"
  proof cases
    case 2
    then have "c \<notin> {47, 35, 37, 63, 127} \<and> 32 \<le> c"
      using assms unfolding list_all_iff plain_segment_def by blast
    then show ?thesis by blast
  qed simp
qed

text \<open>The URI of a plain request is parsed back to its path and query.\<close>

lemma url_Parse_GetURI:
  assumes "plain_request m kvs" "plain_host host"
  shows "\<exists>url. url_Parse (GetURI m host) = Some url \<and> Scheme url = GetSchemeString m \<and>
    Path url = GetURIPath m \<and> url_ParseQuery (RawQuery url) = Some (map (\<lambda>(k, v). (k, [v])) kvs)"
proof -
  let ?p = "Join slash (GetOptionsAsString m OptionURIPath)" and ?q = "Join 38 (map query_pair kvs)"
  let ?t = "if length ?q > 0 then 63 # ?q else []"
  have q: "GetURIQueryString m = ?q" using GetURIQueryString_pairs [OF assms(1)] .
  have "c \<notin> {35, 127} \<and> 32 \<le> c" if c: "c \<in> set ?q" for c
  proof -
    consider "c = 38" | kv where "c \<in> set (query_pair kv)"
      using Join_bytes [of c 38 "map query_pair kvs"] c by auto
    then show ?thesis by cases (simp, use query_pair_bytes in blast)
  qed
  then have qb: "\<forall>c \<in> set ?q. c \<notin> {35, 127} \<and> 32 \<le> c" by blast
  have pb: "\<forall>c \<in> set ?p. c \<notin> {35, 37, 63, 127} \<and> 32 \<le> c"
    using assms(1) unfolding plain_request_def by (elim conjE) (rule path_bytes)
  have uri: "GetURI m host = GetSchemeString m @ [58, slash, slash] @ host @ slash # ?p @ ?t"
    by (simp add: GetURI_def Let_def q GetURIPath_def lit_def)
  have t: "(?t = [] \<and> ?q = []) \<or> ?t = 63 # ?q" by simp
  obtain h where
    "url_Parse (GetURI m host) = Some \<lparr>Scheme = GetSchemeString m, Host = h, Path = slash # ?p, RawQuery = ?q\<rparr>"
    using url_Parse_parts [OF GetSchemeString_cases assms(2) pb qb uri t] by (elim exE)
  moreover have "url_ParseQuery ?q = Some (map (\<lambda>(k, v). (k, [v])) kvs)"
    using assms(1) by (intro url_ParseQuery_pairs) (simp add: plain_request_def)
  ultimately show ?thesis by (simp add: GetURIPath_def)
qed

subsection \<open>Options of a secured message\<close>

definition sealed_uri :: "coap_msg \<Rightarrow> bytes \<Rightarrow> AEAD \<Rightarrow> bytes" where
  "sealed_uri m host a = Seal a (GetURI m host) (MessageID m) []"

lemma GetURI_fields: "GetURI (m\<lparr>Payload := p\<rparr>) host = GetURI m host"
  by (simp add: GetURI_def GetURIPath_def GetURIQueryString_def GetSchemeString_def GetOption_def
      GetOptions_def GetOptionsAsString_def Let_def)

lemma encrypt_options:
  "GetOptions (encrypt m host a) c =
    (if c = OptionCoapsUri then [NewOption OptionCoapsUri (VString (sealed_uri m host a))]
     else if c = OptionURIPath \<or> c = OptionURIQuery then [] else GetOptions m c)"
  by (auto simp: encrypt_def encryptionOptions_def Let_def GetOptions_AddOption GetOptions_RemoveOptions
      repeatable_codes_def sealed_uri_def GetURI_fields split: option.split)

lemma RemoveOptions_fields [simp]:
  "MType (RemoveOptions m c) = MType m" "MCode (RemoveOptions m c) = MCode m"
  "Payload (RemoveOptions m c) = Payload m" "Token (RemoveOptions m c) = Token m"
  "MessageID (RemoveOptions m c) = MessageID m" "Sender (RemoveOptions m c) = Sender m"
  "AddChecksumOnSend (RemoveOptions m c) = AddChecksumOnSend m" "ProxyAddr (RemoveOptions m c) = ProxyAddr m"
  by (simp_all add: RemoveOptions_def)

lemma encrypt_fields:
  "MType (encrypt m host a) = MType m" "MCode (encrypt m host a) = MCode m"
  "Token (encrypt m host a) = Token m" "MessageID (encrypt m host a) = MessageID m"
  "AddChecksumOnSend (encrypt m host a) = AddChecksumOnSend m"
  "Payload (encrypt m host a) = (if frame m = [] then Payload m
     else Some (BytesPayload (Seal a (frame m) (MessageID m) [])))"
  by (auto simp: encrypt_def encryptionOptions_def Let_def frame_def split: option.split)

lemma set_queries_fields:
  "MType (set_queries m qs) = MType m \<and> MCode (set_queries m qs) = MCode m \<and>
   Payload (set_queries m qs) = Payload m \<and> Token (set_queries m qs) = Token m \<and>
   MessageID (set_queries m qs) = MessageID m \<and>
   (\<forall>c. c \<noteq> OptionURIQuery \<longrightarrow> GetOptions (set_queries m qs) c = GetOptions m c)"
  by (induction m qs rule: set_queries.induct) (auto simp: SetURIQuery_def GetOptions_AddOption)

lemma set_queries_array:
  "GetURIQueryArray (set_queries m (map (\<lambda>(k, v). (k, [v])) kvs)) = GetURIQueryArray m @ map query_text kvs"
proof (induction kvs arbitrary: m)
  case (Cons kv kvs)
  have "GetURIQueryArray (SetURIQuery m k v) = GetURIQueryArray m @ [query_text (k, v)]" for k v
    by (simp add: GetURIQueryArray_def SetURIQuery_def GetOptions_AddOption repeatable_codes_def
        StringValue_def query_text_def)
  then show ?case by (cases kv) (simp add: Cons.IH)
qed simp

lemma first_query_map_of:
  "list_all (\<lambda>(k, v). k \<noteq> [] \<and> eqsign \<notin> set k) kvs \<Longrightarrow>
   first_query q (map query_text kvs) = (case map_of kvs q of None \<Rightarrow> [] | Some v \<Rightarrow> v)"
  by (induction kvs) (auto simp: query_text_def SplitN2_append)

lemma map_of_perm:
  assumes "distinct (map fst xs)" "mset xs = mset ys"
  shows "map_of xs = map_of ys"
proof
  fix k
  have "distinct (map fst ys)" "set xs = set ys"
    using assms by (metis mset_eq_imp_distinct_iff mset_map, metis set_mset_mset)
  then have "map_of xs k = Some v \<longleftrightarrow> map_of ys k = Some v" for v
    using assms(1) by (simp add: map_of_eq_Some_iff)
  then show "map_of xs k = map_of ys k" by (metis option.exhaust)
qed

lemma perm_pairs:
  assumes "mset ys = mset (map (\<lambda>(k, v). (k, [v])) kvs)"
  obtains kvs' where "ys = map (\<lambda>(k, v). (k, [v])) kvs'" "mset kvs' = mset kvs"
proof -
  let ?f = "\<lambda>(k, v). (k, [v])" and ?g = "\<lambda>(k, v). (k, hd v)"
  have "\<forall>y \<in> set ys. ?f (?g y) = y"
    using arg_cong [OF assms, of set_mset] by auto
  then have "ys = map ?f (map ?g ys)" by (simp add: map_idI comp_def)
  moreover have "mset (map ?g ys) = image_mset ?g (mset (map ?f kvs))" by (simp only: mset_map assms)
  then have "mset (map ?g ys) = mset kvs"
    by (simp add: multiset.map_comp comp_def split_def flip: mset_map)
  ultimately show thesis using that by blast
qed

text \<open>A receiver that sets the path and the queries it parsed has rebuilt them.\<close>

lemma path_rebuilt:
  assumes "plain_request m kvs" "GetOptionsAsString x OptionURIPath = []"
  shows "GetURIPath (SetURIPath x (GetURIPath m)) = GetURIPath m"
proof -
  have "Split slash (GetURIPath m) = [] # Split slash (Join slash (GetOptionsAsString m OptionURIPath))"
    by (simp add: GetURIPath_def)
  moreover have "filter (\<lambda>p. p \<noteq> []) (Split slash (Join slash ps)) = ps" if "list_all plain_segment ps" for ps
  proof (cases "ps = []")
    case False
    have "\<forall>p \<in> set ps. p \<noteq> [] \<and> slash \<notin> set p"
      using that unfolding list_all_iff plain_segment_def by blast
    then show ?thesis using False by (simp add: Split_Join filter_id_conv)
  qed simp
  ultimately have "GetOptionsAsString (SetURIPath x (GetURIPath m)) OptionURIPath = GetOptionsAsString m OptionURIPath"
    using assms unfolding SetURIPath_paths plain_request_def by simp
  then show ?thesis by (simp add: GetURIPath_def)
qed

lemma queries_rebuilt:
  assumes "plain_request m kvs" "GetURIQueryArray x = []" "mset kvs' = mset kvs"
  shows "GetURIQuery (set_queries x (map (\<lambda>(k, v). (k, [v])) kvs')) k = GetURIQuery m k"
proof -
  have "GetURIQueryArray (set_queries x (map (\<lambda>(k, v). (k, [v])) kvs')) = map query_text kvs'"
    by (simp only: set_queries_array assms(2) append_Nil)
  moreover have "list_all (\<lambda>(k, v). k \<noteq> [] \<and> eqsign \<notin> set k) kvs'"
    using assms(1,3) by (simp add: plain_request_def list_all_iff flip: set_mset_mset)
  moreover have "map_of kvs' = map_of kvs"
    using map_of_perm assms(1,3) unfolding plain_request_def by metis
  ultimately show ?thesis
    using assms(1) by (simp add: GetURIQuery_def first_query_map_of plain_request_def)
qed

subsection \<open>Properties\<close>

lemma decrypt_frame:
  assumes "aead_match a b" "frame x = frame (encrypt m host a)" "MessageID x = MessageID m"
  shows "decrypt tr x b = decryptionOptions tr
    (if frame m = [] then x else x\<lparr>Payload := Some (BytesPayload (frame m))\<rparr>) b"
proof -
  have f: "frame x = (if frame m = [] then [] else Seal a (frame m) (MessageID m) [])"
    using assms(2) by (auto simp: frame_def encrypt_fields split: option.splits)
  have e: "Seal a p c ad \<noteq> []" for p c ad using length_Seal [OF assms(1), of p c ad] by auto
  show ?thesis
  proof (cases "Payload x")
    case None
    then show ?thesis using f e e [symmetric] by (simp add: decrypt_def frame_def [of x] split: if_splits)
  next
    case (Some p)
    then show ?thesis using f e aead_match_open(1) [OF assms(1)] assms(3)
      by (auto simp: decrypt_def frame_def [of x] split: if_splits)
  qed
qed

lemma rebuilt_options:
  assumes "plain_request m kvs" "mset kvs' = mset kvs"
    and "GetOptions p OptionURIPath = []" "GetOptions p OptionURIQuery = []"
  defines "q \<equiv> set_queries (SetURIPath p (GetURIPath m)) (map (\<lambda>(k, v). (k, [v])) kvs')"
  shows "GetURIPath q = GetURIPath m" "GetURIQuery q k = GetURIQuery m k"
    and "c \<notin> {OptionURIPath, OptionURIQuery} \<Longrightarrow> GetOptions q c = GetOptions p c"
proof -
  have "GetOptionsAsString p OptionURIPath = []" using assms(3) by (simp add: GetOptionsAsString_def)
  from path_rebuilt [OF assms(1) this] show "GetURIPath q = GetURIPath m"
    by (simp add: q_def GetURIPath_def GetOptionsAsString_def set_queries_fields)
  have "GetURIQueryArray (SetURIPath p (GetURIPath m)) = []"
    using assms(4) by (simp add: GetURIQueryArray_def SetURIPath_def add_path_parts_other)
  from queries_rebuilt [OF assms(1) this assms(2)] show "GetURIQuery q k = GetURIQuery m k"
    by (simp add: q_def)
  show "GetOptions q c = GetOptions p c" if "c \<notin> {OptionURIPath, OptionURIQuery}"
    using that by (simp add: q_def set_queries_fields SetURIPath_def add_path_parts_other)
qed

lemma URI_RemoveOptions [simp]:
  "frame (RemoveOptions q c) = frame q"
  "c \<noteq> OptionURIPath \<Longrightarrow> GetURIPath (RemoveOptions q c) = GetURIPath q"
  "c \<noteq> OptionURIQuery \<Longrightarrow> GetURIQuery (RemoveOptions q c) k = GetURIQuery q k"
  by (simp_all add: frame_def GetURIPath_def GetOptionsAsString_def GetURIQuery_def GetURIQueryArray_def
      GetOptions_RemoveOptions)

lemma decrypt_sealed:
  assumes "aead_match a b" "plain_request m kvs" "plain_host host"
    and "\<forall>q. mset (tr_range tr q) = mset q"
    and "frame x = frame (encrypt m host a)" "MessageID x = MessageID m"
    and "GetOptions x OptionCoapsUri = [opt]" "StringValue opt = sealed_uri m host a"
    and "GetOptions x OptionURIPath = []" "GetOptions x OptionURIQuery = []"
  shows "\<exists>m'. decrypt tr x b = (None, m') \<and> frame m' = frame m \<and>
    MType m' = MType x \<and> MCode m' = MCode x \<and> MessageID m' = MessageID x \<and> Token m' = Token x \<and>
    GetURIPath m' = GetURIPath m \<and> (\<forall>k. GetURIQuery m' k = GetURIQuery m k) \<and>
    (\<forall>c. c \<notin> {OptionURIPath, OptionURIQuery, OptionCoapsUri} \<longrightarrow> GetOptions m' c = GetOptions x c)"
proof -
  let ?p = "if frame m = [] then x else x\<lparr>Payload := Some (BytesPayload (frame m))\<rparr>"
  obtain url where url: "url_Parse (GetURI m host) = Some url" "Path url = GetURIPath m"
    "url_ParseQuery (RawQuery url) = Some (map (\<lambda>(k, v). (k, [v])) kvs)"
    using url_Parse_GetURI [OF assms(2,3)] by blast
  obtain kvs' where kvs': "tr_range tr (map (\<lambda>(k, v). (k, [v])) kvs) = map (\<lambda>(k, v). (k, [v])) kvs'"
    "mset kvs' = mset kvs"
    by (rule perm_pairs [OF assms(4) [rule_format, of "map (\<lambda>(k, v). (k, [v])) kvs"]])
  define q where "q = set_queries (SetURIPath ?p (GetURIPath m)) (map (\<lambda>(k, v). (k, [v])) kvs')"
  have opts: "GetOptions ?p c = GetOptions x c" for c by simp
  have none: "GetOptions ?p OptionURIPath = []" "GetOptions ?p OptionURIQuery = []"
    by (simp_all only: opts assms(9,10))
  have "Open b (sealed_uri m host a) (MessageID m) [] = Some (GetURI m host)"
    unfolding sealed_uri_def by (rule aead_match_open(1) [OF assms(1)])
  then have "decrypt tr x b = (None, RemoveOptions q OptionCoapsUri)"
    using url kvs'(1) assms(7) unfolding decrypt_frame [OF assms(1,5,6)] q_def
    by (simp add: decryptionOptions_def GetOption_GetOptions opts assms(6,8) Let_def)
  moreover have "frame q = frame m"
    using assms(5) by (auto simp: q_def frame_def set_queries_fields encrypt_fields split: option.splits)
  moreover have "MType q = MType x \<and> MCode q = MCode x \<and> MessageID q = MessageID x \<and> Token q = Token x"
    by (simp add: q_def set_queries_fields)
  moreover note rebuilt_options [OF assms(2) kvs'(2) none, folded q_def, unfolded opts]
  ultimately show ?thesis
    by (simp add: GetOptions_RemoveOptions)
qed

text \<open>A secured request survives: the receiver holding the matching session decrypts it without
  error and gets the payload, the path, the query values and all other options of the
  request, whatever the order in which the query map is visited.\<close>

theorem secured_message_roundtrip:
  assumes "aead_match a b" "plain_request m kvs" "plain_host host"
    and "\<forall>q. mset (tr_range tr q) = mset q"
  shows "\<exists>m'. decrypt tr (encrypt m host a) b = (None, m') \<and> frame m' = frame m \<and>
    MType m' = MType m \<and> MCode m' = MCode m \<and> MessageID m' = MessageID m \<and> Token m' = Token m \<and>
    GetURIPath m' = GetURIPath m \<and> (\<forall>k. GetURIQuery m' k = GetURIQuery m k) \<and>
    (\<forall>c. c \<notin> {OptionURIPath, OptionURIQuery, OptionCoapsUri} \<longrightarrow> GetOptions m' c = GetOptions m c)"
proof -
  have "StringValue (NewOption OptionCoapsUri (VString (sealed_uri m host a))) = sealed_uri m host a"
    by (simp add: StringValue_def)
  from decrypt_sealed [OF assms(1-4) refl encrypt_fields(4) _ this]
  show ?thesis by (simp add: encrypt_options encrypt_fields)
qed

definition toy_aead :: "byte \<Rightarrow> byte \<Rightarrow> AEAD" where
  "toy_aead x y = \<lparr>PeerKey = replicate 16 x, MyKey = replicate 16 y, PeerIV = replicate 4 x,
     MyIV = replicate 4 y, encrypter = toy_gcm (replicate 16 y), decrypter = toy_gcm (replicate 16 x)\<rparr>"

lemma toy_aead_match: "aead_match (toy_aead x y) (toy_aead y x)"
  by (simp add: aead_match_def toy_aead_def gcm_laws_def toy_gcm_def)

definition sample_transport :: transport where
  "sample_transport = \<lparr>tr_crypto = toy_crypto, tr_sorter = id, tr_range = rev, tr_privateKey = [],
     tr_local = lit ''127.0.0.1:4000'', tr_remote = lit ''127.0.0.1:5683''\<rparr>"

definition sample_env :: env where
  "sample_env = \<lparr>met = zero_metrics,
     ids = \<lparr>currentMessageID = 0, rand_stream = of_nat, rand_pos = 0\<rparr>,
     clock = int, clock_pos = 0, waited = 0, crand = (\<lambda>_. Some (replicate 32 1)), crand_pos = 0,
     mrand = of_nat, mrand_pos = 0, sent = [], wres = (\<lambda>_. None), reads = [], chan = [],
     proxyIDs = newShardedCache SESSIONS_POOL_EXPIRATION, sessions = newShardedCache SESSIONS_POOL_EXPIRATION\<rparr>"

definition sample_request :: coap_msg where
  "sample_request = SetURIQuery (SetURIQuery (SetURIPath (SetSchemeCOAPS
     (zero_msg\<lparr>MCode := POST, Payload := Some (StringPayload (lit ''on''))\<rparr>)) (lit ''/lamp/1''))
     (lit ''room'') (lit ''a b'')) (lit ''q'') (lit ''x&y=z'')"

lemma sample_plain:
  "plain_request sample_request [(lit ''room'', lit ''a b''), (lit ''q'', lit ''x&y=z'')]"
  "plain_host (lit ''127.0.0.1:5683'')"
  unfolding plain_request_def plain_host_def by code_simp+

theorem secured_message_roundtrip_witness:
  "\<exists>m'. decrypt sample_transport (encrypt sample_request (lit ''127.0.0.1:5683'') (toy_aead 1 2)) (toy_aead 2 1)
      = (None, m') \<and> GetURIQuery m' (lit ''q'') = lit ''x&y=z'' \<and> frame m' = lit ''on''"
proof -
  have "\<forall>q. mset (tr_range sample_transport q) = mset q" by (simp add: sample_transport_def)
  from secured_message_roundtrip [OF toy_aead_match sample_plain this, of 1 2]
  obtain m' where m': "decrypt sample_transport (encrypt sample_request (lit ''127.0.0.1:5683'') (toy_aead 1 2)) (toy_aead 2 1)
      = (None, m')" "frame m' = frame sample_request" "\<forall>k. GetURIQuery m' k = GetURIQuery sample_request k"
    by blast
  moreover have "GetURIQuery sample_request (lit ''q'') = lit ''x&y=z''" "frame sample_request = lit ''on''"
    by code_simp+
  ultimately show ?thesis by simp
qed

text \<open>Encryption hides what it is to hide: the secured message has no path and no query option,
  its only new option is the sealed URI, a non-empty payload is replaced by its sealed
  form, and nothing else of the message changes.\<close>

theorem encrypt_hides:
  "GetOptions (encrypt m host a) OptionURIPath = [] \<and> GetOptions (encrypt m host a) OptionURIQuery = [] \<and>
   GetOptions (encrypt m host a) OptionCoapsUri =
     [NewOption OptionCoapsUri (VString (Seal a (GetURI m host) (MessageID m) []))] \<and>
   frame (encrypt m host a) = (if frame m = [] then [] else Seal a (frame m) (MessageID m) []) \<and>
   (\<forall>c. GetOptions (encrypt m host a) c =
     (if c \<in> {OptionURIPath, OptionURIQuery} then []
      else if c = OptionCoapsUri then [NewOption OptionCoapsUri (VString (sealed_uri m host a))]
      else GetOptions m c)) \<and>
   MessageID (encrypt m host a) = MessageID m \<and> Token (encrypt m host a) = Token m \<and>
   MCode (encrypt m host a) = MCode m \<and> MType (encrypt m host a) = MType m"
  by (auto simp: encrypt_options encrypt_fields sealed_uri_def) (auto simp: frame_def encrypt_fields split: option.splits)

text \<open>
  Payload and URI of one message are sealed under one message id, hence with one nonce.
\<close>

lemma encrypt_reuses_nonce:
  assumes "frame m \<noteq> []" "encrypter a = g"
  shows "frame (encrypt m host a) = gcmSeal g (makeNonce (MyIV a) (MessageID m)) (frame m) []"
    "sealed_uri m host a = gcmSeal g (makeNonce (MyIV a) (MessageID m)) (GetURI m host) []"
  using assms by (simp_all add: Seal_def sealed_uri_def frame_def encrypt_fields)

text \<open>C23: A session never seals two messages with different ids under one nonce. Whatever message
  \<open>encrypt\<close> secures, its payload and its URI are sealed with the cipher of the session's own
  key and a nonce that begins with the session's own vector and is an injective function of
  the message id, which is all it depends on.\<close>

theorem nonce_unique_per_message_id:
  assumes "NewAEAD cr pk mk pv mv = Inr a"
  shows "\<exists>g nonce. NewGCM cr mk = Some g \<and> inj nonce \<and> (\<forall>c. length (nonce c) = 12 \<and> take 4 (nonce c) = mv) \<and>
    (\<forall>m host. GetOptions (encrypt m host a) OptionCoapsUri =
        [NewOption OptionCoapsUri (VString (gcmSeal g (nonce (MessageID m)) (GetURI m host) []))] \<and>
      frame (encrypt m host a) =
        (if frame m = [] then [] else gcmSeal g (nonce (MessageID m)) (frame m) []))"
proof -
  have k: "NewGCM cr mk = Some (encrypter a)" "MyIV a = mv" "length mv = 4" using NewAEAD_keys [OF assms] by auto
  have "frame (encrypt m host a) =
      (if frame m = [] then [] else gcmSeal (encrypter a) (makeNonce mv (MessageID m)) (frame m) [])" for m host
    using k(2) encrypt_hides [of m host a] by (simp add: Seal_def)
  then show ?thesis
    using k makeNonce_inj [OF k(3)]
    by (intro exI [of _ "encrypter a"] exI [of _ "makeNonce mv"]) (simp add: encrypt_options sealed_uri_def Seal_def)
qed

theorem nonce_unique_per_message_id_witness:
  "\<exists>nonce :: 16 word \<Rightarrow> bytes. nonce 7 \<noteq> nonce 8 \<and>
     frame (encrypt (sample_request\<lparr>MessageID := 7\<rparr>) (lit ''h'') (toy_aead 1 2))
       = gcmSeal (toy_gcm (replicate 16 2)) (nonce 7) (lit ''on'') []"
proof -
  have "NewAEAD toy_crypto (replicate 16 1) (replicate 16 2) (replicate 4 1) (replicate 4 2) = Inr (toy_aead 1 2)"
    by (simp add: NewAEAD_def toy_crypto_def toy_aead_def)
  from nonce_unique_per_message_id [OF this]
  obtain g nonce where n: "NewGCM toy_crypto (replicate 16 2) = Some g" "inj nonce"
    "\<forall>m host. frame (encrypt m host (toy_aead 1 2)) =
      (if frame m = [] then [] else gcmSeal g (nonce (MessageID m)) (frame m) [])"
    by blast
  moreover have "g = toy_gcm (replicate 16 2)" using n(1) by (simp add: toy_crypto_def)
  moreover have "frame (sample_request\<lparr>MessageID := 7\<rparr>) = lit ''on''" "lit ''on'' \<noteq> []" by code_simp+
  moreover have "nonce 7 \<noteq> nonce 8" using n(2) by (simp add: inj_eq)
  ultimately show ?thesis by auto
qed

end
