(* ===== verification/Transport_Send.thy ===== *)
theory Transport_Send
  imports Secure_Message
begin

text \<open>
  The sending half of \<open>transport.go\<close>: preparing a datagram, the two socket writes, and the
  selective-repeat sender with its window, retransmission and congestion balance.
\<close>

subsection \<open>One datagram\<close>

definition securityOutputLayer :: "transport \<Rightarrow> coap_msg \<Rightarrow> bytes \<Rightarrow> env \<Rightarrow> err option \<times> coap_msg \<times> env" where
  "securityOutputLayer tr m addr e =
    (if GetScheme m \<noteq> COAPS_SCHEME then (None, m, e)
     else let currentAddr = tr_local tr;
              (_, m, e) = setProxyIDIfNeed m currentAddr e;
              (proxyAddr, e) = withProxyID (ProxyAddr m) currentAddr e;
              (ses, e) = getSessionForAddress currentAddr addr proxyAddr e
          in case ses of
               None \<Rightarrow> (Some ErrorClientSessionNotFound, m, e)
             | Some s \<Rightarrow> (case SAEAD s of
                 None \<Rightarrow> (Some GoPanic, m, e)
               | Some aead \<Rightarrow> (None, encrypt m addr aead, e)))"

definition preparationSendingMessage :: "transport \<Rightarrow> coap_msg \<Rightarrow> bytes \<Rightarrow> env \<Rightarrow> (err + bytes) \<times> env" where
  "preparationSendingMessage tr m addr e =
    (let (secMessage, e) = with_ids (Clone m True) e;
         (r, secMessage, e) = securityOutputLayer tr secMessage addr e
     in case r of
          Some err \<Rightarrow> (Inl err, e)
        | None \<Rightarrow>
            let secMessage = (if AddChecksumOnSend secMessage then applyChecksum (tr_sorter tr) secMessage
                              else secMessage)
            in (Inr (fst (Serialize (tr_sorter tr) secMessage)), e))"

text \<open>\<open>Write\<close> or \<open>WriteTo\<close> with the metrics around it.\<close>

definition write_counted :: "bytes option \<Rightarrow> bytes \<Rightarrow> env \<Rightarrow> err option \<times> env" where
  "write_counted addr buf e =
    (let e = inc MetricSentMessages e;
         (r, e) = socket_write addr buf e
     in case r of None \<Rightarrow> (None, e) | Some err \<Rightarrow> (Some err, inc MetricSentMessageErrors e))"

definition sendToSocket :: "transport \<Rightarrow> coap_msg \<Rightarrow> env \<Rightarrow> err option \<times> env" where
  "sendToSocket tr m e =
    (case preparationSendingMessage tr m (tr_remote tr) e of
       (Inl err, e) \<Rightarrow> (Some err, e)
     | (Inr buf, e) \<Rightarrow> write_counted None buf e)"

definition sendToSocketByAddress :: "transport \<Rightarrow> coap_msg \<Rightarrow> bytes \<Rightarrow> env \<Rightarrow> err option \<times> env" where
  "sendToSocketByAddress tr m addr e =
    (case preparationSendingMessage tr m addr e of
       (Inl err, e) \<Rightarrow> (Some err, e)
     | (Inr buf, e) \<Rightarrow> write_counted (Some addr) buf e)"

subsection \<open>The window of packets\<close>

text \<open>\<open>lastSend\<close> is \<open>None\<close> for the zero time, which is longer ago than any \<open>timeWait\<close>.\<close>

record packet =
  acked :: bool
  attempts :: int
  lastSend :: "int option"
  pmessage :: coap_msg

text \<open>The local variables of \<open>sendARQBlock1CON\<close> and \<open>sendARQBlock2ACK\<close>.\<close>

record arq =
  packets :: "packet list"
  awindow :: int
  shift :: nat
  relative_shift :: nat
  localRetransmits :: int
  retransmitsTmp :: int
  balancerCounter :: nat
  overflowIndicator :: int

definition new_arq :: "coap_msg list \<Rightarrow> int \<Rightarrow> arq" where
  "new_arq msgs w = \<lparr>packets = map (\<lambda>m. \<lparr>acked = False, attempts = 0, lastSend = None, pmessage = m\<rparr>) msgs,
     awindow = w, shift = 0, relative_shift = 0, localRetransmits = 0, retransmitsTmp = 0,
     balancerCounter = 0, overflowIndicator = 0\<rparr>"

definition window_stop :: "arq \<Rightarrow> nat" where
  "window_stop s =
    (let stop = awindow s + (if overflowIndicator s > 0 then int (shift s) else int (relative_shift s))
     in if stop \<ge> int (length (packets s)) then length (packets s) else nat stop)"

definition set_packet :: "nat \<Rightarrow> packet \<Rightarrow> arq \<Rightarrow> arq" where
  "set_packet i p s = s\<lparr>packets := (packets s)[i := p]\<rparr>"

definition waited_enough :: "packet \<Rightarrow> int \<Rightarrow> bool" where
  "waited_enough p now = (case lastSend p of None \<Rightarrow> True | Some t \<Rightarrow> now - t \<ge> timeWait)"

definition count_retransmit :: "arq \<Rightarrow> env \<Rightarrow> arq \<times> env" where
  "count_retransmit s e =
    (s\<lparr>localRetransmits := localRetransmits s + 1\<rparr>, inc MetricRetransmitMessages e)"

text \<open>The body of the loop of \<open>sendPackets\<close>.\<close>

definition send_packet :: "transport \<Rightarrow> nat \<Rightarrow> arq \<Rightarrow> env \<Rightarrow> err option \<times> arq \<times> env" where
  "send_packet tr i s e =
    (let p = packets s ! i
     in if acked p then (None, s, e)
        else let (now, e) = tick e
          in if \<not> waited_enough p now then (None, s, e)
             else let (s, e) = (if attempts p > 0 \<and> awindow s \<ge> MIN_WINDOW_SIZE then count_retransmit s e else (s, e))
               in if attempts p = maxSendAttempts then (Some ErrMaxAttempts, s, inc MetricExpiredMessages e)
                  else let s = (if attempts p = 3 then s\<lparr>overflowIndicator := overflowIndicator s + 1\<rparr> else s);
                           (now, e) = tick e;
                           p = p\<lparr>attempts := attempts p + 1, lastSend := Some now\<rparr>;
                           s = set_packet i p s;
                           (r, e) = sendToSocket tr (pmessage p) e
                       in (r, s, e))"

text \<open>The body of the loop of \<open>sendPacketsToAddr\<close>: the retransmission is counted later, and
  only above the minimal window.\<close>

definition send_packet_to :: "transport \<Rightarrow> bytes \<Rightarrow> nat \<Rightarrow> arq \<Rightarrow> env \<Rightarrow> err option \<times> arq \<times> env" where
  "send_packet_to tr addr i s e =
    (let p = packets s ! i
     in if acked p then (None, s, e)
        else let (now, e) = tick e
          in if \<not> waited_enough p now then (None, s, e)
             else if attempts p = maxSendAttempts then (Some ErrMaxAttempts, s, inc MetricExpiredMessages e)
             else let s = (if attempts p = 3 then s\<lparr>overflowIndicator := overflowIndicator s + 1\<rparr> else s);
                      p = p\<lparr>attempts := attempts p + 1\<rparr>;
                      (s, e) = (if attempts p > 1 \<and> awindow s > MIN_WINDOW_SIZE then count_retransmit s e else (s, e));
                      (now, e) = tick e;
                      p = p\<lparr>lastSend := Some now\<rparr>;
                      s = set_packet i p s;
                      (r, e) = sendToSocketByAddress tr (pmessage p) addr e
                  in (r, s, e))"

fun send_range ::
    "(nat \<Rightarrow> arq \<Rightarrow> env \<Rightarrow> err option \<times> arq \<times> env) \<Rightarrow> nat list \<Rightarrow> arq \<Rightarrow> env \<Rightarrow> err option \<times> arq \<times> env" where
  "send_range f [] s e = (None, s, e)"
| "send_range f (i # is) s e =
    (case f i s e of (Some err, s, e) \<Rightarrow> (Some err, s, e) | (None, s, e) \<Rightarrow> send_range f is s e)"

definition sendPackets :: "transport \<Rightarrow> arq \<Rightarrow> env \<Rightarrow> err option \<times> arq \<times> env" where
  "sendPackets tr s e = send_range (send_packet tr) [shift s ..< window_stop s] s e"

definition sendPacketsToAddr :: "transport \<Rightarrow> bytes \<Rightarrow> arq \<Rightarrow> env \<Rightarrow> err option \<times> arq \<times> env" where
  "sendPacketsToAddr tr addr s e =
    (if shift s = length (packets s) then (Some ErrMaxAttempts, s, e)
     else send_range (send_packet_to tr addr) [shift s ..< window_stop s] s e)"

subsection \<open>Acknowledgements and the window balance\<close>

text \<open>
  \<open>int(float64(n) * 0.7)\<close>. The literal is the double 6305039478318694 / 2^53; the exact
  product is rounded to 53 significant bits, to even on a tie, and then truncated.
  \<open>float64(n)\<close> is exact below 2^53.
\<close>

definition round_product :: "nat \<Rightarrow> nat" where
  "round_product p =
    (let k = floor_log2 p + 1 - 53; q = p div 2 ^ k; r = p mod 2 ^ k;
         up = 2 * r > 2 ^ k \<or> (2 * r = 2 ^ k \<and> k > 0 \<and> q mod 2 = 1)
     in (if up then q + 1 else q) * 2 ^ k)"

definition seven_tenths :: "int \<Rightarrow> int" where
  "seven_tenths n =
    (let t = int (round_product (nat \<bar>n\<bar> * 6305039478318694) div 2 ^ 53) in if n < 0 then - t else t)"

definition balance_window :: "arq \<Rightarrow> arq" where
  "balance_window s =
    (let dt = seven_tenths (2 - localRetransmits s + retransmitsTmp s);
         s = s\<lparr>awindow := awindow s + dt\<rparr>;
         s = s\<lparr>retransmitsTmp := localRetransmits s\<rparr>;
         s = (if awindow s < MIN_WINDOW_SIZE then s\<lparr>awindow := MIN_WINDOW_SIZE\<rparr> else s)
     in if awindow s > MAX_WINDOW_SIZE then s\<lparr>awindow := MAX_WINDOW_SIZE\<rparr> else s)"

text \<open>What both senders do on the acknowledgement of packet \<open>n\<close>, after the code was checked.\<close>

definition ack_packet :: "nat \<Rightarrow> arq \<Rightarrow> arq" where
  "ack_packet n s =
    (let p = packets s ! n;
         s = (if \<not> acked p \<and> attempts p > 3 then s\<lparr>overflowIndicator := overflowIndicator s - 1\<rparr> else s);
         s = set_packet n (p\<lparr>acked := True\<rparr>) s;
         s = s\<lparr>relative_shift := relative_shift s + 1\<rparr>;
         s = (if n = shift s then
                s\<lparr>shift := shift s + 1 + length (takeWhile acked (drop (shift s + 1) (packets s)))\<rparr>
              else s)
     in if balancerCounter s mod 25 = 0 then balance_window s else s)"

subsection \<open>Sending a large acknowledgement\<close>

definition newACKEmptyMessage :: "coap_msg \<Rightarrow> int \<Rightarrow> id_source \<Rightarrow> coap_msg \<times> id_source" where
  "newACKEmptyMessage m windowSize g =
    (let (a, g) = NewCoAPMessage ACK CoapCodeEmpty g;
         a = a\<lparr>Token := Token m\<rparr>;
         a = a\<lparr>MessageID := MessageID m\<rparr>;
         a = a\<lparr>MCode := CoapCodeEmpty\<rparr>;
         a = a\<lparr>Recipient := Recipient m\<rparr>;
         a = a\<lparr>Payload := Some EmptyPayload\<rparr>;
         a = AddOption a OptionSelectiveRepeatWindowSize (VInt windowSize)
     in (CloneOptions a m [OptionBlock1, OptionBlock2, OptionSelectiveRepeatWindowSize, OptionProxySecurityID], g))"

text \<open>
  One round of the event loop of \<open>sendARQBlock2ACK\<close>: what its \<open>select\<close> receives is the message
  of a channel or the timer. The first component is \<open>None\<close> when the loop goes on, \<open>Some err\<close>
  when the call returns \<open>err\<close>; the state holds the local variables.
\<close>

fun block2_step ::
    "transport \<Rightarrow> coap_msg \<Rightarrow> bytes \<Rightarrow> chan_event \<Rightarrow> arq \<Rightarrow> env \<Rightarrow> err option option \<times> arq \<times> env" where
  "block2_step tr m addr ChanTimeout s e =
    (case sendPacketsToAddr tr addr s (wait_for timeWait e) of
       (Some err, s, e) \<Rightarrow> (Some (Some err), s, e)
     | (None, s, e) \<Rightarrow> (None, s, e))"
| "block2_step tr m addr (ChanMessage resp) s e =
    (if Token resp \<noteq> Token m then (None, s, e)
     else if MType resp \<noteq> ACK then (None, s, e)
     else case GetBlock2 resp of
       None \<Rightarrow> (None, s, e)
     | Some blk \<Rightarrow>
         if \<not> int (length (packets s)) \<ge> BlockNumber blk then (None, s, e)
         else let s = s\<lparr>balancerCounter := balancerCounter s + 1\<rparr>
           in if MCode resp \<noteq> CoapCodeContinue then (Some None, s, e)
              else if BlockNumber blk < int (length (packets s)) then
                if BlockNumber blk < 0 then (Some (Some GoPanic), s, e)
                else (case sendPacketsToAddr tr addr (ack_packet (nat (BlockNumber blk)) s) e of
                   (Some err, s, e) \<Rightarrow> (Some (Some err), s, e)
                 | (None, s, e) \<Rightarrow> (None, s, e))
              else (None, s, e))"

text \<open>The loop. The result is \<open>None\<close> while it waits for an event.\<close>

fun block2_loop ::
    "transport \<Rightarrow> coap_msg \<Rightarrow> bytes \<Rightarrow> chan_event list \<Rightarrow> arq \<Rightarrow> env \<Rightarrow> err option option \<times> env" where
  "block2_loop tr m addr [] s e = (None, e\<lparr>chan := []\<rparr>)"
| "block2_loop tr m addr (ev # evs) s e =
    (case block2_step tr m addr ev s e of
       (Some r, s, e) \<Rightarrow> (Some r, e\<lparr>chan := evs\<rparr>)
     | (None, s, e) \<Rightarrow> block2_loop tr m addr evs s e)"

declare block2_loop.simps(2) [simp del] block2_step.simps [simp del]

lemma block2_loop_Timeout [simp]:
  "block2_loop tr m addr (ChanTimeout # evs) s e =
    (case sendPacketsToAddr tr addr s (wait_for timeWait e) of
       (Some err, s, e) \<Rightarrow> (Some (Some err), e\<lparr>chan := evs\<rparr>)
     | (None, s, e) \<Rightarrow> block2_loop tr m addr evs s e)"
  by (simp add: block2_loop.simps(2) block2_step.simps split: prod.split option.split)

lemma block2_loop_Message [simp]:
  "block2_loop tr m addr (ChanMessage resp # evs) s e =
    (if Token resp \<noteq> Token m then block2_loop tr m addr evs s e
     else if MType resp \<noteq> ACK then block2_loop tr m addr evs s e
     else case GetBlock2 resp of
       None \<Rightarrow> block2_loop tr m addr evs s e
     | Some blk \<Rightarrow>
         if \<not> int (length (packets s)) \<ge> BlockNumber blk then block2_loop tr m addr evs s e
         else let s = s\<lparr>balancerCounter := balancerCounter s + 1\<rparr>
           in if MCode resp \<noteq> CoapCodeContinue then (Some None, e\<lparr>chan := evs\<rparr>)
              else if BlockNumber blk < int (length (packets s)) then
                if BlockNumber blk < 0 then (Some (Some GoPanic), e\<lparr>chan := evs\<rparr>)
                else (case sendPacketsToAddr tr addr (ack_packet (nat (BlockNumber blk)) s) e of
                   (Some err, s, e) \<Rightarrow> (Some (Some err), e\<lparr>chan := evs\<rparr>)
                 | (None, s, e) \<Rightarrow> block2_loop tr m addr evs s e)
              else block2_loop tr m addr evs s e)"
  by (simp add: block2_loop.simps(2) block2_step.simps Let_def split: prod.split option.split)

definition sendARQBlock2ACK :: "transport \<Rightarrow> coap_msg \<Rightarrow> bytes \<Rightarrow> env \<Rightarrow> err option option \<times> env" where
  "sendARQBlock2ACK tr m addr e =
    (let state = new_state_send m;
         (a, e) = with_ids (newACKEmptyMessage m (windowsize state)) e;
         (r, e) = sendToSocketByAddress tr a addr e
     in case r of
          Some err \<Rightarrow> (Some (Some err), e)
        | None \<Rightarrow> (case construct_blocks OptionBlock2 state (ids e) of
            None \<Rightarrow> (None, e)
          | Some (msgs, g) \<Rightarrow>
              let e = e\<lparr>ids := g\<rparr>
              in case sendPacketsToAddr tr addr (new_arq msgs (windowsize state)) e of
                   (Some err, s, e) \<Rightarrow> (Some (Some err), e)
                 | (None, s, e) \<Rightarrow> block2_loop tr m addr (chan e) s e))"

definition sendACKTo :: "transport \<Rightarrow> coap_msg \<Rightarrow> bytes \<Rightarrow> env \<Rightarrow> err option option \<times> env" where
  "sendACKTo tr m addr e =
    (if MType m = ACK \<and> isBigPayload m then sendARQBlock2ACK tr m addr e
     else let (r, e) = sendToSocketByAddress tr m addr e in (Some r, e))"

definition SendTo :: "transport \<Rightarrow> coap_msg \<Rightarrow> bytes \<Rightarrow> env \<Rightarrow> err option option \<times> env" where
  "SendTo tr m addr e =
    (if MType m = ACK \<or> MType m = NON \<or> MType m = RST then sendACKTo tr m addr e
     else (Some (Some ErrUnsupportedType), e))"

end
