(* ===== verification/Arq_Sender.thy ===== *)
theory Arq_Sender
  imports Transport_Send
begin

text \<open>
  Correctness of the selective-repeat sender of \<open>Transport_Send\<close>: what one pass over the
  window changes, the invariant of the window, the bound on the number of datagrams, and
  that the sender gives up on a silent receiver.
\<close>

subsection \<open>Preparing a datagram writes nothing\<close>

named_theorems quiet \<open>operations that leave the socket, the clock stream and the channel alone\<close>

definition same_net :: "env \<Rightarrow> env \<Rightarrow> bool" where
  "same_net e e' \<longleftrightarrow> sent e' = sent e \<and> wres e' = wres e \<and> clock e' = clock e \<and> waited e' = waited e \<and>
     clock_pos e \<le> clock_pos e' \<and> chan e' = chan e \<and> reads e' = reads e"

lemma same_net_refl [simp, quiet]: "same_net e e"
  by (simp add: same_net_def)

lemma same_net_trans: "same_net e f \<Longrightarrow> same_net f g \<Longrightarrow> same_net e g"
  by (auto simp: same_net_def)

lemma same_net_tick [quiet]: "same_net e (snd (tick e))"
  by (simp add: same_net_def tick_def)

lemma same_net_with_ids [quiet]: "same_net e (snd (with_ids f e))"
  by (simp add: same_net_def with_ids_def split_beta Let_def)

lemma same_net_inc [quiet]: "same_net e (inc c e)"
  by (simp add: same_net_def inc_def)

lemma same_net_upd [quiet]:
  "same_net e (e\<lparr>sessions := x\<rparr>)" "same_net e (e\<lparr>proxyIDs := y\<rparr>)" "same_net e (e\<lparr>mrand_pos := z\<rparr>)"
  "same_net e (e\<lparr>ids := g\<rparr>)" "same_net e (e\<lparr>crand_pos := k\<rparr>)"
  by (simp_all add: same_net_def)

lemma same_net_setProxyID [quiet]: "same_net e (snd (snd (setProxyIDIfNeed m a e)))"
  by (auto simp: setProxyIDIfNeed_def tick_def Let_def split_beta same_net_def split: option.split)

lemma same_net_withProxyID [quiet]: "same_net e (snd (withProxyID p a e))"
  by (auto simp: withProxyID_def getProxyIDIfNeed_def tick_def Let_def split_beta same_net_def)

lemma same_net_getSession [quiet]: "same_net e (snd (getSessionForAddress s r p e))"
  by (auto simp: getSessionForAddress_def tick_def Let_def split_beta same_net_def split: option.split)

lemma same_net_outputLayer [quiet]: "same_net e (snd (snd (securityOutputLayer tr m addr e)))"
proof (cases "GetScheme m = COAPS_SCHEME")
  case True
  let ?e1 = "snd (snd (setProxyIDIfNeed m (tr_local tr) e))"
  let ?m1 = "fst (snd (setProxyIDIfNeed m (tr_local tr) e))"
  let ?e2 = "snd (withProxyID (ProxyAddr ?m1) (tr_local tr) ?e1)"
  have "same_net e (snd (getSessionForAddress a b c ?e2))" for a b c
    by (rule same_net_trans [OF same_net_setProxyID same_net_trans [OF same_net_withProxyID same_net_getSession]])
  then show ?thesis
    using True by (auto simp: securityOutputLayer_def Let_def split_beta split: option.split)
qed (simp add: securityOutputLayer_def)

lemma same_net_preparation [quiet]: "same_net e (snd (preparationSendingMessage tr m addr e))"
proof -
  have "same_net e (snd (snd (securityOutputLayer tr c addr (snd (with_ids (Clone m True) e)))))" for c
    by (rule same_net_trans [OF same_net_with_ids same_net_outputLayer])
  then show ?thesis
    by (auto simp: preparationSendingMessage_def Let_def split_beta split: option.split)
qed

text \<open>A send adds at most one datagram, to the address it was given.\<close>

definition adds_one :: "bytes option \<Rightarrow> env \<Rightarrow> env \<Rightarrow> bool" where
  "adds_one addr e e' \<longleftrightarrow> (sent e' = sent e \<or> (\<exists>buf. sent e' = sent e @ [(addr, buf)])) \<and>
     wres e' = wres e \<and> clock e' = clock e \<and> waited e' = waited e \<and> clock_pos e \<le> clock_pos e' \<and>
     chan e' = chan e \<and> reads e' = reads e"

lemma adds_one_quiet: "same_net e f \<Longrightarrow> adds_one a f g \<Longrightarrow> adds_one a e g"
  "same_net f g \<Longrightarrow> adds_one a e f \<Longrightarrow> adds_one a e g" "same_net e f \<Longrightarrow> adds_one a e f"
  by (auto simp: same_net_def adds_one_def)

lemma adds_one_write: "adds_one a e (snd (write_counted a buf e))"
  by (simp add: write_counted_def socket_write_def inc_def adds_one_def Let_def split: option.split)

lemma adds_one_sendToSocket: "adds_one None e (snd (sendToSocket tr m e))"
  unfolding sendToSocket_def
  using same_net_preparation [of e tr m "tr_remote tr"]
  by (auto split: prod.split sum.split intro: adds_one_quiet adds_one_write)

lemma adds_one_sendToSocketByAddress: "adds_one (Some addr) e (snd (sendToSocketByAddress tr m addr e))"
  unfolding sendToSocketByAddress_def
  using same_net_preparation [of e tr m addr]
  by (auto split: prod.split sum.split intro: adds_one_quiet adds_one_write)

subsection \<open>One packet\<close>

definition next_now :: "env \<Rightarrow> int" where
  "next_now e = clock e (clock_pos e) + waited e"

definition mono_clock :: "env \<Rightarrow> bool" where
  "mono_clock e \<longleftrightarrow> (\<forall>i j. i \<le> j \<longrightarrow> clock e i \<le> clock e j)"

text \<open>The two loop bodies do the same to the packets: either nothing, or one attempt on an
  unacknowledged packet that has attempts left.\<close>

definition attempt :: "int \<Rightarrow> packet \<Rightarrow> packet" where
  "attempt t p = p\<lparr>attempts := attempts p + 1, lastSend := Some t\<rparr>"

definition same_window :: "arq \<Rightarrow> arq \<Rightarrow> bool" where
  "same_window s s' \<longleftrightarrow> shift s' = shift s \<and> relative_shift s' = relative_shift s \<and> awindow s' = awindow s \<and>
     balancerCounter s' = balancerCounter s \<and> length (packets s') = length (packets s)"

definition packet_step :: "bytes option \<Rightarrow> nat \<Rightarrow> arq \<Rightarrow> env \<Rightarrow> err option \<times> arq \<times> env \<Rightarrow> bool" where
  "packet_step addr i s e = (\<lambda>(r, s', e').
     same_window s s' \<and> adds_one addr e e' \<and>
     (packets s' = packets s \<and> sent e' = sent e \<and>
        (acked (packets s ! i) \<or> \<not> waited_enough (packets s ! i) (next_now e) \<or> r \<noteq> None)
      \<or> \<not> acked (packets s ! i) \<and> attempts (packets s ! i) \<noteq> maxSendAttempts \<and>
        (\<exists>k \<ge> clock_pos e. k < clock_pos e' \<and>
           packets s' = (packets s)[i := attempt (clock e k + waited e) (packets s ! i)])))"

lemma count_retransmit_fields [simp]:
  "packets (fst (count_retransmit s e)) = packets s" "shift (fst (count_retransmit s e)) = shift s"
  "relative_shift (fst (count_retransmit s e)) = relative_shift s" "awindow (fst (count_retransmit s e)) = awindow s"
  "balancerCounter (fst (count_retransmit s e)) = balancerCounter s"
  "overflowIndicator (fst (count_retransmit s e)) = overflowIndicator s"
  "same_net e (snd (count_retransmit s e))"
  "clock_pos (snd (count_retransmit s e)) = clock_pos e" "clock (snd (count_retransmit s e)) = clock e"
  "waited (snd (count_retransmit s e)) = waited e" "sent (snd (count_retransmit s e)) = sent e"
  by (simp_all add: count_retransmit_def same_net_def inc_def)

lemma tick_fields [simp]:
  "fst (tick e) = next_now e" "clock_pos (snd (tick e)) = Suc (clock_pos e)" "clock (snd (tick e)) = clock e"
  "waited (snd (tick e)) = waited e" "sent (snd (tick e)) = sent e" "chan (snd (tick e)) = chan e"
  "wres (snd (tick e)) = wres e" "reads (snd (tick e)) = reads e"
  by (simp_all add: tick_def next_now_def)

lemma inc_fields [simp]:
  "clock_pos (inc c e) = clock_pos e" "clock (inc c e) = clock e" "waited (inc c e) = waited e"
  "sent (inc c e) = sent e" "chan (inc c e) = chan e" "wres (inc c e) = wres e" "reads (inc c e) = reads e"
  by (simp_all add: inc_def)

text \<open>The attempt itself, common to both bodies.\<close>

lemma packet_step_attempt:
  assumes "\<not> acked (packets s ! i)" "attempts (packets s ! i) \<noteq> maxSendAttempts"
    and "packets s1 = packets s" "same_window s s1" "same_net (snd (tick e)) e1" "clock_pos e1 = Suc (clock_pos e)"
    and "adds_one addr (snd (tick e1)) e2" and "s2 = set_packet i (attempt (next_now e1) (packets s ! i)) s1"
  shows "packet_step addr i s e (r, s2, e2)"
proof -
  have "same_net e e1" using same_net_trans [OF same_net_tick assms(5)] .
  then have "adds_one addr e e2"
    using adds_one_quiet(1) [OF same_net_trans [OF _ same_net_tick] assms(7)] by blast
  moreover have "same_window s s2"
    using assms(3,4,8) by (simp add: same_window_def set_packet_def)
  moreover have "packets s2 = (packets s)[i := attempt (clock e (clock_pos e1) + waited e) (packets s ! i)]"
    using assms(3,8) \<open>same_net e e1\<close> by (simp add: set_packet_def next_now_def same_net_def)
  moreover have "clock_pos e \<le> clock_pos e1" "clock_pos e1 < clock_pos e2"
    using assms(6,7) by (simp_all add: adds_one_def)
  ultimately show ?thesis
    using assms(1,2) unfolding packet_step_def by blast
qed

lemma packet_step_none:
  assumes "packets s1 = packets s" "same_window s s1" "same_net e e1"
    and "acked (packets s ! i) \<or> \<not> waited_enough (packets s ! i) (next_now e) \<or> r \<noteq> None"
  shows "packet_step addr i s e (r, s1, e1)"
  using assms adds_one_quiet(3) [OF assms(3), of addr] by (simp add: packet_step_def same_net_def)

lemma send_packet_step: "packet_step None i s e (send_packet tr i s e)"
proof -
  let ?p = "packets s ! i"
  let ?c = "if attempts ?p > 0 \<and> awindow s \<ge> MIN_WINDOW_SIZE then count_retransmit s (snd (tick e)) else (s, snd (tick e))"
  have c: "packets (fst ?c) = packets s" "same_window s (fst ?c)" "same_net (snd (tick e)) (snd ?c)"
      "clock_pos (snd ?c) = Suc (clock_pos e)"
    by (simp_all add: same_window_def)
  consider "acked ?p" | "\<not> acked ?p" "\<not> waited_enough ?p (next_now e)"
    | "\<not> acked ?p" "waited_enough ?p (next_now e)" "attempts ?p = maxSendAttempts"
    | "\<not> acked ?p" "waited_enough ?p (next_now e)" "attempts ?p \<noteq> maxSendAttempts" by blast
  then show ?thesis
  proof cases
    case 3
    have "same_net e (inc MetricExpiredMessages (snd ?c))"
      by (rule same_net_trans [OF same_net_tick same_net_trans [OF c(3) same_net_inc]])
    with 3 c packet_step_none [OF c(1,2) this] show ?thesis
      by (simp add: send_packet_def Let_def split_beta)
  next
    case 4
    let ?s = "if attempts ?p = 3 then (fst ?c)\<lparr>overflowIndicator := overflowIndicator (fst ?c) + 1\<rparr> else fst ?c"
    have s: "packets ?s = packets s" "same_window s ?s" using c by (simp_all add: same_window_def)
    let ?p' = "attempt (next_now (snd ?c)) ?p"
    have "send_packet tr i s e = (fst (sendToSocket tr (pmessage ?p') (snd (tick (snd ?c)))),
        set_packet i ?p' ?s, snd (sendToSocket tr (pmessage ?p') (snd (tick (snd ?c)))))"
      using 4 by (simp add: send_packet_def Let_def split_beta attempt_def)
    then show ?thesis
      using packet_step_attempt [OF 4(1,3) s c(3,4) adds_one_sendToSocket refl] by simp
  qed (auto simp: send_packet_def Let_def split_beta same_window_def intro: packet_step_none same_net_tick)
qed

lemma send_packet_to_step: "packet_step (Some addr) i s e (send_packet_to tr addr i s e)"
proof -
  let ?p = "packets s ! i"
  let ?s0 = "if attempts ?p = 3 then s\<lparr>overflowIndicator := overflowIndicator s + 1\<rparr> else s"
  let ?c = "if attempts ?p + 1 > 1 \<and> awindow ?s0 > MIN_WINDOW_SIZE then count_retransmit ?s0 (snd (tick e)) else (?s0, snd (tick e))"
  have c: "packets (fst ?c) = packets s" "same_window s (fst ?c)" "same_net (snd (tick e)) (snd ?c)"
      "clock_pos (snd ?c) = Suc (clock_pos e)"
    by (simp_all add: same_window_def)
  consider "acked ?p" | "\<not> acked ?p" "\<not> waited_enough ?p (next_now e)"
    | "\<not> acked ?p" "waited_enough ?p (next_now e)" "attempts ?p = maxSendAttempts"
    | "\<not> acked ?p" "waited_enough ?p (next_now e)" "attempts ?p \<noteq> maxSendAttempts" by blast
  then show ?thesis
  proof cases
    case 3
    have "same_net e (inc MetricExpiredMessages (snd (tick e)))"
      by (rule same_net_trans [OF same_net_tick same_net_inc])
    with 3 packet_step_none [OF refl _ this] show ?thesis
      by (simp add: send_packet_to_def Let_def split_beta same_window_def)
  next
    case 4
    let ?p' = "attempt (next_now (snd ?c)) ?p"
    have "send_packet_to tr addr i s e = (fst (sendToSocketByAddress tr (pmessage ?p') addr (snd (tick (snd ?c)))),
        set_packet i ?p' (fst ?c), snd (sendToSocketByAddress tr (pmessage ?p') addr (snd (tick (snd ?c)))))"
      using 4 by (simp add: send_packet_to_def Let_def split_beta attempt_def)
    then show ?thesis
      using packet_step_attempt [OF 4(1,3) c(1-4) adds_one_sendToSocketByAddress refl] by simp
  qed (auto simp: send_packet_to_def Let_def split_beta same_window_def intro: packet_step_none same_net_tick)
qed

subsection \<open>The invariant of the window\<close>

abbreviation acks :: "arq \<Rightarrow> bool list" where
  "acks s \<equiv> map acked (packets s)"

text \<open>\<open>shift\<close> is the length of the acknowledged prefix, \<open>relative_shift\<close> counts at least every
  acknowledged packet, no packet has more than \<open>maxSendAttempts\<close> attempts, and the window
  never exceeds its maximum.\<close>

definition arq_ok :: "arq \<Rightarrow> bool" where
  "arq_ok s \<longleftrightarrow> shift s = length (takeWhile id (acks s)) \<and>
     length (filter id (acks s)) \<le> relative_shift s \<and>
     (\<forall>p \<in> set (packets s). 0 \<le> attempts p \<and> attempts p \<le> maxSendAttempts) \<and>
     0 \<le> awindow s \<and> awindow s \<le> MAX_WINDOW_SIZE"

definition total_attempts :: "arq \<Rightarrow> int" where
  "total_attempts s = sum_list (map attempts (packets s))"

text \<open>What a pass over the window keeps, and the datagrams it pays for with attempts.\<close>

definition pass :: "arq \<Rightarrow> env \<Rightarrow> arq \<Rightarrow> env \<Rightarrow> bool" where
  "pass s e s' e' \<longleftrightarrow> same_window s s' \<and> acks s' = acks s \<and> map pmessage (packets s') = map pmessage (packets s) \<and>
     (\<forall>p \<in> set (packets s'). 0 \<le> attempts p \<and> attempts p \<le> maxSendAttempts) \<and>
     int (length (sent e')) + total_attempts s \<le> int (length (sent e)) + total_attempts s' \<and>
     clock e' = clock e \<and> waited e' = waited e \<and> clock_pos e \<le> clock_pos e' \<and> chan e' = chan e \<and>
     reads e' = reads e"

lemma arq_ok_pass: "arq_ok s \<Longrightarrow> pass s e s' e' \<Longrightarrow> arq_ok s'"
  by (simp add: arq_ok_def pass_def same_window_def)

lemma pass_trans: "pass s e s1 e1 \<Longrightarrow> pass s1 e1 s2 e2 \<Longrightarrow> pass s e s2 e2"
  by (auto simp: pass_def same_window_def)

lemma pass_refl: "arq_ok s \<Longrightarrow> pass s e s e"
  by (simp add: pass_def arq_ok_def same_window_def)

lemma total_attempts_update:
  "i < length ps \<Longrightarrow> sum_list (map attempts (ps[i := attempt t (ps ! i)])) = sum_list (map attempts ps) + 1"
  by (induction ps arbitrary: i) (auto simp: attempt_def split: nat.splits)

lemma map_update_same: "i < length xs \<Longrightarrow> f y = f (xs ! i) \<Longrightarrow> map f (xs[i := y]) = map f xs"
  by (metis list_update_id map_update nth_map)

lemma packet_step_pass:
  assumes "packet_step addr i s e (r, s', e')" "i < length (packets s)" "arq_ok s"
  shows "pass s e s' e'"
proof (cases "packets s' = packets s \<and> sent e' = sent e")
  case True
  then show ?thesis
    using assms by (auto simp: packet_step_def pass_def arq_ok_def total_attempts_def adds_one_def)
next
  case False
  then obtain t where t: "packets s' = (packets s)[i := attempt t (packets s ! i)]"
    "attempts (packets s ! i) \<noteq> maxSendAttempts"
    using assms(1) by (auto simp: packet_step_def)
  have "packets s ! i \<in> set (packets s)" using assms(2) by simp
  then have "attempts (packets s ! i) < maxSendAttempts" "0 \<le> attempts (packets s ! i)"
    using assms(3) t(2) by (fastforce simp: arq_ok_def)+
  then have "\<forall>p \<in> set (packets s'). 0 \<le> attempts p \<and> attempts p \<le> maxSendAttempts"
    using assms(3) set_update_subset_insert [of "packets s" i] unfolding t(1)
    by (fastforce simp: arq_ok_def attempt_def)
  moreover have "acks s' = acks s" "map pmessage (packets s') = map pmessage (packets s)"
    unfolding t(1) using assms(2) by (auto intro: map_update_same simp: attempt_def)
  moreover have "total_attempts s' = total_attempts s + 1"
    unfolding total_attempts_def t(1) using assms(2) by (rule total_attempts_update)
  ultimately show ?thesis
    using assms(1) unfolding packet_step_def pass_def adds_one_def by auto
qed

lemma send_range_pass:
  assumes "\<And>i s e. packet_step addr i s e (f i s e)"
  shows "arq_ok s \<Longrightarrow> set is \<subseteq> {..<length (packets s)} \<Longrightarrow> send_range f is s e = (r, s', e') \<Longrightarrow> pass s e s' e'"
proof (induction "is" arbitrary: s e)
  case Nil
  then show ?case by (simp add: pass_refl)
next
  case (Cons i "is")
  obtain r1 s1 e1 where f: "f i s e = (r1, s1, e1)" by (cases "f i s e")
  have p: "pass s e s1 e1"
    using packet_step_pass [of addr i s e r1 s1 e1] assms [of i s e] Cons.prems f by simp
  show ?case
  proof (cases r1)
    case None
    have "length (packets s1) = length (packets s)" using p by (simp add: pass_def same_window_def)
    then have "pass s1 e1 s' e'"
      using Cons.IH [of s1 e1] Cons.prems f None arq_ok_pass [OF Cons.prems(1) p] by simp
    with p show ?thesis by (rule pass_trans)
  next
    case (Some err)
    with Cons.prems f p show ?thesis by simp
  qed
qed

lemma window_stop_le: "window_stop s \<le> length (packets s)"
  by (auto simp: window_stop_def Let_def)

lemma window_range: "set [k ..< window_stop s] \<subseteq> {..<length (packets s)}"
  using window_stop_le [of s] by auto

lemma sendPackets_pass: "arq_ok s \<Longrightarrow> sendPackets tr s e = (r, s', e') \<Longrightarrow> pass s e s' e'"
  unfolding sendPackets_def by (rule send_range_pass [OF send_packet_step _ window_range])

lemma sendPacketsToAddr_pass:
  assumes "arq_ok s" "sendPacketsToAddr tr addr s e = (r, s', e')"
  shows "pass s e s' e'"
proof (cases "shift s = length (packets s)")
  case True
  with assms show ?thesis by (simp add: sendPacketsToAddr_def pass_refl)
next
  case False
  with assms(2) have "send_range (send_packet_to tr addr) [shift s ..< window_stop s] s e = (r, s', e')"
    by (simp add: sendPacketsToAddr_def)
  then show ?thesis by (rule send_range_pass [OF send_packet_to_step assms(1) window_range])
qed

text \<open>The invariant holds at the start and is kept by an acknowledgement.\<close>

lemma arq_ok_new: "0 \<le> w \<Longrightarrow> w \<le> MAX_WINDOW_SIZE \<Longrightarrow> arq_ok (new_arq msgs w)"
  by (cases msgs) (auto simp: arq_ok_def new_arq_def comp_def filter_False)

lemma takeWhile_update:
  "n < length bs \<Longrightarrow> n = length (takeWhile id bs) \<Longrightarrow>
   length (takeWhile id (bs[n := True])) = n + 1 + length (takeWhile id (drop (n + 1) bs))"
proof (induction bs arbitrary: n)
  case (Cons b bs)
  then show ?case by (cases b; cases n) (auto split: if_splits)
qed simp

lemma takeWhile_update_other:
  "n < length bs \<Longrightarrow> n \<noteq> length (takeWhile id bs) \<Longrightarrow> takeWhile id (bs[n := True]) = takeWhile id bs"
proof (induction bs arbitrary: n)
  case (Cons b bs)
  then show ?case by (cases b; cases n) (auto split: if_splits)
qed simp

lemma filter_update_length: "length (filter id (bs[n := True])) \<le> Suc (length (filter id bs))"
proof (induction bs arbitrary: n)
  case (Cons b bs)
  then show ?case by (cases n) (auto simp: le_SucI)
qed simp

lemma balance_window_fields [simp]:
  "packets (balance_window s) = packets s" "shift (balance_window s) = shift s"
  "relative_shift (balance_window s) = relative_shift s"
  "MIN_WINDOW_SIZE \<le> awindow (balance_window s) \<and> awindow (balance_window s) \<le> MAX_WINDOW_SIZE"
  by (simp_all add: balance_window_def Let_def limit_defs)

lemma arq_ok_ack:
  assumes "arq_ok s" "n < length (packets s)"
  shows "arq_ok (ack_packet n s)" "total_attempts (ack_packet n s) = total_attempts s"
    "map pmessage (packets (ack_packet n s)) = map pmessage (packets s)"
proof -
  let ?p = "(packets s)[n := (packets s ! n)\<lparr>acked := True\<rparr>]"
  have ps: "packets (ack_packet n s) = ?p"
    by (simp add: ack_packet_def Let_def set_packet_def)
  have sh: "shift (ack_packet n s) = (if n = shift s then shift s + 1 + length (takeWhile acked (drop (shift s + 1) ?p)) else shift s)"
    by (simp add: ack_packet_def Let_def set_packet_def)
  have rel: "relative_shift (ack_packet n s) = relative_shift s + 1"
    by (simp add: ack_packet_def Let_def set_packet_def)
  have w: "0 \<le> awindow (ack_packet n s) \<and> awindow (ack_packet n s) \<le> MAX_WINDOW_SIZE"
  proof -
    have "0 \<le> awindow (balance_window t) \<and> awindow (balance_window t) \<le> MAX_WINDOW_SIZE" for t
      using balance_window_fields(4) [of t] unfolding limit_defs by linarith
    moreover have "0 \<le> awindow s \<and> awindow s \<le> MAX_WINDOW_SIZE"
      using assms(1) unfolding arq_ok_def by blast
    ultimately show ?thesis by (simp add: ack_packet_def Let_def set_packet_def)
  qed
  have a: "map acked ?p = (acks s)[n := True]" by (simp add: map_update)
  have tw: "length (takeWhile acked (drop (shift s + 1) ?p)) = length (takeWhile id (drop (shift s + 1) (acks s)))" if "n = shift s"
    using that by (simp add: drop_map takeWhile_map comp_def)
  have "shift (ack_packet n s) = length (takeWhile id ((acks s)[n := True]))"
    using assms takeWhile_update [of n "acks s"] takeWhile_update_other [of n "acks s"] sh tw
    by (auto simp: arq_ok_def)
  moreover have "length (filter id ((acks s)[n := True])) \<le> relative_shift s + 1"
    using filter_update_length [of "acks s" n] assms(1) by (simp add: arq_ok_def)
  moreover have "\<forall>p \<in> set ?p. 0 \<le> attempts p \<and> attempts p \<le> maxSendAttempts"
  proof
    fix p assume "p \<in> set ?p"
    then have "p \<in> insert ((packets s ! n)\<lparr>acked := True\<rparr>) (set (packets s))"
      using set_update_subset_insert by fast
    then show "0 \<le> attempts p \<and> attempts p \<le> maxSendAttempts"
      using assms by (auto simp: arq_ok_def)
  qed
  ultimately show "arq_ok (ack_packet n s)"
    unfolding arq_ok_def ps a rel using w by simp
  show "total_attempts (ack_packet n s) = total_attempts s"
    unfolding total_attempts_def ps using assms(2) by (subst map_update_same) simp_all
  show "map pmessage (packets (ack_packet n s)) = map pmessage (packets s)"
    unfolding ps using assms(2) by (intro map_update_same) simp_all
qed

subsection \<open>The datagrams of a transfer\<close>

lemma total_attempts_bound: "arq_ok s \<Longrightarrow> total_attempts s \<le> 6 * int (length (packets s))"
proof -
  have "\<forall>p \<in> set ps. attempts p \<le> 6 \<Longrightarrow> sum_list (map attempts ps) \<le> 6 * int (length ps)" for ps
    by (induction ps) auto
  then show "arq_ok s \<Longrightarrow> ?thesis" by (auto simp: arq_ok_def total_attempts_def limit_defs)
qed

lemma pass_length: "pass s e s' e' \<Longrightarrow> length (packets s') = length (packets s)"
  by (simp add: pass_def same_window_def)

lemma arq_ok_counter [simp]: "arq_ok (s\<lparr>balancerCounter := k\<rparr>) = arq_ok s"
  "total_attempts (s\<lparr>balancerCounter := k\<rparr>) = total_attempts s"
  by (simp_all add: arq_ok_def total_attempts_def)

lemma ack_packet_length: "length (packets (ack_packet n s)) = length (packets s)"
  by (simp add: ack_packet_def Let_def set_packet_def)

text \<open>What a round of either loop keeps, and what it pays for.\<close>

definition round_ok :: "arq \<Rightarrow> env \<Rightarrow> arq \<Rightarrow> env \<Rightarrow> bool" where
  "round_ok s e s' e' \<longleftrightarrow> arq_ok s' \<and> map pmessage (packets s') = map pmessage (packets s) \<and>
     (awindow s' = awindow s \<or> MIN_WINDOW_SIZE \<le> awindow s') \<and>
     int (length (sent e')) + total_attempts s \<le> int (length (sent e)) + total_attempts s'"

lemma round_ok_pass: "arq_ok s \<Longrightarrow> pass s e s' e' \<Longrightarrow> round_ok s e s' e'"
  by (simp add: round_ok_def arq_ok_pass) (simp add: pass_def same_window_def)

lemma ack_packet_window:
  "awindow (ack_packet n s) = awindow s \<or> MIN_WINDOW_SIZE \<le> awindow (ack_packet n s)"
  using balance_window_fields(4) by (auto simp: ack_packet_def Let_def set_packet_def)

lemma round_ok_ack:
  assumes "arq_ok s" "n < length (packets s)"
    and "arq_ok (ack_packet n (s\<lparr>balancerCounter := k\<rparr>)) \<Longrightarrow> pass (ack_packet n (s\<lparr>balancerCounter := k\<rparr>)) e s' e'"
  shows "round_ok s e s' e'"
  using arq_ok_ack [of "s\<lparr>balancerCounter := k\<rparr>" n] assms round_ok_pass [of "ack_packet n (s\<lparr>balancerCounter := k\<rparr>)" e s' e']
    ack_packet_window [of n "s\<lparr>balancerCounter := k\<rparr>"]
  by (auto simp: round_ok_def)

lemma round_ok_counter: "arq_ok s \<Longrightarrow> round_ok s e (s\<lparr>balancerCounter := k\<rparr>) e"
  by (simp add: round_ok_def)

lemma round_ok_refl: "arq_ok s \<Longrightarrow> round_ok s e s e"
  by (simp add: round_ok_def)

lemma block2_step_ok:
  assumes ok: "arq_ok s" and r: "block2_step tr m addr ev s e = (r, s', e')"
  shows "round_ok s e s' e'"
proof (cases ev)
  case ChanTimeout
  obtain q s1 e1 where p: "sendPacketsToAddr tr addr s (wait_for timeWait e) = (q, s1, e1)"
    by (cases "sendPacketsToAddr tr addr s (wait_for timeWait e)")
  have "round_ok s (wait_for timeWait e) s1 e1" using round_ok_pass [OF ok sendPacketsToAddr_pass [OF ok p]] .
  then show ?thesis
    using r p ChanTimeout by (cases q) (simp_all add: block2_step.simps round_ok_def wait_for_def)
next
  case (ChanMessage resp)
  let ?s = "\<lambda>blk. ack_packet (nat (BlockNumber blk)) (s\<lparr>balancerCounter := balancerCounter s + 1\<rparr>)"
  have ack: "round_ok s e s1 e1"
    if "sendPacketsToAddr tr addr (?s blk) e = (q, s1, e1)" "0 \<le> BlockNumber blk" "BlockNumber blk < int (length (packets s))"
    for blk q s1 e1
    using that ok by (intro round_ok_ack [OF ok, of "nat (BlockNumber blk)"]) (auto intro: sendPacketsToAddr_pass)
  show ?thesis
    using r ok unfolding ChanMessage block2_step.simps Let_def
    by (auto split: if_splits option.splits prod.splits intro: round_ok_refl round_ok_counter ack)
qed

lemma round_ok_length: "round_ok s e s' e' \<Longrightarrow> length (packets s') = length (packets s)"
  unfolding round_ok_def by (metis length_map)

lemma block2_loop_budget:
  "arq_ok s \<Longrightarrow> block2_loop tr m addr evs s e = (r, e') \<Longrightarrow>
   int (length (sent e')) + total_attempts s \<le> int (length (sent e)) + 6 * int (length (packets s))"
proof (induction evs arbitrary: s e)
  case Nil
  then show ?case using total_attempts_bound [of s] by auto
next
  case (Cons ev evs)
  obtain q s1 e1 where st: "block2_step tr m addr ev s e = (q, s1, e1)" by (cases "block2_step tr m addr ev s e")
  have k: "round_ok s e s1 e1" by (rule block2_step_ok [OF Cons.prems(1) st])
  have "int (length (sent e')) + total_attempts s1 \<le> int (length (sent e1)) + 6 * int (length (packets s1))"
    using Cons.IH [of s1 e1] Cons.prems(2) st k total_attempts_bound [of s1]
    by (cases q) (auto simp: block2_loop.simps(2) round_ok_def)
  then show ?case using k round_ok_length [OF k] by (simp add: round_ok_def)
qed

lemma adds_one_length: "adds_one a e e' \<Longrightarrow> length (sent e') \<le> Suc (length (sent e))"
  by (auto simp: adds_one_def)

lemma with_ids_split: "with_ids f e = (fst (f (ids e)), e\<lparr>ids := snd (f (ids e))\<rparr>)"
  by (simp add: with_ids_def split_beta Let_def)

lemma new_state_window: "0 \<le> windowsize (new_state_send m) \<and> windowsize (new_state_send m) \<le> MAX_WINDOW_SIZE"
  by (simp add: new_state_send_def Let_def limit_defs pos_imp_zdiv_nonneg_iff)

lemma construct_blocks_new:
  assumes "bt = OptionBlock1 \<or> bt = OptionBlock2"
  obtains msgs g' where "construct_blocks bt (new_state_send m) g = Some (msgs, g')"
    "length msgs = max 1 ((length (frame m) + 1023) div 1024)"
    "\<forall>i < length msgs. block_of bt m (Suc i < length msgs) (int i) 1024 (msgs ! i)"
proof -
  let ?s = "new_state_send m"
  have s: "lenght ?s = length (spayload ?s)" "start ?s \<le> lenght ?s" "blockSize ?s = 1024"
    "spayload ?s = frame m" "start ?s = 0" "nextNumBlock ?s = 0" "origMessage ?s = m"
    by (simp_all add: new_state_send_def Let_def frame_def MAX_PAYLOAD_SIZE_def)
  have bt: "bt \<notin> set repeatable_codes" "bt \<notin> {OptionProxyURI, OptionProxySecurityID, OptionURIScheme}"
    using assms by (auto simp: repeatable_codes_def)
  obtain msgs g' where r: "construct_blocks bt ?s g = Some (msgs, g')" "map frame msgs = chunks 1024 (frame m)"
    "\<forall>i < length msgs. block_of bt m (Suc i < length msgs) (int i) 1024 (msgs ! i)"
    using construct_blocks_chunks [OF bt s(1,2)] s by (metis add_0 drop_0 zero_less_numeral)
  have "length msgs = length (chunks 1024 (frame m))" using r(2) by (metis length_map)
  then show thesis
    using that [of msgs g'] r(1,3) length_chunks [of 1024 "frame m"] by simp
qed

subsection \<open>A silent receiver\<close>

lemma shift_first_unacked:
  assumes "arq_ok s" "shift s \<noteq> length (packets s)"
  shows "shift s < length (packets s)" "\<not> acked (packets s ! shift s)" "shift s \<le> relative_shift s"
proof -
  have sh: "shift s = length (takeWhile id (acks s))" "length (filter id (acks s)) \<le> relative_shift s"
    using assms(1) by (auto simp: arq_ok_def)
  have "length (takeWhile id (acks s)) \<le> length (acks s)" by (rule length_takeWhile_le)
  with sh assms(2) show lt: "shift s < length (packets s)" by simp
  then have "\<not> id (acks s ! length (takeWhile id (acks s)))"
    using sh(1) nth_length_takeWhile [of id "acks s"] by (metis length_map)
  then show "\<not> acked (packets s ! shift s)" using sh(1) lt by simp
  have "length (takeWhile id bs) \<le> length (filter id bs)" for bs
    by (induction bs) auto
  then show "shift s \<le> relative_shift s" using sh order_trans by metis
qed

definition sent_before :: "arq \<Rightarrow> env \<Rightarrow> bool" where
  "sent_before s e \<longleftrightarrow> (\<forall>t. lastSend (packets s ! shift s) = Some t \<longrightarrow> t \<le> next_now e)"

lemma packet_step_other:
  "packet_step addr i s e (r, s', e') \<Longrightarrow> j \<noteq> i \<Longrightarrow> packets s' ! j = packets s ! j"
  by (auto simp: packet_step_def)

lemma send_range_other:
  assumes "\<And>i s e. packet_step addr i s e (f i s e)" "j \<notin> set is" "send_range f is s e = (r, s', e')"
  shows "packets s' ! j = packets s ! j \<and> clock_pos e \<le> clock_pos e'"
  using assms(2,3)
proof (induction "is" arbitrary: s e)
  case (Cons i "is")
  obtain r1 s1 e1 where f: "f i s e = (r1, s1, e1)" by (cases "f i s e")
  have "packet_step addr i s e (r1, s1, e1)" using assms(1) [of i s e] f by simp
  then have "packets s1 ! j = packets s ! j" "clock_pos e \<le> clock_pos e1"
    using packet_step_other [of addr i s e r1 s1 e1 j] Cons.prems(1)
    by (simp, simp add: packet_step_def adds_one_def)
  moreover have "packets s' ! j = packets s1 ! j \<and> clock_pos e1 \<le> clock_pos e'"
  proof (cases r1)
    case None
    with Cons.prems f show ?thesis by (intro Cons.IH) simp_all
  qed (use Cons.prems f in simp)
  ultimately show ?case by simp
qed simp

text \<open>A pass only touches packets of the window that are not acknowledged.\<close>

lemma send_range_touches:
  assumes "\<And>i s e. packet_step addr i s e (f i s e)"
  shows "send_range f is s e = (r, s', e') \<Longrightarrow> packets s' ! j \<noteq> packets s ! j \<Longrightarrow> j \<in> set is \<and> \<not> acked (packets s ! j)"
proof (induction "is" arbitrary: s e)
  case (Cons i "is")
  obtain r1 s1 e1 where f: "f i s e = (r1, s1, e1)" by (cases "f i s e")
  have p: "packet_step addr i s e (r1, s1, e1)" using assms(1) [of i s e] f by simp
  show ?case
  proof (cases "packets s1 ! j = packets s ! j")
    case True
    then show ?thesis using Cons.IH [of s1 e1] Cons.prems f by (cases r1) simp_all
  next
    case False
    then have "j = i" using packet_step_other [OF p] by blast
    then show ?thesis using p False by (auto simp: packet_step_def)
  qed
qed simp

text \<open>No packet was sent in the future.\<close>

definition sent_past :: "arq \<Rightarrow> env \<Rightarrow> bool" where
  "sent_past s e \<longleftrightarrow> (\<forall>p \<in> set (packets s). \<forall>t. lastSend p = Some t \<longrightarrow> t \<le> next_now e)"

lemma packet_step_past:
  assumes "packet_step addr i s e (r, s', e')" "sent_past s e" "mono_clock e"
  shows "sent_past s' e'"
proof -
  have e': "clock e' = clock e" "waited e' = waited e" "clock_pos e \<le> clock_pos e'"
    using assms(1) by (auto simp: packet_step_def adds_one_def)
  then have le: "next_now e \<le> next_now e'" using assms(3) by (simp add: next_now_def mono_clock_def)
  then have old: "sent_past s e'" using assms(2) unfolding sent_past_def by (meson order_trans)
  show ?thesis
  proof (cases "packets s' = packets s")
    case False
    then obtain k where k: "k < clock_pos e'"
      "packets s' = (packets s)[i := attempt (clock e k + waited e) (packets s ! i)]"
      using assms(1) unfolding packet_step_def by blast
    then have "clock e k + waited e \<le> next_now e'"
      using e' assms(3) by (simp add: next_now_def mono_clock_def)
    moreover have "set (packets s') \<subseteq> insert (attempt (clock e k + waited e) (packets s ! i)) (set (packets s))"
      unfolding k(2) by (rule set_update_subset_insert)
    ultimately show ?thesis using old by (fastforce simp: sent_past_def attempt_def)
  qed (use old in \<open>simp add: sent_past_def\<close>)
qed

lemma send_range_past:
  assumes "\<And>i s e. packet_step addr i s e (f i s e)"
  shows "sent_past s e \<Longrightarrow> mono_clock e \<Longrightarrow> send_range f is s e = (r, s', e') \<Longrightarrow> sent_past s' e'"
proof (induction "is" arbitrary: s e)
  case (Cons i "is")
  obtain r1 s1 e1 where f: "f i s e = (r1, s1, e1)" by (cases "f i s e")
  have st: "packet_step addr i s e (r1, s1, e1)" using assms [of i s e] f by simp
  have "sent_past s1 e1" by (rule packet_step_past [OF st Cons.prems(1,2)])
  moreover have "mono_clock e1" using st Cons.prems(2) by (simp add: packet_step_def adds_one_def mono_clock_def)
  ultimately show ?case using Cons.IH [of s1 e1] Cons.prems(3) f by (cases r1) simp_all
qed simp

lemma sendPacketsToAddr_past:
  "sent_past s e \<Longrightarrow> mono_clock e \<Longrightarrow> sendPacketsToAddr tr addr s e = (r, s', e') \<Longrightarrow> sent_past s' e'"
  unfolding sendPacketsToAddr_def
  by (cases "shift s = length (packets s)") (auto dest: send_range_past [OF send_packet_to_step])

text \<open>A round after the timeout either ends the transfer or spends an attempt of the first
  unacknowledged packet.\<close>

lemma timeout_round:
  assumes ok: "arq_ok s" and w: "1 \<le> awindow s" and lt: "shift s \<noteq> length (packets s)"
    and clk: "mono_clock e" "sent_before s e"
    and r: "sendPacketsToAddr tr addr s (wait_for timeWait e) = (None, s', e')"
  shows "attempts (packets s' ! shift s') = attempts (packets s ! shift s) + 1 \<and>
    attempts (packets s ! shift s) < 6 \<and> sent_before s' e' \<and> mono_clock e' \<and> 1 \<le> awindow s' \<and>
    shift s' \<noteq> length (packets s')"
proof -
  let ?e = "wait_for timeWait e" and ?i = "shift s"
  note sh = shift_first_unacked [OF ok lt]
  have "?i < window_stop s" using w sh by (auto simp: window_stop_def Let_def nat_less_iff zless_nat_eq_int_zless)
  then have range: "[?i ..< window_stop s] = ?i # [Suc ?i ..< window_stop s]" by (simp add: upt_conv_Cons)
  obtain r1 s1 e1 where f: "send_packet_to tr addr ?i s ?e = (r1, s1, e1)"
    by (cases "send_packet_to tr addr ?i s ?e")
  have st: "packet_step (Some addr) ?i s ?e (r1, s1, e1)"
    using send_packet_to_step [of addr ?i s ?e tr] f by simp
  have r1: "r1 = None" and rest: "send_range (send_packet_to tr addr) [Suc ?i ..< window_stop s] s1 e1 = (None, s', e')"
    using r lt f unfolding sendPacketsToAddr_def range by (auto split: option.splits)
  have "waited_enough (packets s ! ?i) (next_now ?e)"
    using clk(2) by (auto simp: waited_enough_def sent_before_def next_now_def wait_for_def split: option.split)
  then obtain k where k: "clock_pos ?e \<le> k" "k < clock_pos e1"
    "packets s1 = (packets s)[?i := attempt (clock ?e k + waited ?e) (packets s ! ?i)]"
    "attempts (packets s ! ?i) \<noteq> maxSendAttempts"
    using st r1 sh(2) by (auto simp: packet_step_def)
  have o: "packets s' ! ?i = packets s1 ! ?i" "clock_pos e1 \<le> clock_pos e'"
    using send_range_other [OF send_packet_to_step _ rest, of ?i] by auto
  then have p: "packets s' ! ?i = attempt (clock ?e k + waited ?e) (packets s ! ?i)"
    using k(3) sh(1) by simp
  have q: "pass s ?e s' e'" using sendPacketsToAddr_pass [OF ok r] .
  have same: "shift s' = ?i" "awindow s' = awindow s" "length (packets s') = length (packets s)"
    "clock e' = clock e" "waited e' = waited ?e"
    using q by (auto simp: pass_def same_window_def wait_for_def)
  have "packets s ! ?i \<in> set (packets s)" using sh(1) by simp
  then have "attempts (packets s ! ?i) \<le> 6" using ok by (fastforce simp: arq_ok_def limit_defs)
  then have "attempts (packets s ! ?i) < 6" using k(4) by (simp add: limit_defs)
  moreover have "clock e k \<le> clock e (clock_pos e')"
    using clk(1) k(2) o(2) by (simp add: mono_clock_def)
  ultimately show ?thesis
    using p same w lt clk(1) by (simp add: attempt_def sent_before_def next_now_def mono_clock_def wait_for_def)
qed

lemma silent_receiver:
  assumes "arq_ok s" "1 \<le> awindow s" "mono_clock e" "0 < n"
    and "shift s \<noteq> length (packets s) \<longrightarrow>
      sent_before s e \<and> 7 \<le> attempts (packets s ! shift s) + int n"
  shows "fst (block2_loop tr m addr (replicate n ChanTimeout @ evs) s e) \<noteq> None"
  using assms
proof (induction n arbitrary: s e)
  case (Suc n)
  obtain r s1 e1 where p: "sendPacketsToAddr tr addr s (wait_for timeWait e) = (r, s1, e1)"
    by (cases "sendPacketsToAddr tr addr s (wait_for timeWait e)")
  show ?case
  proof (cases r)
    case None
    have lt: "shift s \<noteq> length (packets s)" using p None by (auto simp: sendPacketsToAddr_def)
    then have b: "sent_before s e" "7 \<le> attempts (packets s ! shift s) + int (Suc n)" using Suc.prems(5) by auto
    note t = timeout_round [OF Suc.prems(1,2) lt Suc.prems(3) b(1) p [unfolded None]]
    then have "0 < n" using b(2) by (cases n) auto
    moreover have "arq_ok s1" using arq_ok_pass [OF Suc.prems(1) sendPacketsToAddr_pass [OF Suc.prems(1) p]] .
    ultimately show ?thesis
      using Suc.IH [of s1 e1] t b(2) p None by simp
  qed (simp add: p)
qed simp

subsection \<open>Properties\<close>

text \<open>Every transfer opens the same way: the empty acknowledgement, the blocks and the first window; then comes
  the loop.\<close>

lemma transfer_opening:
  obtains (failed) err e1 where "sendARQBlock2ACK tr m addr e = (Some (Some err), e1)"
      "length (sent e1) \<le> Suc (length (sent e))"
  | (opened) s e1 r s2 e2 where "sendPacketsToAddr tr addr s e1 = (r, s2, e2)" "arq_ok s" "sent_past s e1"
      "total_attempts s = 0" "awindow s = windowsize (new_state_send m)"
      "length (packets s) = max 1 ((length (frame m) + 1023) div 1024)"
      "clock e1 = clock e" "chan e1 = chan e" "length (sent e1) \<le> Suc (length (sent e))"
      "pass s e1 s2 e2" "arq_ok s2"
      "sendARQBlock2ACK tr m addr e =
        (case r of Some err \<Rightarrow> (Some (Some err), e2) | None \<Rightarrow> block2_loop tr m addr (chan e2) s2 e2)"
proof -
  let ?st = "new_state_send m"
  obtain a g where a: "newACKEmptyMessage m (windowsize ?st) (ids e) = (a, g)" by fastforce
  obtain r1 e1 where e1: "sendToSocketByAddress tr a addr (e\<lparr>ids := g\<rparr>) = (r1, e1)" by fastforce
  have s1: "clock e1 = clock e" "chan e1 = chan e" "length (sent e1) \<le> Suc (length (sent e))"
    using adds_one_sendToSocketByAddress [of addr "e\<lparr>ids := g\<rparr>" tr a] e1 by (auto simp: adds_one_def)
  show thesis
  proof (cases r1)
    case (Some err)
    then show thesis using failed [of err e1] s1 a e1 by (simp add: sendARQBlock2ACK_def Let_def with_ids_split)
  next
    case None
    obtain msgs g' where c: "construct_blocks OptionBlock2 ?st (ids e1) = Some (msgs, g')"
      "length msgs = max 1 ((length (frame m) + 1023) div 1024)"
      using construct_blocks_new by blast
    let ?s = "new_arq msgs (windowsize ?st)" and ?e = "e1\<lparr>ids := g'\<rparr>"
    obtain r2 s2 e2 where p: "sendPacketsToAddr tr addr ?s ?e = (r2, s2, e2)"
      by (cases "sendPacketsToAddr tr addr ?s ?e")
    have ok: "arq_ok ?s" using new_state_window by (simp add: arq_ok_new)
    have new: "sent_past ?s ?e" "total_attempts ?s = 0" "length (packets ?s) = length msgs"
      "awindow ?s = windowsize ?st"
      by (simp_all add: sent_past_def total_attempts_def new_arq_def comp_def)
    have q: "pass ?s ?e s2 e2" using sendPacketsToAddr_pass [OF ok p] .
    show thesis
      using opened [OF p ok new(1,2,4) _ _ _ _ q arq_ok_pass [OF ok q]] new(3) s1 a e1 c p None
      by (cases r2) (simp_all add: sendARQBlock2ACK_def Let_def with_ids_split)
  qed
qed

text \<open>C24: A transfer never floods the peer: whatever acknowledgements and timeouts come, sending a
  large acknowledgement writes at most one datagram for the empty acknowledgement and six
  for each started 1024 bytes of the payload.\<close>

theorem transfer_datagram_bound:
  "length (sent (snd (sendARQBlock2ACK tr m addr e))) \<le>
     length (sent e) + 1 + 6 * max 1 ((length (frame m) + 1023) div 1024)"
proof (cases rule: transfer_opening [of tr m addr e])
  case (failed err e1)
  then show ?thesis by simp
next
  case (opened s e1 r s2 e2)
  have "int (length (sent (snd (sendARQBlock2ACK tr m addr e)))) + total_attempts s2
      \<le> int (length (sent e2)) + 6 * int (length (packets s))"
  proof (cases r)
    case None
    obtain r3 e3 where l: "block2_loop tr m addr (chan e2) s2 e2 = (r3, e3)" by fastforce
    then show ?thesis using None opened(12) block2_loop_budget [OF opened(11) l] pass_length [OF opened(10)] by simp
  next
    case (Some err)
    then show ?thesis using opened(12) total_attempts_bound [OF opened(11)] pass_length [OF opened(10)] by simp
  qed
  then show ?thesis using opened(4,6,9,10) by (simp add: pass_def)
qed

text \<open>C25: A transfer to a receiver that has gone silent ends: after at most seven timeouts without
  an acknowledgement the sender of a non-empty large acknowledgement has returned.\<close>

theorem transfer_gives_up:
  assumes "mono_clock e" "frame m \<noteq> []" "chan e = replicate 7 ChanTimeout @ evs"
  shows "fst (sendARQBlock2ACK tr m addr e) \<noteq> None"
proof (cases rule: transfer_opening [of tr m addr e])
  case (failed err e1)
  then show ?thesis by simp
next
  case (opened s e1 r s2 e2)
  note q = opened(10) and ok2 = opened(11)
  have w2: "1 \<le> awindow s2"
    using assms(2) q opened(5) by (auto simp: pass_def same_window_def new_state_send_def Let_def limit_defs frame_def
        pos_imp_zdiv_pos_iff zdiv_mono1 int_one_le_iff_zero_less zero_less_mult_iff Suc_le_eq split: option.splits)
  have clk2: "mono_clock e2" using q opened(7) assms(1) by (simp add: pass_def mono_clock_def)
  show ?thesis
  proof (cases r)
    case None
    have "sent_past s2 e2"
      using sendPacketsToAddr_past [OF opened(3) _ opened(1) [unfolded None]] opened(7) assms(1)
      by (simp add: mono_clock_def)
    then have "shift s2 \<noteq> length (packets s2) \<longrightarrow> sent_before s2 e2 \<and> 0 \<le> attempts (packets s2 ! shift s2)"
      using ok2 shift_first_unacked(1) [OF ok2] by (auto simp: sent_past_def sent_before_def arq_ok_def)
    then have "fst (block2_loop tr m addr (replicate 7 ChanTimeout @ evs) s2 e2) \<noteq> None"
      by (intro silent_receiver [OF ok2 w2 clk2]) auto
    then show ?thesis using opened(8,12) q assms(3) None by (simp add: pass_def)
  next
    case (Some err)
    then show ?thesis using opened(12) by simp
  qed
qed

theorem transfer_gives_up_witness:
  "fst (sendARQBlock2ACK sample_transport (zero_msg\<lparr>Payload := Some (BytesPayload [1])\<rparr>) (lit ''p:1'')
     (sample_env\<lparr>chan := replicate 7 ChanTimeout\<rparr>)) \<noteq> None"
proof -
  have "mono_clock (sample_env\<lparr>chan := replicate 7 ChanTimeout\<rparr>)"
    by (simp add: mono_clock_def sample_env_def)
  moreover have "frame (zero_msg\<lparr>Payload := Some (BytesPayload [1])\<rparr>) \<noteq> []" by (simp add: frame_def)
  ultimately show ?thesis by (rule transfer_gives_up [where evs = "[]"]) simp
qed

lemma block2_loop_success:
  "block2_loop tr m addr evs s e = (Some None, e') \<Longrightarrow>
   \<exists>resp. ChanMessage resp \<in> set evs \<and> Token resp = Token m \<and> MType resp = ACK \<and>
     GetBlock2 resp \<noteq> None \<and> MCode resp \<noteq> CoapCodeContinue"
proof (induction evs arbitrary: s e)
  case (Cons ev evs)
  show ?case
  proof (cases ev)
    case ChanTimeout
    then have "\<exists>s e. block2_loop tr m addr evs s e = (Some None, e')"
      using Cons.prems by (auto split: prod.splits option.splits)
    then obtain s1 e1 where "block2_loop tr m addr evs s1 e1 = (Some None, e')" by blast
    from Cons.IH [OF this] show ?thesis by auto
  next
    case (ChanMessage resp)
    show ?thesis
    proof (cases "Token resp = Token m \<and> MType resp = ACK \<and> GetBlock2 resp \<noteq> None \<and> MCode resp \<noteq> CoapCodeContinue")
      case False
      then have "\<exists>s e. block2_loop tr m addr evs s e = (Some None, e')"
        using Cons.prems ChanMessage by (auto simp: Let_def split: if_splits option.splits prod.splits)
      then obtain s1 e1 where "block2_loop tr m addr evs s1 e1 = (Some None, e')" by blast
      from Cons.IH [OF this] show ?thesis by auto
    qed (use ChanMessage in auto)
  qed
qed simp

text \<open>C9: A transfer reports success only after the peer has answered: the sender of a large
  acknowledgement returns without an error only if it received an ACK with its token, a
  Block2 option and a code other than Continue.\<close>

theorem transfer_success_acknowledged:
  assumes "sendARQBlock2ACK tr m addr e = (Some None, e')"
  shows "\<exists>resp. ChanMessage resp \<in> set (chan e) \<and> Token resp = Token m \<and> MType resp = ACK \<and>
     GetBlock2 resp \<noteq> None \<and> MCode resp \<noteq> CoapCodeContinue"
proof (cases rule: transfer_opening [of tr m addr e])
  case (failed err e1)
  then show ?thesis using assms by simp
next
  case (opened s e1 r s2 e2)
  then have "chan e2 = chan e" "block2_loop tr m addr (chan e2) s2 e2 = (Some None, e')"
    using assms by (auto simp: pass_def split: option.splits)
  then show ?thesis using block2_loop_success by metis
qed

definition sample_final_ack :: coap_msg where
  "sample_final_ack = AddOption (zero_msg\<lparr>MType := ACK\<rparr>) OptionBlock2 (VUint32 6)"

definition sample_ack_env :: env where
  "sample_ack_env = sample_env\<lparr>chan := [ChanMessage sample_final_ack]\<rparr>"

definition sample_big_ack :: coap_msg where
  "sample_big_ack = zero_msg\<lparr>MType := ACK, Payload := Some (BytesPayload [1, 2, 3])\<rparr>"

text \<open>A message of the coap scheme is written, and an error is an error of the socket.\<close>

lemma plain_send:
  assumes "GetScheme m \<noteq> COAPS_SCHEME"
  shows "\<exists>buf g. sendToSocketByAddress tr m addr e = write_counted (Some addr) buf (e\<lparr>ids := g\<rparr>)"
proof -
  have "GetScheme (fst (Clone m True (ids e))) \<noteq> COAPS_SCHEME"
    using assms by (simp add: Clone_def NewCoAPMessageId_def GetScheme_def GetOption_def split_beta Let_def)
  then show ?thesis
    by (auto simp: sendToSocketByAddress_def preparationSendingMessage_def securityOutputLayer_def
        with_ids_split Let_def)
qed

lemma plain_send_ok:
  assumes "GetScheme m \<noteq> COAPS_SCHEME" "\<forall>n. wres e n = None"
  shows "fst (sendToSocketByAddress tr m addr e) = None"
  using plain_send [OF assms(1), of tr addr e] assms(2)
  by (auto simp: write_counted_def socket_write_def Let_def inc_def)

text \<open>The one block of the sample and the first pass of its transfer.\<close>

lemma sample_first_pass:
  assumes "\<forall>n. wres e n = None"
  obtains b g' s' e' where "construct_blocks OptionBlock2 (new_state_send sample_big_ack) (ids e) = Some ([b], g')"
    "sendPacketsToAddr sample_transport a (new_arq [b] (windowsize (new_state_send sample_big_ack))) (e\<lparr>ids := g'\<rparr>)
      = (None, s', e')"
proof -
  let ?tr = sample_transport and ?m = sample_big_ack
  let ?st = "new_state_send ?m"
  obtain msgs g' where m: "construct_blocks OptionBlock2 ?st (ids e) = Some (msgs, g')"
    "length msgs = max 1 ((length (frame ?m) + 1023) div 1024)"
    "\<forall>i < length msgs. block_of OptionBlock2 ?m (Suc i < length msgs) (int i) 1024 (msgs ! i)"
    using construct_blocks_new by blast
  have fm: "length (frame ?m) = 3" "GetScheme ?m = COAP_SCHEME" by code_simp+
  then obtain b where b: "msgs = [b]" using m(2) by (cases msgs) auto
  then have c: "construct_blocks OptionBlock2 ?st (ids e) = Some ([b], g')" "GetScheme b \<noteq> COAPS_SCHEME"
    using m fm by (auto simp: block_of_def)
  have ws: "windowsize ?st = 1" by code_simp
  let ?s = "new_arq [b] 1" and ?e1 = "e\<lparr>ids := g'\<rparr>"
  have "fst (send_packet_to ?tr a 0 ?s ?e1) = None"
    using plain_send_ok [OF c(2), of "snd (tick (snd (tick ?e1)))" ?tr a] assms
    by (simp add: send_packet_to_def Let_def split_beta new_arq_def waited_enough_def limit_defs)
  then obtain s3 e3 where f: "send_packet_to ?tr a 0 ?s ?e1 = (None, s3, e3)"
    by (cases "send_packet_to ?tr a 0 ?s ?e1") simp
  have r: "[shift ?s ..< window_stop ?s] = [0]" "shift ?s \<noteq> length (packets ?s)"
    by (simp_all add: window_stop_def new_arq_def)
  have "sendPacketsToAddr ?tr a ?s ?e1 = (None, s3, e3)"
    unfolding sendPacketsToAddr_def r(1) if_not_P [OF r(2)] by (simp add: f)
  then show thesis using that c(1) ws by metis
qed

lemma sample_transfer: "fst (sendARQBlock2ACK sample_transport sample_big_ack (lit ''p:1'') sample_ack_env) = Some None"
proof -
  let ?tr = sample_transport and ?m = sample_big_ack and ?a = "lit ''p:1''" and ?e = sample_ack_env
  let ?st = "new_state_send ?m"
  obtain k g where k: "newACKEmptyMessage ?m (windowsize ?st) (ids ?e) = (k, g)" by fastforce
  have "GetScheme (fst (newACKEmptyMessage ?m (windowsize ?st) (ids ?e))) = COAP_SCHEME" by code_simp
  then have ks: "GetScheme k \<noteq> COAPS_SCHEME" using k by simp
  obtain r1 e1 where e1: "sendToSocketByAddress ?tr k ?a (?e\<lparr>ids := g\<rparr>) = (r1, e1)" by fastforce
  have w: "\<forall>n. wres ?e n = None" by (simp add: sample_ack_env_def sample_env_def)
  have r1: "r1 = None" using plain_send_ok [OF ks, of "?e\<lparr>ids := g\<rparr>" ?tr ?a] w e1 by simp
  have e1w: "\<forall>n. wres e1 n = None" "chan e1 = chan ?e"
    using adds_one_sendToSocketByAddress [of ?a "?e\<lparr>ids := g\<rparr>" ?tr k] w e1 by (auto simp: adds_one_def)
  obtain b g' s2 e2 where c: "construct_blocks OptionBlock2 ?st (ids e1) = Some ([b], g')"
    and p: "sendPacketsToAddr ?tr ?a (new_arq [b] (windowsize ?st)) (e1\<lparr>ids := g'\<rparr>) = (None, s2, e2)"
    by (rule sample_first_pass [OF e1w(1)])
  have q: "pass (new_arq [b] (windowsize ?st)) (e1\<lparr>ids := g'\<rparr>) s2 e2"
    using sendPacketsToAddr_pass [OF _ p] new_state_window by (simp add: arq_ok_new)
  have ack: "Token sample_final_ack = Token ?m" "MType sample_final_ack = ACK" "MCode sample_final_ack \<noteq> CoapCodeContinue"
    by code_simp+
  have blk: "GetBlock2 sample_final_ack = Some \<lparr>BlockNumber = 0, MoreBlocks = False, BlockSize = 1024\<rparr>"
    by code_simp
  have "chan e2 = [ChanMessage sample_final_ack]"
    using q e1w by (simp add: pass_def sample_ack_env_def)
  then have "fst (block2_loop ?tr ?m ?a (chan e2) s2 e2) = Some None"
    using ack blk by simp
  then show ?thesis
    using k e1 r1 c p by (simp add: sendARQBlock2ACK_def Let_def with_ids_split)
qed

theorem transfer_success_acknowledged_witness:
  "\<exists>resp. ChanMessage resp \<in> set (chan sample_ack_env) \<and> Token resp = Token sample_big_ack \<and>
     MType resp = ACK \<and> GetBlock2 resp \<noteq> None \<and> MCode resp \<noteq> CoapCodeContinue"
  by (rule transfer_success_acknowledged [of sample_transport sample_big_ack "lit ''p:1''" sample_ack_env
        "snd (sendARQBlock2ACK sample_transport sample_big_ack (lit ''p:1'') sample_ack_env)"])
     (simp add: prod_eq_iff sample_transfer)

definition finish_message :: "transport \<Rightarrow> coap_msg \<Rightarrow> coap_msg" where
  "finish_message tr m = (if AddChecksumOnSend m then applyChecksum (tr_sorter tr) m else m)"

lemma setProxyID_message:
  "fst (snd (setProxyIDIfNeed m a e)) = m \<or>
   (\<exists>v. fst (snd (setProxyIDIfNeed m a e)) = AddOption m OptionProxySecurityID (VUint32 v))"
  by (auto simp: setProxyIDIfNeed_def Let_def split_beta split: option.split)

lemma setProxyID_frame:
  fixes c :: coap_msg and e :: env and loc :: bytes
  defines "m1 \<equiv> fst (snd (setProxyIDIfNeed c loc e))"
  shows "frame m1 = frame c" "MessageID m1 = MessageID c" "Token m1 = Token c"
    "d \<noteq> OptionProxySecurityID \<Longrightarrow> GetOptions m1 d = GetOptions c d"
proof -
  have "m1 = c \<or> (\<exists>v. m1 = AddOption c OptionProxySecurityID (VUint32 v))"
    unfolding m1_def by (rule setProxyID_message)
  then show "frame m1 = frame c" "MessageID m1 = MessageID c" "Token m1 = Token c"
    "d \<noteq> OptionProxySecurityID \<Longrightarrow> GetOptions m1 d = GetOptions c d"
    by (auto simp: frame_def GetOptions_AddOption)
qed

lemma Clone_copies:
  fixes m :: coap_msg and g :: id_source
  defines "c \<equiv> fst (Clone m True g)"
  shows "GetOptions c d = GetOptions m d" "frame c = frame m" "MessageID c = MessageID m" "Token c = Token m"
    "GetScheme c = GetScheme m"
  by (auto simp: c_def Clone_def NewCoAPMessageId_def frame_def split_beta Let_def GetOptions_def
      GetScheme_def GetOption_def)

end
