(* ===== verification/Transport_Receive.thy ===== *)
theory Transport_Receive
  imports Arq_Sender
begin

text \<open>
  The receiving half of \<open>transport.go\<close>, the input side of \<open>security.go\<close>, and the client
  operations built on both: \<open>receiveMessage\<close>, the selective-repeat receiver, the sender of
  large requests, \<open>sendCON\<close>, the handshake and \<open>Send\<close>. A result \<open>None\<close> means that the call
  still waits for an event.
\<close>

type_synonym 'a run = "'a option \<times> env"

definition and_then :: "'a run \<Rightarrow> ('a \<Rightarrow> env \<Rightarrow> 'b run) \<Rightarrow> 'b run" where
  "and_then r k = (case r of (None, e) \<Rightarrow> (None, e) | (Some x, e) \<Rightarrow> k x e)"

definition return :: "'a \<Rightarrow> env \<Rightarrow> 'a run" where
  "return x e = (Some x, e)"

lemma and_then_simps [simp]:
  "and_then (None, e) k = (None, e)" "and_then (Some x, e) k = k x e" "and_then (return x e) k = k x e"
  by (simp_all add: and_then_def return_def)

text \<open>\<open>message.Sender.String()\<close>; every message this code reads it of has been given a sender.\<close>

definition sender :: "coap_msg \<Rightarrow> bytes" where
  "sender m = (case Sender m of Some a \<Rightarrow> a | None \<Rightarrow> [])"

subsection \<open>The security input layer\<close>

definition newServerHelloMessage :: "coap_msg \<Rightarrow> bytes \<Rightarrow> id_source \<Rightarrow> coap_msg \<times> id_source" where
  "newServerHelloMessage orig pk g =
    (let (m, g) = NewCoAPMessageId ACK CoapCodeContent (MessageID orig) g;
         m = AddOption m OptionHandshakeType (VInt CoapHandshakeTypePeerHello);
         m = m\<lparr>Payload := Some (BytesPayload pk)\<rparr>;
         m = m\<lparr>Token := Token orig\<rparr>;
         m = CloneOptions m orig [OptionProxySecurityID]
     in (m\<lparr>ProxyAddr := ProxyAddr orig\<rparr>, g))"

definition incomingHandshake :: "transport \<Rightarrow> bytes \<Rightarrow> coap_msg \<Rightarrow> env \<Rightarrow> err option run" where
  "incomingHandshake tr pk orig e =
    (let (m, e) = with_ids (newServerHelloMessage orig pk) e in SendTo tr m (sender orig) e)"

text \<open>\<open>session.NewSecuredSession(tr.privateKey)\<close>, drawing a key if there is none.\<close>

definition fresh_session :: "transport \<Rightarrow> env \<Rightarrow> (err + SecuredSession) \<times> env" where
  "fresh_session tr e =
    (NewSecuredSession (tr_crypto tr) (tr_privateKey tr) (crand e (crand_pos e)),
     if tr_privateKey tr = [] then e\<lparr>crand_pos := Suc (crand_pos e)\<rparr> else e)"

definition receiveHandshake :: "transport \<Rightarrow> coap_msg \<Rightarrow> bytes \<Rightarrow> env \<Rightarrow> (bool \<times> err option) run" where
  "receiveHandshake tr m proxyAddr e =
    (if IsProxies m then return (True, None) e
     else case GetOption m OptionHandshakeType of
       None \<Rightarrow> return (True, None) e
     | Some opt \<Rightarrow>
         let v = IntValue opt
         in if v \<noteq> CoapHandshakeTypeClientSignature \<and> v \<noteq> CoapHandshakeTypeClientHello then return (False, None) e
            else let (ps, e) = getSessionForAddress (tr_local tr) (sender m) proxyAddr e;
                     (ps, e) = (case ps of Some s \<Rightarrow> (Inr s, e) | None \<Rightarrow> fresh_session tr e)
                 in case ps of
                      Inl _ \<Rightarrow> return (False, Some ErrorHandshake) e
                    | Inr s \<Rightarrow>
                        (case Payload m of
                           None \<Rightarrow> return (False, Some ErrorHandshake) e
                         | Some p \<Rightarrow>
                             if v \<noteq> CoapHandshakeTypeClientHello then return (False, Some ErrorHandshake) e
                             else let s = s\<lparr>PeerPublicKey' := Bytes p\<rparr>
                               in and_then (incomingHandshake tr (GetPublicKey (Curve s)) m e) (\<lambda>r e.
                                  if r \<noteq> None then return (False, Some ErrorHandshake) e
                                  else case GetSignature (tr_crypto tr) s of
                                    Inl _ \<Rightarrow> return (False, Some ErrorHandshake) e
                                  | Inr signature \<Rightarrow> (case PeerVerify (tr_crypto tr) s signature of
                                      (Some _, _) \<Rightarrow> return (False, Some ErrorHandshake) e
                                    | (None, s) \<Rightarrow>
                                        let e = inc MetricSuccessfulHandhshakes e;
                                            (now, e) = tick e;
                                            s = s\<lparr>UpdatedAt := now div 1000000000\<rparr>
                                        in return (False, None)
                                             (setSessionForAddress s (tr_local tr) (sender m) proxyAddr e)))))"

text \<open>The answer to a secured message that has no session, or does not decrypt.\<close>

definition unauthorized :: "transport \<Rightarrow> option_code \<Rightarrow> coap_msg \<Rightarrow> env \<Rightarrow> err option run" where
  "unauthorized tr code m e =
    (let (r, e) = with_ids (NewCoAPMessageId ACK CoapCodeUnauthorized (MessageID m)) e;
         r = AddOption r code (VInt 1);
         r = r\<lparr>Token := Token m\<rparr>
     in SendTo tr r (sender m) e)"

definition received_error :: "transport \<Rightarrow> coap_msg \<Rightarrow> bytes \<Rightarrow> env \<Rightarrow> (err option \<times> coap_msg) run" where
  "received_error tr m proxyAddr e =
    (if MCode m = CoapCodeUnauthorized \<and> GetOption m OptionSessionNotFound \<noteq> None then
       return (Some ErrorSessionNotFound, m) (deleteSessionForAddress (tr_local tr) (sender m) proxyAddr e)
     else if MCode m = CoapCodeUnauthorized \<and> GetOption m OptionSessionExpired \<noteq> None then
       return (Some ErrorSessionExpired, m) (deleteSessionForAddress (tr_local tr) (sender m) proxyAddr e)
     else return (None, m) e)"

definition handleCoapsScheme :: "transport \<Rightarrow> coap_msg \<Rightarrow> bytes \<Rightarrow> env \<Rightarrow> (err option \<times> coap_msg) run" where
  "handleCoapsScheme tr m proxyAddr e =
    (if GetScheme m = COAPS_SCHEME then
       let (ses, e) = getSessionForAddress (tr_local tr) (sender m) proxyAddr e
       in case ses of
            None \<Rightarrow> and_then (unauthorized tr OptionSessionNotFound m e)
                       (\<lambda>_. return (Some ErrorClientSessionNotFound, m))
          | Some s \<Rightarrow> (case SAEAD s of
              None \<Rightarrow> return (Some GoPanic, m) e
            | Some aead \<Rightarrow> (case decrypt tr m aead of
                (Some _, m) \<Rightarrow>
                  let e = deleteSessionForAddress (tr_local tr) (sender m) proxyAddr e
                  in and_then (unauthorized tr OptionSessionExpired m e)
                       (\<lambda>_. return (Some ErrorClientSessionExpired, m))
              | (None, m) \<Rightarrow> received_error tr (m\<lparr>PeerPublicKey := PeerPublicKey' s\<rparr>) proxyAddr e))
     else received_error tr m proxyAddr e)"

definition securityInputLayer :: "transport \<Rightarrow> coap_msg \<Rightarrow> bytes \<Rightarrow> env \<Rightarrow> (err option \<times> coap_msg) run" where
  "securityInputLayer tr m proxyAddr e =
    (let (proxyAddr, e) = withProxyID proxyAddr (tr_local tr) e
     in and_then (receiveHandshake tr m proxyAddr e) (\<lambda>(ok, r) e.
          if \<not> ok then return (r, m) e else handleCoapsScheme tr m proxyAddr e))"

subsection \<open>One received datagram\<close>

definition accept_datagram :: "transport \<Rightarrow> bytes \<Rightarrow> bytes \<Rightarrow> env \<Rightarrow> (err + coap_msg) \<times> env" where
  "accept_datagram tr data senderAddr e =
    (let (r, mt) = Deserialize (tr_sorter tr) data (met e);
         e = e\<lparr>met := mt\<rparr>
     in case r of
          (_, Some err) \<Rightarrow> (Inl err, e)
        | (None, None) \<Rightarrow> (Inl ErrNilMessage, e)
        | (Some m, None) \<Rightarrow>
            let e = inc MetricReceivedMessages e;
                m = m\<lparr>Sender := Some senderAddr\<rparr>
            in (case verifyChecksum (tr_sorter tr) m of
                  Some _ \<Rightarrow> (Inl ErrChecksumMismatch, e) | None \<Rightarrow> (Inr m, e)))"

definition preparationReceivingBufferForStorageLocalStates ::
    "transport \<Rightarrow> bytes \<Rightarrow> bytes \<Rightarrow> env \<Rightarrow> (err + coap_msg) \<times> env" where
  "preparationReceivingBufferForStorageLocalStates tr data senderAddr e = accept_datagram tr data senderAddr e"

definition preparationReceivingBuffer ::
    "transport \<Rightarrow> bytes \<Rightarrow> bytes \<Rightarrow> bytes \<Rightarrow> env \<Rightarrow> (err + coap_msg) run" where
  "preparationReceivingBuffer tr data senderAddr proxyAddr e =
    (case accept_datagram tr data senderAddr e of
       (Inl err, e) \<Rightarrow> return (Inl err) e
     | (Inr m, e) \<Rightarrow> and_then (securityInputLayer tr m proxyAddr e) (\<lambda>(r, m).
         return (case r of Some err \<Rightarrow> Inl err | None \<Rightarrow> Inr m)))"

text \<open>
  \<open>receiveMessage\<close>, over the events of the socket. The read buffer holds \<open>MTU + 1\<close> bytes, so
  that a longer datagram is recognised and skipped.
\<close>

fun receive_from :: "transport \<Rightarrow> coap_msg \<Rightarrow> read_event list \<Rightarrow> env \<Rightarrow> (err + coap_msg) run" where
  "receive_from tr orig [] e = (None, e\<lparr>reads := []\<rparr>)"
| "receive_from tr orig (ReadTimeout # rs) e =
     return (Inl ErrMaxAttempts) ((wait_for (Timeout orig) e)\<lparr>reads := rs\<rparr>)"
| "receive_from tr orig (ReadError n # rs) e = return (Inl (ErrExternal n)) (e\<lparr>reads := rs\<rparr>)"
| "receive_from tr orig (ReadData d # rs) e =
     (let orig' = orig\<lparr>Timeout := timeWait\<rparr>; e = e\<lparr>reads := rs\<rparr>
      in if length d > MTU then receive_from tr orig' rs e
         else and_then (preparationReceivingBuffer tr d (tr_remote tr) (ProxyAddr orig) e) (\<lambda>r e.
           case r of
             Inl err \<Rightarrow> if err = ErrChecksumMismatch then receive_from tr orig' rs e else return (Inl err) e
           | Inr m \<Rightarrow> if Token m \<noteq> Token orig then receive_from tr orig' rs e else return (Inr m) e))"

definition receiveMessage :: "transport \<Rightarrow> coap_msg \<Rightarrow> env \<Rightarrow> (err + coap_msg) run" where
  "receiveMessage tr orig e = receive_from tr orig (reads e) e"

end
