(* ===== verification/Block_Assembly.thy ===== *)
theory Block_Assembly
  imports Transport_Receive Go_Map
begin

text \<open>
  The receiving side of a segmented payload, shared by client (\<open>receiveARQBlock2\<close>) and
  server (\<open>localStateReceiveARQBlock1\<close>): the buffer of blocks, its completeness, the
  assembled body, and the acknowledgement of one block.
\<close>

subsection \<open>The buffer of received blocks\<close>

text \<open>The local variables \<open>buf\<close> and \<open>totalBlocks\<close>; the map from numbers to frames is an
  association list with distinct keys.\<close>

record block_buffer =
  buf :: "(int \<times> bytes) list"
  totalBlocks :: int

definition new_buffer :: block_buffer where
  "new_buffer = \<lparr>buf = [], totalBlocks = - 1\<rparr>"

text \<open>A missing block reads as the nil slice.\<close>

definition block_at :: "(int \<times> bytes) list \<Rightarrow> int \<Rightarrow> bytes" where
  "block_at b i = (case map_of b i of Some d \<Rightarrow> d | None \<Rightarrow> [])"

definition assembleBlocks :: "(int \<times> bytes) list \<Rightarrow> int \<Rightarrow> bytes" where
  "assembleBlocks b tot = concat (map (\<lambda>i. block_at b (int i)) [0 ..< nat tot])"

definition receive_block :: "block \<Rightarrow> bytes \<Rightarrow> block_buffer \<Rightarrow> block_buffer" where
  "receive_block blk data bb =
    (let bb = (if \<not> MoreBlocks blk then bb\<lparr>totalBlocks := BlockNumber blk + 1\<rparr> else bb)
     in bb\<lparr>buf := AList.update (BlockNumber blk) data (buf bb)\<rparr>)"

definition buffer_complete :: "block_buffer \<Rightarrow> bool" where
  "buffer_complete bb \<longleftrightarrow> totalBlocks bb = int (length (buf bb))"

definition buffer_body :: "block_buffer \<Rightarrow> bytes" where
  "buffer_body bb = assembleBlocks (buf bb) (totalBlocks bb)"

subsection \<open>Acknowledging a block (\<open>common.go\<close>)\<close>

definition ackTo :: "coap_msg option \<Rightarrow> coap_msg \<Rightarrow> coap_code \<Rightarrow> id_source \<Rightarrow> coap_msg \<times> id_source" where
  "ackTo initMessage orig code g =
    (let (r, g) = NewCoAPMessage ACK code g;
         r = r\<lparr>MessageID := MessageID orig\<rparr>;
         r = r\<lparr>Token := Token orig\<rparr>;
         r = CloneOptions r orig [OptionURIScheme, OptionSelectiveRepeatWindowSize, OptionBlock1,
               OptionBlock2, OptionProxySecurityID];
         r = r\<lparr>Recipient := Sender orig\<rparr>
     in (case initMessage of
           Some i \<Rightarrow> CloneOptions (r\<lparr>ProxyAddr := ProxyAddr i\<rparr>) i [OptionProxyURI]
         | None \<Rightarrow> r, g))"

text \<open>The window size, the block number and the buffer are passed but not used.\<close>

definition ackToWithWindowOffset ::
    "coap_msg option \<Rightarrow> coap_msg \<Rightarrow> coap_code \<Rightarrow> int \<Rightarrow> int \<Rightarrow> (int \<times> bytes) list \<Rightarrow> id_source
      \<Rightarrow> coap_msg \<times> id_source" where
  "ackToWithWindowOffset initMessage orig code windowSize blockNumber b g =
    (let (r, g) = NewCoAPMessage ACK code g;
         r = r\<lparr>MessageID := MessageID orig\<rparr>;
         r = r\<lparr>Token := Token orig\<rparr>;
         r = CloneOptions r orig [OptionURIScheme, OptionSelectiveRepeatWindowSize, OptionBlock1,
               OptionBlock2, OptionProxySecurityID];
         r = r\<lparr>Recipient := Sender orig\<rparr>
     in (case initMessage of
           Some i \<Rightarrow> CloneOptions (r\<lparr>ProxyAddr := ProxyAddr i\<rparr>) i [OptionProxyURI]
         | None \<Rightarrow> r, g))"

text \<open>The choice both receivers make between the two.\<close>

definition continue_ack ::
    "coap_msg option \<Rightarrow> coap_msg \<Rightarrow> block \<Rightarrow> block_buffer \<Rightarrow> id_source \<Rightarrow> coap_msg \<times> id_source" where
  "continue_ack initMessage m blk bb g =
    (case GetOption m OptionSelectiveRepeatWindowSize of
       Some w \<Rightarrow> ackToWithWindowOffset initMessage m CoapCodeContinue (IntValue w) (BlockNumber blk) (buf bb) g
     | None \<Rightarrow> ackTo initMessage m CoapCodeContinue g)"

lemma continue_ack_ackTo: "continue_ack i m blk bb g = ackTo i m CoapCodeContinue g"
  by (simp add: continue_ack_def ackToWithWindowOffset_def ackTo_def split: option.split)

subsection \<open>Reassembly\<close>

definition receive_all :: "(nat \<Rightarrow> block) \<Rightarrow> (nat \<Rightarrow> bytes) \<Rightarrow> nat list \<Rightarrow> block_buffer" where
  "receive_all blk data is = fold (\<lambda>i. receive_block (blk i) (data i)) is new_buffer"

text \<open>What is in the buffer after a sequence of blocks of one transfer.\<close>

lemma receive_all_buffer:
  assumes "\<forall>i \<in> set is. BlockNumber (blk i) = int i \<and> (MoreBlocks (blk i) \<longleftrightarrow> Suc i < n) \<and> i < n"
  shows "distinct (map fst (buf (receive_all blk data is))) \<and>
    (\<forall>j. map_of (buf (receive_all blk data is)) j =
       (if \<exists>i \<in> set is. j = int i then Some (data (nat j)) else None)) \<and>
    totalBlocks (receive_all blk data is) = (if n - 1 \<in> set is then int n else - 1)"
  using assms
proof (induction "is" rule: rev_induct)
  case Nil
  then show ?case by (simp add: receive_all_def new_buffer_def)
next
  case (snoc i "is")
  have step: "receive_all blk data (is @ [i]) = receive_block (blk i) (data i) (receive_all blk data is)"
    by (simp add: receive_all_def)
  let ?b = "receive_all blk data is"
  have b: "BlockNumber (blk i) = int i" "MoreBlocks (blk i) \<longleftrightarrow> Suc i < n" "i < n" using snoc.prems by auto
  have IH: "distinct (map fst (buf ?b))"
    "\<And>j. map_of (buf ?b) j = (if \<exists>i \<in> set is. j = int i then Some (data (nat j)) else None)"
    "totalBlocks ?b = (if n - 1 \<in> set is then int n else - 1)"
    using snoc by auto
  have buf: "buf (receive_block (blk i) (data i) ?b) = AList.update (int i) (data i) (buf ?b)"
    and tot: "totalBlocks (receive_block (blk i) (data i) ?b) = (if Suc i < n then totalBlocks ?b else int i + 1)"
    using b by (simp_all add: receive_block_def Let_def)
  have "map_of (AList.update (int i) (data i) (buf ?b)) j =
      (if \<exists>k \<in> set (is @ [i]). j = int k then Some (data (nat j)) else None)" for j
    by (cases "j = int i") (auto simp: al.load_store [OF IH(1)] IH(2))
  moreover have "(if Suc i < n then totalBlocks ?b else int i + 1) =
      (if n - 1 \<in> set (is @ [i]) then int n else - 1)"
    using b(3) IH(3) by (cases "Suc i < n") auto
  ultimately show ?case
    unfolding step buf tot using al.ok_store [OF IH(1)] by blast
qed

lemma receive_all_complete:
  assumes "\<forall>i \<in> set is. BlockNumber (blk i) = int i \<and> (MoreBlocks (blk i) \<longleftrightarrow> Suc i < n) \<and> i < n" "n > 0"
  shows "buffer_complete (receive_all blk data is) \<longleftrightarrow> set is = {..< n}"
    and "set is = {..< n} \<Longrightarrow> buffer_body (receive_all blk data is) = concat (map data [0 ..< n])"
proof -
  let ?b = "receive_all blk data is"
  note r = receive_all_buffer [OF assms(1), of data]
  have dom: "dom (map_of (buf ?b)) = int ` set is" using r by (auto split: if_splits)
  have sub: "dom (map_of (buf ?b)) \<subseteq> int ` {..< n}" using assms(1) dom by auto
  have card: "card (int ` {..< n}) = n" by (simp add: card_image)
  have "length (buf ?b) = card (int ` {..< n}) \<longleftrightarrow> dom (map_of (buf ?b)) = int ` {..< n}"
    using r by (intro al.full_iff [OF _ sub]) auto
  then have full: "length (buf ?b) = n \<longleftrightarrow> set is = {..< n}"
    unfolding dom card by (simp add: inj_image_eq_iff)
  have "length (buf ?b) = n \<Longrightarrow> n - 1 \<in> set is" using full assms(2) by simp
  then show "buffer_complete ?b \<longleftrightarrow> set is = {..< n}"
    using r full by (auto simp: buffer_complete_def)
  assume s: "set is = {..< n}"
  then have "n - 1 \<in> set is" using assms(2) by simp
  then have "totalBlocks ?b = int n" using r by simp
  moreover have "block_at (buf ?b) (int i) = data i" if "i < n" for i
    using r s that by (simp add: block_at_def)
  ultimately show "buffer_body ?b = concat (map data [0 ..< n])"
    unfolding buffer_body_def assembleBlocks_def by (intro arg_cong [where f = concat] map_cong) simp_all
qed

subsection \<open>Properties\<close>

text \<open>C4: Reassembly: the blocks of a segmented payload, received in any order and with any
  repetitions, complete the buffer exactly when each has arrived, and the assembled body is
  then the payload.\<close>

theorem reassembly:
  assumes "bt = OptionBlock1 \<or> bt = OptionBlock2" "length (frame m) < 2 ^ 38"
    and "construct_blocks bt (new_state_send m) g = Some (msgs, g')" "set is \<subseteq> {..< length msgs}"
  shows "let bb = receive_all (\<lambda>i. the (get_block bt (msgs ! i))) (\<lambda>i. frame (msgs ! i)) is
    in (buffer_complete bb \<longleftrightarrow> set is = {..< length msgs}) \<and>
       (buffer_complete bb \<longrightarrow> buffer_body bb = frame m)"
proof -
  have c: "concat (map frame msgs) = frame m" "length msgs = max 1 ((length (frame m) + 1023) div 1024)"
    "\<forall>i < length msgs. get_block bt (msgs ! i) =
       Some \<lparr>BlockNumber = int i, MoreBlocks = Suc i < length msgs, BlockSize = 1024\<rparr>"
    using segmented [OF assms(1,2), of g] assms(3) by auto
  have "\<forall>i \<in> set is. BlockNumber (the (get_block bt (msgs ! i))) = int i \<and>
      (MoreBlocks (the (get_block bt (msgs ! i))) \<longleftrightarrow> Suc i < length msgs) \<and> i < length msgs"
    using c(3) assms(4) by auto
  moreover have "length msgs > 0" using c(2) by simp
  moreover have "map (\<lambda>i. frame (msgs ! i)) [0 ..< length msgs] = map frame msgs"
    using arg_cong [OF map_nth [of msgs], of "map frame"] by (simp add: comp_def)
  ultimately show ?thesis
    using receive_all_complete [of "is" "\<lambda>i. the (get_block bt (msgs ! i))" "length msgs" "\<lambda>i. frame (msgs ! i)"] c(1)
    unfolding Let_def by simp
qed

theorem reassembly_witness:
  "\<exists>msgs g'. construct_blocks OptionBlock1 (new_state_send (zero_msg\<lparr>Payload := Some (BytesPayload (replicate 1500 7))\<rparr>))
      \<lparr>currentMessageID = 0, rand_stream = (\<lambda>i. of_nat i), rand_pos = 0\<rparr> = Some (msgs, g') \<and>
    buffer_body (receive_all (\<lambda>i. the (get_block OptionBlock1 (msgs ! i))) (\<lambda>i. frame (msgs ! i)) [1, 0, 1])
      = replicate 1500 7"
proof -
  let ?m = "zero_msg\<lparr>Payload := Some (BytesPayload (replicate 1500 7))\<rparr>"
  have f: "frame ?m = replicate 1500 7" by (simp add: frame_def)
  then have l: "length (frame ?m) < 2 ^ 38" by simp
  obtain msgs g' where m: "construct_blocks OptionBlock1 (new_state_send ?m)
      \<lparr>currentMessageID = 0, rand_stream = (\<lambda>i. of_nat i), rand_pos = 0\<rparr> = Some (msgs, g')"
    "length msgs = max 1 ((length (frame ?m) + 1023) div 1024)"
    using segmented [OF disjI1 [OF refl] l] by blast
  have "length msgs = 2" using m(2) unfolding f by simp
  then have "set [1, 0, 1] \<subseteq> {..< length msgs}" "set [1, 0, 1] = {..< length msgs}"
    by (auto simp: numeral_2_eq_2)
  with reassembly [OF disjI1 [OF refl] l m(1), of "[1, 0, 1]"] show ?thesis
    unfolding f Let_def using m(1) by blast
qed

text \<open>Without that hypothesis a buffer may complete too early: a block beyond the last one counts as
  received, and a missing block is skipped in the body.\<close>

lemma incomplete_reassembly:
  "let bb = receive_block \<lparr>BlockNumber = 1, MoreBlocks = False, BlockSize = 1024\<rparr> [2]
        (receive_block \<lparr>BlockNumber = 7, MoreBlocks = True, BlockSize = 1024\<rparr> [1] new_buffer)
   in buffer_complete bb \<and> buffer_body bb = [2]"
  by code_simp

end
