(* ===== verification/Arq_Receiver.thy ===== *)
theory Arq_Receiver
  imports Block_Assembly
begin

text \<open>
  The client operations of \<open>transport.go\<close> on top of \<open>receiveMessage\<close>: the receiver of a large
  response, the sender of a large request, \<open>sendCON\<close>, the client side of the handshake
  (\<open>security.go\<close>) and \<open>Send\<close>.
\<close>

subsection \<open>Every received message uses up an event\<close>

named_theorems reads_simps \<open>operations that do not read from the socket\<close>

lemma reads_send [reads_simps]:
  "reads (snd (sendToSocket tr m e)) = reads e" "reads (snd (sendToSocketByAddress tr m a e)) = reads e"
  "reads (snd (with_ids f e)) = reads e"
  using adds_one_sendToSocket [of e tr m] adds_one_sendToSocketByAddress [of a e tr m]
    same_net_with_ids [of e f]
  by (simp_all add: adds_one_def same_net_def)

lemma reads_send_range:
  "(\<And>i s e. reads (snd (snd (f i s e))) = reads e) \<Longrightarrow> reads (snd (snd (send_range f is s e))) = reads e"
proof (induction "is" arbitrary: s e)
  case (Cons i "is")
  obtain r1 s1 e1 where p: "f i s e = (r1, s1, e1)" by (cases "f i s e")
  then have "reads e1 = reads e" using Cons.prems [of i s e] by simp
  then show ?case using p Cons.IH [OF Cons.prems, of s1 e1] by (cases r1) simp_all
qed simp

lemma reads_packets [reads_simps]:
  "reads (snd (snd (sendPackets tr s e))) = reads e"
  "reads (snd (snd (sendPacketsToAddr tr a s e))) = reads e"
proof -
  have "reads (snd (snd (send_packet tr i s e))) = reads e" for i s e
    using send_packet_step [of i s e tr] by (auto simp: packet_step_def adds_one_def)
  then show "reads (snd (snd (sendPackets tr s e))) = reads e"
    unfolding sendPackets_def by (rule reads_send_range)
  have "reads (snd (snd (send_packet_to tr a i s e))) = reads e" for i s e
    using send_packet_to_step [of a i s e tr] by (auto simp: packet_step_def adds_one_def)
  then have "reads (snd (snd (send_range (send_packet_to tr a) is s e))) = reads e" for "is"
    by (rule reads_send_range)
  then show "reads (snd (snd (sendPacketsToAddr tr a s e))) = reads e"
    by (simp add: sendPacketsToAddr_def)
qed

lemma reads_block2_step: "block2_step tr m a ev s e = (r, s', e') \<Longrightarrow> reads e' = reads e"
proof (cases ev)
  case ChanTimeout
  obtain q s1 e1 where p: "sendPacketsToAddr tr a s (wait_for timeWait e) = (q, s1, e1)"
    by (cases "sendPacketsToAddr tr a s (wait_for timeWait e)")
  then have "reads e1 = reads e" using reads_packets(2) [of tr a s "wait_for timeWait e"] by (simp add: wait_for_def)
  then show "block2_step tr m a ev s e = (r, s', e') \<Longrightarrow> ?thesis"
    using p ChanTimeout by (cases q) (simp_all add: block2_step.simps)
next
  case (ChanMessage resp)
  have "sendPacketsToAddr tr a t e = (q, s1, e1) \<Longrightarrow> reads e1 = reads e" for t q s1 e1
    using reads_packets(2) [of tr a t e] by simp
  then show "block2_step tr m a ev s e = (r, s', e') \<Longrightarrow> ?thesis"
    unfolding ChanMessage block2_step.simps Let_def by (auto split: if_splits option.splits prod.splits)
qed

lemma reads_block2_loop [reads_simps]: "reads (snd (block2_loop tr m a evs s e)) = reads e"
proof (induction evs arbitrary: s e)
  case (Cons ev evs)
  obtain q s1 e1 where "block2_step tr m a ev s e = (q, s1, e1)" by (cases "block2_step tr m a ev s e")
  then show ?case using Cons.IH [of s1 e1] reads_block2_step [of tr m a ev s e q s1 e1]
    by (cases q) (simp_all add: block2_loop.simps(2))
qed simp

lemma reads_SendTo [reads_simps]: "reads (snd (SendTo tr m a e)) = reads e"
proof -
  have "reads (snd (sendARQBlock2ACK tr m a e)) = reads e"
  proof -
    let ?st = "new_state_send m"
    obtain k g where a: "newACKEmptyMessage m (windowsize ?st) (ids e) = (k, g)" by fastforce
    obtain r1 e1 where e1: "sendToSocketByAddress tr k a (e\<lparr>ids := g\<rparr>) = (r1, e1)" by fastforce
    have 1: "reads e1 = reads e" using reads_send(2) [of tr k a "e\<lparr>ids := g\<rparr>"] e1 by simp
    obtain msgs g' where c: "construct_blocks OptionBlock2 ?st (ids e1) = Some (msgs, g')"
      using construct_blocks_new by blast
    obtain r2 s2 e2 where p: "sendPacketsToAddr tr a (new_arq msgs (windowsize ?st)) (e1\<lparr>ids := g'\<rparr>) = (r2, s2, e2)"
      by (cases "sendPacketsToAddr tr a (new_arq msgs (windowsize ?st)) (e1\<lparr>ids := g'\<rparr>)")
    have "reads e2 = reads e"
      using reads_packets(2) [of tr a "new_arq msgs (windowsize ?st)" "e1\<lparr>ids := g'\<rparr>"] p 1 by simp
    then show ?thesis
      using a e1 c p 1 reads_block2_loop [of tr m a "chan e2" s2 e2]
      by (cases r1; cases r2) (simp_all add: sendARQBlock2ACK_def Let_def with_ids_split)
  qed
  then show ?thesis
    using reads_send(2) [of tr m a e] by (simp add: SendTo_def sendACKTo_def Let_def split_beta)
qed

lemma reads_security [reads_simps]:
  "reads (snd (getSessionForAddress a b c e)) = reads e" "reads (snd (withProxyID a b e)) = reads e"
  "reads (snd (fresh_session tr e)) = reads e" "reads (snd (tick e)) = reads e"
  "reads (setSessionForAddress s a b c e) = reads e" "reads (deleteSessionForAddress a b c e) = reads e"
  "reads (inc c' e) = reads e"
  using same_net_getSession [of e a b c] same_net_withProxyID [of e a b]
  by (simp_all add: same_net_def fresh_session_def setSessionForAddress_def storeSession_def tick_def inc_def
      deleteSessionForAddress_def Let_def)

lemma reads_and_then:
  "reads (snd r) = reads e \<Longrightarrow> (\<And>x e'. r = (Some x, e') \<Longrightarrow> reads (snd (k x e')) = reads e') \<Longrightarrow>
    reads (snd (and_then r k)) = reads e"
  by (cases r; cases "fst r") auto

lemma reads_return [reads_simps]: "reads (snd (return x e)) = reads e"
  by (simp add: return_def)

lemma reads_answers [reads_simps]:
  "reads (snd (incomingHandshake tr pk m e)) = reads e" "reads (snd (unauthorized tr c m e)) = reads e"
  "reads (snd (received_error tr m p e)) = reads e"
  by (simp_all add: incomingHandshake_def unauthorized_def received_error_def Let_def split_beta reads_simps)

lemma reads_handleCoapsScheme [reads_simps]: "reads (snd (handleCoapsScheme tr m p e)) = reads e"
proof -
  obtain so e1 where g: "getSessionForAddress (tr_local tr) (sender m) p e = (so, e1)" by fastforce
  then have 1: "reads e1 = reads e" using reads_security(1) [of "tr_local tr" "sender m" p e] by simp
  have a: "reads (snd (and_then (unauthorized tr c m' e') (\<lambda>_. return x))) = reads e'" for c m' e' and x :: "err option \<times> coap_msg"
    by (rule reads_and_then) (simp_all add: reads_simps)
  show ?thesis
    using g 1 by (auto simp: handleCoapsScheme_def a reads_simps Let_def split: option.split prod.split)
qed

lemma reads_receiveHandshake [reads_simps]: "reads (snd (receiveHandshake tr m p e)) = reads e"
proof -
  obtain so e1 where g: "getSessionForAddress (tr_local tr) (sender m) p e = (so, e1)" by fastforce
  then have 1: "reads e1 = reads e" using reads_security(1) [of "tr_local tr" "sender m" p e] by simp
  obtain ps e2 where f: "(case so of Some s \<Rightarrow> (Inr s, e1) | None \<Rightarrow> fresh_session tr e1) = (ps, e2)" by fastforce
  then have 2: "reads e2 = reads e"
    using 1 reads_security(3) [of tr e1] by (auto split: option.splits)
  have k: "reads (snd (and_then (incomingHandshake tr pk m e2) k)) = reads e"
    if "\<And>r e'. reads (snd (k r e')) = reads e'" for pk and k :: "err option \<Rightarrow> env \<Rightarrow> (bool \<times> err option) run"
    using 2 that by (intro reads_and_then) (simp_all add: reads_simps)
  show ?thesis
    using g f 1 2 unfolding receiveHandshake_def Let_def
    by (auto simp: reads_simps split_beta split: option.split sum.split intro!: k)
qed

lemma reads_securityInputLayer [reads_simps]: "reads (snd (securityInputLayer tr m p e)) = reads e"
  unfolding securityInputLayer_def Let_def split_beta
  by (intro reads_and_then) (simp_all add: reads_simps split: prod.split)

lemma reads_preparation [reads_simps]: "reads (snd (preparationReceivingBuffer tr d s p e)) = reads e"
proof -
  have a: "reads (snd (accept_datagram tr d s e)) = reads e"
    by (auto simp: accept_datagram_def inc_def Let_def split: prod.split option.split)
  obtain r e1 where e1: "accept_datagram tr d s e = (r, e1)" by fastforce
  have "reads (snd (and_then (securityInputLayer tr m p e1) (\<lambda>(r, m). return (f r m)))) = reads e1"
    for m and f :: "err option \<Rightarrow> coap_msg \<Rightarrow> err + coap_msg"
    by (rule reads_and_then) (simp_all add: reads_simps split: prod.split)
  then show ?thesis
    using a e1 by (auto simp: preparationReceivingBuffer_def reads_simps split: sum.split)
qed

lemma receive_from_reads: "receive_from tr m rs e = (Some r, e') \<Longrightarrow> length (reads e') < length rs"
proof (induction rs arbitrary: m e)
  case (Cons ev rs)
  let ?m = "m\<lparr>Timeout := timeWait\<rparr>"
  have rec: "length (reads e') < Suc (length rs)" if "receive_from tr ?m rs e1 = (Some r, e')" for e1
    using Cons.IH [OF that] by simp
  show ?case
  proof (cases ev)
    case (ReadData d)
    let ?e = "e\<lparr>reads := rs\<rparr>"
    obtain r1 e1 where p: "preparationReceivingBuffer tr d (tr_remote tr) (ProxyAddr m) ?e = (r1, e1)" by fastforce
    then have 1: "reads e1 = rs" using reads_preparation [of tr d "tr_remote tr" "ProxyAddr m" ?e] by simp
    show ?thesis
    proof (cases "length d > MTU")
      case True
      with Cons.prems ReadData rec show ?thesis by (simp add: Let_def)
    next
      case False
      with Cons.prems ReadData p 1 rec [of e1] show ?thesis
        by (cases r1) (auto simp: Let_def return_def split: sum.splits if_splits)
    qed
  qed (use Cons.prems in \<open>auto simp: return_def\<close>)
qed simp

lemma receiveMessage_reads: "receiveMessage tr m e = (Some r, e') \<Longrightarrow> length (reads e') < length (reads e)"
  unfolding receiveMessage_def by (rule receive_from_reads)

lemma sendToSocket_reads: "sendToSocket tr m e = (r, e') \<Longrightarrow> reads e' = reads e"
  using reads_send(1) [of tr m e] by simp

lemma sendPackets_reads: "sendPackets tr s e = (r, s', e') \<Longrightarrow> reads e' = reads e"
  using reads_packets(1) [of tr s e] by simp

lemma with_ids_reads: "with_ids f e = (x, e') \<Longrightarrow> reads e' = reads e"
  using reads_send(3) [of f e] by simp

lemma write_counted_reads: "write_counted a b e = (r, e') \<Longrightarrow> reads e' = reads e"
  using adds_one_write [of a e b] by (simp add: adds_one_def)

lemma inc_reads: "reads (if b then inc c e else e) = reads e"
  by simp

subsection \<open>Receiving a large response\<close>

text \<open>\<open>receiveMessage\<close> leaves \<open>timeWait\<close> in the message it waits for an answer to.\<close>

definition deadline :: "coap_msg \<Rightarrow> coap_msg" where
  "deadline m = m\<lparr>Timeout := timeWait\<rparr>"

text \<open>The loop of \<open>receiveARQBlock2\<close>. It takes one event per round at least.\<close>

function block2_receive :: "transport \<Rightarrow> coap_msg \<Rightarrow> int \<Rightarrow> block_buffer \<Rightarrow> env \<Rightarrow> (err + coap_msg) run" where
  "block2_receive tr orig n bb e =
    (case receiveMessage tr orig e of
       (None, e1) \<Rightarrow> (None, e1)
     | (Some (Inl err), e1) \<Rightarrow>
         if err = ErrMaxAttempts then
           if n = int maxSendAttempts then (Some (Inl err), inc MetricExpiredMessages e1)
           else block2_receive tr (deadline orig) (n + 1) bb e1
         else (Some (Inl err), e1)
     | (Some (Inr m), e1) \<Rightarrow>
         let e2 = (if n > 0 then inc MetricRetransmitMessages e1 else e1)
         in case GetBlock2 m of
              None \<Rightarrow> block2_receive tr (deadline orig) n bb e2
            | Some blk \<Rightarrow>
                if MType m \<noteq> CON then block2_receive tr (deadline orig) n bb e2
                else (case Payload m of
                   None \<Rightarrow> (Some (Inl GoPanic), e2)
                 | Some p \<Rightarrow>
                     let bb' = receive_block blk (Bytes p) bb
                     in if buffer_complete bb' then
                          let m' = m\<lparr>Payload := Some (BytesPayload (buffer_body bb'))\<rparr>;
                              (ack, e3) = with_ids (ackTo (Some orig) m' CoapCodeEmpty) e2
                          in (case sendToSocket tr ack e3 of
                                (Some err, e4) \<Rightarrow> (Some (Inl err), e4)
                              | (None, e4) \<Rightarrow> (Some (Inr m'), e4))
                        else
                          let (ack, e3) = with_ids (continue_ack (Some orig) m blk bb') e2
                          in (case sendToSocket tr ack e3 of
                                (Some err, e4) \<Rightarrow> (Some (Inl err), e4)
                              | (None, e4) \<Rightarrow> block2_receive tr (deadline orig) n bb' e4)))"
  by pat_completeness auto

termination
  by (relation "measure (\<lambda>(tr, orig, n, bb, e). length (reads e))")
     (auto dest!: receiveMessage_reads [OF sym] sendToSocket_reads [OF sym] with_ids_reads [OF sym] simp: inc_reads split: if_splits)

declare block2_receive.simps [simp del]

text \<open>The first block may come with the call; errors of its acknowledgement are ignored.\<close>

definition receiveARQBlock2 ::
    "transport \<Rightarrow> coap_msg \<Rightarrow> coap_msg option \<Rightarrow> env \<Rightarrow> (err + coap_msg) run" where
  "receiveARQBlock2 tr orig input e =
    (case input of
       None \<Rightarrow> block2_receive tr orig 0 new_buffer e
     | Some m \<Rightarrow> (case GetBlock2 m of
         None \<Rightarrow> block2_receive tr orig 0 new_buffer e
       | Some blk \<Rightarrow>
           if MType m \<noteq> CON then block2_receive tr orig 0 new_buffer e
           else (case Payload m of
             None \<Rightarrow> (Some (Inl GoPanic), e)
           | Some p \<Rightarrow>
               let bb = receive_block blk (Bytes p) new_buffer
               in if buffer_complete bb then
                    let m = m\<lparr>Payload := Some (BytesPayload (buffer_body bb))\<rparr>;
                        (ack, e) = with_ids (ackTo (Some orig) m CoapCodeEmpty) e;
                        (_, e) = sendToSocket tr ack e
                    in (Some (Inr m), e)
                  else
                    let (ack, e) = with_ids (continue_ack (Some orig) m blk bb) e;
                        (_, e) = sendToSocket tr ack e
                    in block2_receive tr orig 0 bb e)))"

subsection \<open>Sending a large request\<close>

text \<open>
  One round of the loop of \<open>sendARQBlock1CON\<close>, on what \<open>receiveMessage\<close> returned; the first
  component is \<open>None\<close> when the loop goes on. A number equal to the number of packets passes the
  guard and is out of range.
\<close>

definition block1_step ::
    "transport \<Rightarrow> coap_msg \<Rightarrow> err + coap_msg \<Rightarrow> arq \<Rightarrow> env \<Rightarrow> (err + coap_msg) run option \<times> arq \<times> env" where
  "block1_step tr m r s e =
    (case r of
       Inl err \<Rightarrow>
         if err = ErrMaxAttempts then
           (case sendPackets tr s e of
              (Some err, s, e) \<Rightarrow> (Some (Some (Inl err), e), s, e)
            | (None, s, e) \<Rightarrow> (None, s, e))
         else (Some (Some (Inl err), e), s, e)
     | Inr resp \<Rightarrow>
         if MType resp \<noteq> ACK then (None, s, e)
         else if MCode resp = CoapCodeEmpty then (Some (receiveARQBlock2 tr (deadline m) None e), s, e)
         else if GetBlock2 resp \<noteq> None then (Some (receiveARQBlock2 tr (deadline m) (Some resp) e), s, e)
         else (case GetBlock1 resp of
           None \<Rightarrow> (None, s, e)
         | Some blk \<Rightarrow>
             if \<not> int (length (packets s)) \<ge> BlockNumber blk then (None, s, e)
             else let s = s\<lparr>balancerCounter := balancerCounter s + 1\<rparr>
               in if MCode resp \<noteq> CoapCodeContinue then (Some (Some (Inr resp), e), s, e)
                  else if BlockNumber blk < 0 \<or> BlockNumber blk = int (length (packets s)) then
                    (Some (Some (Inl GoPanic), e), s, e)
                  else (case sendPackets tr (ack_packet (nat (BlockNumber blk)) s) e of
                     (Some err, s, e) \<Rightarrow> (Some (Some (Inl err), e), s, e)
                   | (None, s, e) \<Rightarrow> (None, s, e))))"

lemma block1_step_reads: "block1_step tr m r s e = (None, s', e') \<Longrightarrow> reads e' = reads e"
  by (auto simp: block1_step_def Let_def dest!: sendPackets_reads
      split: sum.splits if_splits option.splits prod.splits)

text \<open>The loop.\<close>

function block1_loop :: "transport \<Rightarrow> coap_msg \<Rightarrow> arq \<Rightarrow> env \<Rightarrow> (err + coap_msg) run" where
  "block1_loop tr m s e =
    (case receiveMessage tr m e of
       (None, e) \<Rightarrow> (None, e)
     | (Some r, e) \<Rightarrow> (case block1_step tr m r s e of
         (Some res, s, e) \<Rightarrow> res
       | (None, s, e) \<Rightarrow> block1_loop tr (deadline m) s e))"
  by pat_completeness auto

termination
  by (relation "measure (\<lambda>(tr, m, s, e). length (reads e))")
     (auto dest!: receiveMessage_reads [OF sym] block1_step_reads [OF sym])

declare block1_loop.simps [simp del]

definition sendARQBlock1CON :: "transport \<Rightarrow> coap_msg \<Rightarrow> env \<Rightarrow> (err + coap_msg) run" where
  "sendARQBlock1CON tr m e =
    (let state = new_state_send m
     in case construct_blocks OptionBlock1 state (ids e) of
          None \<Rightarrow> (None, e)
        | Some (msgs, g) \<Rightarrow>
            (case sendPackets tr (new_arq msgs (windowsize state)) (e\<lparr>ids := g\<rparr>) of
               (Some err, s, e) \<Rightarrow> (Some (Inl err), e)
             | (None, s, e) \<Rightarrow> block1_loop tr m s e))"

subsection \<open>A confirmable request\<close>

definition isPingACK :: "coap_msg \<Rightarrow> bool" where
  "isPingACK resp \<longleftrightarrow> MType resp = RST \<and> MCode resp = CoapCodeEmpty"

function sendCON_loop :: "transport \<Rightarrow> coap_msg \<Rightarrow> bytes \<Rightarrow> int \<Rightarrow> env \<Rightarrow> (err + coap_msg) run" where
  "sendCON_loop tr m data n e =
    (let e0 = (if n > 0 then inc MetricRetransmitMessages e else e);
         k = n + 1
     in case write_counted None data e0 of
          (Some err, e1) \<Rightarrow> (Some (Inl err), e1)
        | (None, e1) \<Rightarrow> (case receiveMessage tr m e1 of
            (None, e2) \<Rightarrow> (None, e2)
          | (Some (Inl err), e2) \<Rightarrow>
              if err = ErrMaxAttempts then
                if k = int maxSendAttempts then (Some (Inl err), inc MetricExpiredMessages e2)
                else sendCON_loop tr (deadline m) data k e2
              else (Some (Inl err), e2)
          | (Some (Inr resp), e2) \<Rightarrow>
              if isPingACK resp then (Some (Inr resp), e2)
              else if MType resp = ACK \<and> MCode resp = CoapCodeEmpty then receiveARQBlock2 tr (deadline m) None e2
              else if GetBlock2 resp \<noteq> None then receiveARQBlock2 tr (deadline m) (Some resp) e2
              else (Some (Inr resp), e2)))"
  by pat_completeness auto

termination
  by (relation "measure (\<lambda>(tr, m, data, n, e). length (reads e))")
     (auto dest!: receiveMessage_reads [OF sym] write_counted_reads [OF sym] simp: inc_reads)

declare sendCON_loop.simps [simp del]

definition sendCON :: "transport \<Rightarrow> coap_msg \<Rightarrow> env \<Rightarrow> (err + coap_msg) run" where
  "sendCON tr m e =
    (if isBigPayload m then sendARQBlock1CON tr m e
     else case preparationSendingMessage tr m (tr_remote tr) e of
       (Inl err, e) \<Rightarrow> (Some (Inl err), e)
     | (Inr data, e) \<Rightarrow> sendCON_loop tr m data 0 e)"

subsection \<open>The window of a running transfer\<close>

text \<open>
  The local variables of the two senders between two rounds of their loops: after the first
  pass over the window, and after a round of the loop that goes on. Between two rounds the
  environment may have changed in any way.
\<close>

inductive block2_state :: "transport \<Rightarrow> coap_msg \<Rightarrow> bytes \<Rightarrow> arq \<Rightarrow> bool" for tr m addr where
  Opened: "construct_blocks OptionBlock2 (new_state_send m) g = Some (msgs, g') \<Longrightarrow>
    sendPacketsToAddr tr addr (new_arq msgs (windowsize (new_state_send m))) e = (None, s, e') \<Longrightarrow>
    block2_state tr m addr s"
| Round: "block2_state tr m addr s \<Longrightarrow> block2_step tr m addr ev s e = (None, s', e') \<Longrightarrow> block2_state tr m addr s'"

inductive block1_state :: "transport \<Rightarrow> coap_msg \<Rightarrow> arq \<Rightarrow> bool" for tr m where
  Opened: "construct_blocks OptionBlock1 (new_state_send m) g = Some (msgs, g') \<Longrightarrow>
    sendPackets tr (new_arq msgs (windowsize (new_state_send m))) e = (None, s, e') \<Longrightarrow> block1_state tr m s"
| Round: "block1_state tr m s \<Longrightarrow> m' = m \<or> m' = deadline m \<Longrightarrow>
    block1_step tr m' r s e = (None, s', e') \<Longrightarrow> block1_state tr m s'"

lemma block1_step_ok:
  assumes ok: "arq_ok s" and r: "block1_step tr m q s e = (None, s', e')"
  shows "round_ok s e s' e'"
proof -
  have pass: "round_ok s e s1 e1" if "sendPackets tr s e = (None, s1, e1)" for s1 e1
    using round_ok_pass [OF ok sendPackets_pass [OF ok that]] .
  have ack: "round_ok s e s1 e1"
    if "sendPackets tr (ack_packet (nat (BlockNumber blk)) (s\<lparr>balancerCounter := balancerCounter s + 1\<rparr>)) e = (None, s1, e1)"
      "0 \<le> BlockNumber blk" "BlockNumber blk < int (length (packets s))" for blk s1 e1
    using that ok by (intro round_ok_ack [OF ok, of "nat (BlockNumber blk)"]) (auto intro: sendPackets_pass)
  show ?thesis
    using r ok unfolding block1_step_def Let_def
    by (auto split: sum.splits if_splits option.splits prod.splits intro: round_ok_refl pass ack)
qed

lemma block2_state_ok:
  "block2_state tr m addr s \<Longrightarrow> arq_ok s \<and> (\<exists>g g'. construct_blocks OptionBlock2 (new_state_send m) g = Some (map pmessage (packets s), g')) \<and>
     (awindow s = windowsize (new_state_send m) \<or> MIN_WINDOW_SIZE \<le> awindow s)"
proof (induction rule: block2_state.induct)
  case (Opened g msgs g' e s e')
  have ok: "arq_ok (new_arq msgs (windowsize (new_state_send m)))" using new_state_window by (simp add: arq_ok_new)
  have "map pmessage (packets (new_arq msgs (windowsize (new_state_send m)))) = msgs" by (simp add: new_arq_def comp_def)
  then show ?case
    using round_ok_pass [OF ok sendPacketsToAddr_pass [OF ok Opened(2)]] Opened(1) by (auto simp: round_ok_def new_arq_def)
next
  case (Round s ev e s' e')
  then show ?case using block2_step_ok [of s tr m addr ev e None s' e'] by (auto simp: round_ok_def)
qed

lemma block1_state_ok:
  "block1_state tr m s \<Longrightarrow> arq_ok s \<and> (\<exists>g g'. construct_blocks OptionBlock1 (new_state_send m) g = Some (map pmessage (packets s), g')) \<and>
     (awindow s = windowsize (new_state_send m) \<or> MIN_WINDOW_SIZE \<le> awindow s)"
proof (induction rule: block1_state.induct)
  case (Opened g msgs g' e s e')
  have ok: "arq_ok (new_arq msgs (windowsize (new_state_send m)))" using new_state_window by (simp add: arq_ok_new)
  have "map pmessage (packets (new_arq msgs (windowsize (new_state_send m)))) = msgs" by (simp add: new_arq_def comp_def)
  then show ?case
    using round_ok_pass [OF ok sendPackets_pass [OF ok Opened(2)]] Opened(1) by (auto simp: round_ok_def new_arq_def)
next
  case (Round s m' r e s' e')
  then show ?case using block1_step_ok [of s tr m' r e s' e'] by (auto simp: round_ok_def)
qed

text \<open>C8: The window of a running transfer: between any two rounds of the loops of
  \<open>sendARQBlock2ACK\<close> and \<open>sendARQBlock1CON\<close>, whatever acknowledgements, other messages and
  timeouts came, \<open>shift\<close> is the length of the acknowledged prefix, the packets are the blocks
  of the payload, no packet has more than six attempts, and the window lies between 0 and
  1500 and is the one of the start or at least 50. A pass over the window only touches
  unacknowledged packets from the first one on and below the end of the window.\<close>

theorem window_invariant:
  assumes "block2_state tr m addr s \<or> block1_state tr m s"
  shows "shift s = length (takeWhile id (acks s)) \<and>
    (\<exists>opt g g'. construct_blocks opt (new_state_send m) g = Some (map pmessage (packets s), g')) \<and>
    (\<forall>p \<in> set (packets s). 0 \<le> attempts p \<and> attempts p \<le> maxSendAttempts) \<and>
    0 \<le> awindow s \<and> awindow s \<le> MAX_WINDOW_SIZE \<and>
    (awindow s = windowsize (new_state_send m) \<or> MIN_WINDOW_SIZE \<le> awindow s) \<and>
    (\<forall>e r s' e' j. sendPacketsToAddr tr addr s e = (r, s', e') \<or> sendPackets tr s e = (r, s', e') \<longrightarrow>
       packets s' ! j \<noteq> packets s ! j \<longrightarrow> shift s \<le> j \<and> j < window_stop s \<and> \<not> acked (packets s ! j))"
proof -
  have ok: "arq_ok s" "\<exists>opt g g'. construct_blocks opt (new_state_send m) g = Some (map pmessage (packets s), g')"
    "awindow s = windowsize (new_state_send m) \<or> MIN_WINDOW_SIZE \<le> awindow s"
    using assms block2_state_ok block1_state_ok by blast+
  have "shift s \<le> j \<and> j < window_stop s \<and> \<not> acked (packets s ! j)"
    if "sendPacketsToAddr tr addr s e = (r, s', e') \<or> sendPackets tr s e = (r, s', e')"
      "packets s' ! j \<noteq> packets s ! j" for e r s' e' j
    using that send_range_touches [where f = "send_packet_to tr addr", OF send_packet_to_step, of "[shift s ..< window_stop s]" s e r s' e' j]
      send_range_touches [where f = "send_packet tr", OF send_packet_step, of "[shift s ..< window_stop s]" s e r s' e' j]
    by (auto simp: sendPacketsToAddr_def sendPackets_def split: if_splits)
  then show ?thesis using ok unfolding arq_ok_def by blast
qed

text \<open>After the first pass of the sample the peer acknowledges one block more than there is: only
  the counter of the balance moves.\<close>

theorem window_invariant_witness:
  "\<exists>s. block2_state sample_transport sample_big_ack (lit ''p:1'') s \<and> balancerCounter s = 1 \<and>
     shift s = length (takeWhile id (acks s)) \<and> awindow s \<le> 1500"
proof -
  let ?tr = sample_transport and ?m = sample_big_ack and ?a = "lit ''p:1''"
  have w: "\<forall>n. wres sample_env n = None" by (simp add: sample_env_def)
  obtain b g' s e where c: "construct_blocks OptionBlock2 (new_state_send ?m) (ids sample_env) = Some ([b], g')"
    and p: "sendPacketsToAddr ?tr ?a (new_arq [b] (windowsize (new_state_send ?m))) (sample_env\<lparr>ids := g'\<rparr>) = (None, s, e)"
    by (rule sample_first_pass [OF w])
  have q: "pass (new_arq [b] (windowsize (new_state_send ?m))) (sample_env\<lparr>ids := g'\<rparr>) s e"
    using sendPacketsToAddr_pass [OF _ p] new_state_window by (simp add: arq_ok_new)
  then have l: "length (packets s) = 1" "balancerCounter s = 0" by (auto simp: pass_def same_window_def new_arq_def)
  let ?ack = "AddOption (zero_msg\<lparr>MType := ACK, MCode := CoapCodeContinue\<rparr>) OptionBlock2 (VUint32 22)"
  have ack: "Token ?ack = Token ?m" "MType ?ack = ACK" "MCode ?ack = CoapCodeContinue"
    "GetBlock2 ?ack = Some \<lparr>BlockNumber = 1, MoreBlocks = False, BlockSize = 1024\<rparr>"
    by code_simp+
  have st: "block2_step ?tr ?m ?a (ChanMessage ?ack) s e = (None, s\<lparr>balancerCounter := 1\<rparr>, e)"
    unfolding block2_step.simps ack by (simp add: l)
  have "block2_state ?tr ?m ?a (s\<lparr>balancerCounter := 1\<rparr>)"
    by (rule block2_state.Round [OF block2_state.Opened [OF c p] st])
  then show ?thesis
    using window_invariant [OF disjI1, of ?tr ?m ?a "s\<lparr>balancerCounter := 1\<rparr>"]
    by (intro exI [of _ "s\<lparr>balancerCounter := 1\<rparr>"]) (simp add: limit_defs)
qed

end
