(* ===== verification/Client_Send.thy ===== *)
theory Client_Send
  imports Arq_Receiver
begin

text \<open>
  The client: the handshake of \<open>security.go\<close>, \<open>transport.Send\<close>, and \<open>client.go\<close> with its
  pool of connections (\<open>connections.go\<close>).
\<close>

subsection \<open>The handshake of a client\<close>

definition newClientHelloMessage :: "coap_msg \<Rightarrow> bytes \<Rightarrow> id_source \<Rightarrow> coap_msg \<times> id_source" where
  "newClientHelloMessage orig pk g =
    (let (m, g) = NewCoAPMessage CON GET g;
         m = AddOption m OptionHandshakeType (VInt CoapHandshakeTypeClientHello);
         m = m\<lparr>Payload := Some (BytesPayload pk)\<rparr>;
         (t, g) = generateToken 6 g;
         m = m\<lparr>Token := t\<rparr>;
         m = CloneOptions m orig [OptionProxyURI, OptionProxySecurityID]
     in (m\<lparr>ProxyAddr := ProxyAddr orig\<rparr>, g))"

text \<open>What \<open>sendHelloFromClient\<close> and \<open>sendHelloFromServer\<close> do with the answer to the hello.\<close>

definition peer_key_of :: "coap_msg \<Rightarrow> coap_msg option \<Rightarrow> err + bytes" where
  "peer_key_of orig resp =
    (case resp of
       None \<Rightarrow> Inr []
     | Some r \<Rightarrow>
         (case (case GetOption r OptionHandshakeType of
                  Some opt \<Rightarrow> if IntValue opt = CoapHandshakeTypePeerHello
                              then map_option Bytes (Payload r) else Some []
                | None \<Rightarrow> Some []) of
            None \<Rightarrow> Inl GoPanic
          | Some peerPublicKey \<Rightarrow>
              (case BreakConnectionOnPK orig of
                 Some f \<Rightarrow> if f peerPublicKey then Inl ERR_KEYS_NOT_MATCH else Inr peerPublicKey
               | None \<Rightarrow> Inr peerPublicKey)))"

definition sendHelloFromClient ::
    "(coap_msg \<Rightarrow> env \<Rightarrow> (err + coap_msg option) run) \<Rightarrow> coap_msg \<Rightarrow> bytes \<Rightarrow> env \<Rightarrow> (err + bytes) run" where
  "sendHelloFromClient send orig pk e =
    (let (m, e) = with_ids (newClientHelloMessage orig pk) e
     in and_then (send m e) (\<lambda>r. return (case r of Inl err \<Rightarrow> Inl err | Inr resp \<Rightarrow> peer_key_of orig resp)))"

text \<open>The end of a handshake, once the key of the peer is known: \<open>Verify\<close> and the new session.\<close>

definition finish_handshake :: "transport \<Rightarrow> SecuredSession \<Rightarrow> bytes \<Rightarrow> bytes \<Rightarrow> bytes \<Rightarrow> env \<Rightarrow> err option \<times> env" where
  "finish_handshake tr s address proxyAddr peerPublicKey e =
    (let s = s\<lparr>PeerPublicKey' := peerPublicKey\<rparr>
     in case GetSignature (tr_crypto tr) s of
          Inl err \<Rightarrow> (Some err, e)
        | Inr signature \<Rightarrow> (case Verify (tr_crypto tr) s signature of
            (Some err, _) \<Rightarrow> (Some err, e)
          | (None, s) \<Rightarrow>
              (None, inc MetricSuccessfulHandhshakes (storeSession s (tr_local tr) address proxyAddr e))))"

definition handshake_with ::
    "(coap_msg \<Rightarrow> env \<Rightarrow> (err + coap_msg option) run) \<Rightarrow> transport \<Rightarrow> coap_msg \<Rightarrow> bytes \<Rightarrow> bytes \<Rightarrow> env
      \<Rightarrow> err option run" where
  "handshake_with send tr m address proxyAddr e =
    (let (ses, e) = getSessionForAddress (tr_local tr) address proxyAddr e
     in case ses of
          Some _ \<Rightarrow> return None e
        | None \<Rightarrow> (case fresh_session tr e of
            (Inl err, e) \<Rightarrow> return (Some err) e
          | (Inr s, e) \<Rightarrow> and_then (sendHelloFromClient send m (GetPublicKey (Curve s)) e) (\<lambda>r e.
              case r of
                Inl err \<Rightarrow> return (Some err) e
              | Inr pk \<Rightarrow> (case finish_handshake tr s address proxyAddr pk e of (r, e) \<Rightarrow> return r e))))"

subsection \<open>\<open>Send\<close>\<close>

text \<open>The proxy part of the session key, and the message with the proxy id it is sent with.\<close>

definition proxy_session :: "transport \<Rightarrow> coap_msg \<Rightarrow> env \<Rightarrow> bytes \<times> coap_msg \<times> env" where
  "proxy_session tr m e =
    (if length (ProxyAddr m) > 0 then
       let (pid, m', e) = setProxyIDIfNeed m (tr_local tr) e
       in (ProxyAddr m @ decimal (unat pid), m', e)
     else (ProxyAddr m, m, e))"

definition is_session_error :: "err \<Rightarrow> bool" where
  "is_session_error err \<longleftrightarrow> err \<in> {ErrorSessionExpired, ErrorSessionNotFound,
     ErrorClientSessionExpired, ErrorClientSessionNotFound}"

text \<open>Before a confirmable message of the coaps scheme a session is made sure of. \<open>hs m p e\<close> is
  the handshake for proxy part \<open>p\<close>.\<close>

definition ensure_session ::
    "(coap_msg \<Rightarrow> bytes \<Rightarrow> env \<Rightarrow> err option run) \<Rightarrow> transport \<Rightarrow> coap_msg \<Rightarrow> env
      \<Rightarrow> (err option \<times> coap_msg) run" where
  "ensure_session hs tr m e =
    (if GetScheme m = COAPS_SCHEME then
       let (proxyAddr, m, e) = proxy_session tr m e
       in and_then (hs m proxyAddr e) (\<lambda>r. return (r, m))
     else return (None, m) e)"

definition Send_with ::
    "(coap_msg \<Rightarrow> bytes \<Rightarrow> env \<Rightarrow> err option run) \<Rightarrow> transport \<Rightarrow> coap_msg \<Rightarrow> env
      \<Rightarrow> (err + coap_msg option) run" where
  "Send_with hs tr m e =
    (if MType m = CON then
       and_then (ensure_session hs tr m e) (\<lambda>(r, m) e1.
         case r of
           Some err \<Rightarrow> return (Inl err) e1
         | None \<Rightarrow> and_then (sendCON tr m e1) (\<lambda>resp e2.
             case resp of
               Inr resp \<Rightarrow> return (Inr (Some resp)) e2
             | Inl err \<Rightarrow>
                 if \<not> is_session_error err then return (Inl err) e2
                 else let m = (if reads e2 = reads e1 then m else deadline m)
                   in and_then (ensure_session hs tr m e2) (\<lambda>(r, m) e3.
                     case r of
                       Some err \<Rightarrow> return (Inl err) e3
                     | None \<Rightarrow> and_then (sendCON tr m e3) (\<lambda>resp. return (map_sum id Some resp)))))
     else if MType m = RST \<or> MType m = NON then
       (case sendToSocket tr m e of
          (Some err, e) \<Rightarrow> return (Inl err) e | (None, e) \<Rightarrow> return (Inr None) e)
     else return (Inl ErrUnsupportedType) e)"

text \<open>The hello message has no scheme option, so \<open>Send\<close> sends it without a handshake of its
  own: the recursion of the code is one level deep.\<close>

definition Send_hello :: "transport \<Rightarrow> coap_msg \<Rightarrow> env \<Rightarrow> (err + coap_msg option) run" where
  "Send_hello tr m e = Send_with (\<lambda>m p. return None) tr m e"

definition handshake :: "transport \<Rightarrow> coap_msg \<Rightarrow> bytes \<Rightarrow> bytes \<Rightarrow> env \<Rightarrow> err option run" where
  "handshake tr m address proxyAddr e = handshake_with (Send_hello tr) tr m address proxyAddr e"

definition Send :: "transport \<Rightarrow> coap_msg \<Rightarrow> env \<Rightarrow> (err + coap_msg option) run" where
  "Send tr m e = Send_with (\<lambda>m p. handshake tr m (tr_remote tr) p) tr m e"

lemma GetScheme_deadline [simp]: "GetScheme (deadline m) = GetScheme m"
  by (simp add: GetScheme_def GetOption_def deadline_def)

lemma and_then_cong:
  "r = r' \<Longrightarrow> (\<And>x e. k x e = k' x e) \<Longrightarrow> and_then r k = and_then r' k'"
  by (simp add: and_then_def split: option.split prod.split)

lemma ensure_session_plain:
  "GetScheme m \<noteq> COAPS_SCHEME \<Longrightarrow> ensure_session h tr m e = return (None, m) e"
  by (simp add: ensure_session_def)

lemma Send_with_plain:
  assumes "GetScheme m \<noteq> COAPS_SCHEME"
  shows "Send_with hs tr m e = Send_with hs' tr m e"
proof -
  have "GetScheme (if b then m else deadline m) \<noteq> COAPS_SCHEME" for b using assms by simp
  note p = ensure_session_plain [OF assms] ensure_session_plain [OF this]
  show ?thesis
    unfolding Send_with_def p and_then_simps prod.case option.case Let_def by (rule refl)
qed

lemma newClientHello_scheme: "GetScheme (fst (newClientHelloMessage orig pk g)) = COAP_SCHEME"
proof -
  have "GetOptions (fst (newClientHelloMessage orig pk g)) OptionURIScheme = GetOptions (fst (NewCoAPMessage CON GET g)) OptionURIScheme"
    by (simp add: newClientHelloMessage_def Let_def split_beta GetOptions_AddOption GetOptions_AddOptions_code)
  then show ?thesis using GetScheme_cong GetScheme_new by metis
qed

lemma Send_of_hello:
  "Send tr (fst (newClientHelloMessage orig pk g)) e = Send_hello tr (fst (newClientHelloMessage orig pk g)) e"
  unfolding Send_def Send_hello_def
  by (rule Send_with_plain) (simp add: newClientHello_scheme [unfolded scheme_defs])

subsection \<open>The pool of connections (\<open>connections.go\<close>)\<close>

definition NumberConnections :: nat where "NumberConnections = 1024"

text \<open>\<open>balance\<close> counts the tokens in the channel of that name.\<close>

record connpool =
  balance :: nat
  useTCP :: bool

definition newConnpool :: "bool \<Rightarrow> connpool" where
  "newConnpool tcp = \<lparr>balance = 0, useTCP = tcp\<rparr>"

text \<open>\<open>net.ResolveUDPAddr\<close> and \<open>net.DialUDP\<close> (or the TCP calls) are one call of the network, which
  returns the two addresses of the connection.\<close>

record dialed =
  d_local :: bytes
  d_remote :: bytes

text \<open>\<open>newDialer\<close> puts a token into the channel after it has connected, and blocks (\<open>None\<close>)
  while the channel is full.\<close>

definition newDialer :: "(bytes \<Rightarrow> err + dialed) \<Rightarrow> bytes \<Rightarrow> connpool \<Rightarrow> (err + dialed) option \<times> connpool" where
  "newDialer net addr p =
    (case net addr of
       Inl err \<Rightarrow> (Some (Inl err), p)
     | Inr d \<Rightarrow> if balance p < NumberConnections then (Some (Inr d), p\<lparr>balance := balance p + 1\<rparr>)
               else (None, p))"

definition newDialerTCP :: "(bytes \<Rightarrow> err + dialed) \<Rightarrow> bytes \<Rightarrow> err + dialed" where
  "newDialerTCP net addr = net addr"

definition Dial :: "(bytes \<Rightarrow> err + dialed) \<Rightarrow> bytes \<Rightarrow> connpool \<Rightarrow> (err + dialed) option \<times> connpool" where
  "Dial net addr p =
    (if useTCP p then (Some (newDialerTCP net addr), p) else newDialer net addr p)"

text \<open>\<open>Close\<close> takes a token back if there is one, and never blocks.\<close>

definition Close_connection :: "connpool \<Rightarrow> connpool" where
  "Close_connection p = (if useTCP p then p else p\<lparr>balance := balance p - 1\<rparr>)"

subsection \<open>\<open>client.go\<close>\<close>

record Response =
  Body :: bytes
  RCode :: coap_code
  RPeerPublicKey :: bytes

text \<open>\<open>c_base\<close> gives what every transport of the process shares: the primitives.\<close>

record Client =
  c_privateKey :: bytes
  c_base :: transport
  c_net :: "bytes \<Rightarrow> err + dialed"
  c_resolve :: "bytes \<Rightarrow> bytes option"

text \<open>The options of \<open>coala_opts.go\<close>: there is one, the private key.\<close>

datatype Opt = WithPrivateKey bytes

record coalaopts =
  privatekey :: bytes

fun apply_opt :: "Opt \<Rightarrow> coalaopts \<Rightarrow> coalaopts" where
  "apply_opt (WithPrivateKey k) o1 = o1\<lparr>privatekey := k\<rparr>"

definition read_opts :: "Opt list \<Rightarrow> coalaopts" where
  "read_opts opts = fold apply_opt opts \<lparr>privatekey = []\<rparr>"

definition NewClient ::
    "transport \<Rightarrow> (bytes \<Rightarrow> err + dialed) \<Rightarrow> (bytes \<Rightarrow> bytes option) \<Rightarrow> Opt list \<Rightarrow> Client \<times> connpool" where
  "NewClient base net resolve opts =
    (\<lparr>c_privateKey = privatekey (read_opts opts), c_base = base, c_net = net, c_resolve = resolve\<rparr>,
     newConnpool False)"

definition NewTCPClient ::
    "transport \<Rightarrow> (bytes \<Rightarrow> err + dialed) \<Rightarrow> (bytes \<Rightarrow> bytes option) \<Rightarrow> Opt list \<Rightarrow> Client \<times> connpool" where
  "NewTCPClient base net resolve opts =
    (\<lparr>c_privateKey = privatekey (read_opts opts), c_base = base, c_net = net, c_resolve = resolve\<rparr>,
     newConnpool True)"

definition client_transport :: "Client \<Rightarrow> dialed \<Rightarrow> transport" where
  "client_transport c d =
    (c_base c)\<lparr>tr_privateKey := c_privateKey c, tr_local := d_local d, tr_remote := d_remote d\<rparr>"

text \<open>Dial, send on the new connection, close it: also on every error (\<open>defer\<close>).\<close>

definition with_connection ::
    "Client \<Rightarrow> bytes \<Rightarrow> (transport \<Rightarrow> env \<Rightarrow> (err + 'a) run) \<Rightarrow> connpool \<Rightarrow> env \<Rightarrow> (err + 'a) option \<times> connpool \<times> env" where
  "with_connection c addr f p e =
    (case Dial (c_net c) addr p of
       (None, p) \<Rightarrow> (None, p, e)
     | (Some (Inl err), p) \<Rightarrow> (Some (Inl err), p, e)
     | (Some (Inr d), p) \<Rightarrow> (case f (client_transport c d) e of
         (None, e) \<Rightarrow> (None, p, e) | (Some r, e) \<Rightarrow> (Some r, Close_connection p, e)))"

text \<open>The response of a message; a missing one, or one without payload, is a nil dereference.\<close>

definition make_response :: "coap_msg option \<Rightarrow> err + Response" where
  "make_response resp =
    (case resp of
       None \<Rightarrow> Inl GoPanic
     | Some r \<Rightarrow> (case Payload r of
         None \<Rightarrow> Inl GoPanic
       | Some p \<Rightarrow> Inr \<lparr>Body = Bytes p, RCode = MCode r, RPeerPublicKey = PeerPublicKey r\<rparr>))"

definition Client_Send ::
    "Client \<Rightarrow> coap_msg \<Rightarrow> bytes \<Rightarrow> coap_option list \<Rightarrow> connpool \<Rightarrow> env
      \<Rightarrow> (err + Response option) option \<times> connpool \<times> env" where
  "Client_Send c m addr options p e =
    (let m = AddOptions m options
     in with_connection c addr (\<lambda>sr e. and_then (Send sr m e) (\<lambda>r. return (case r of
          Inl err \<Rightarrow> Inl err
        | Inr resp \<Rightarrow>
            if MType m = NON \<or> MType m = ACK then Inr None else map_sum id Some (make_response resp)))) p e)"

text \<open>\<open>sendCON\<close> and \<open>sendCONMessage\<close>; an address that did not resolve is a nil pointer, whose
  \<open>String\<close> is \<open><nil>\<close>.\<close>

definition sendCONMessage :: "Client \<Rightarrow> coap_msg \<Rightarrow> connpool \<Rightarrow> env \<Rightarrow> (err + Response) option \<times> connpool \<times> env" where
  "sendCONMessage c m p e =
    (case Recipient m of
       None \<Rightarrow> (Some (Inl GoPanic), p, e)
     | Some addr \<Rightarrow> with_connection c addr (\<lambda>sr e. and_then (Send sr m e) (\<lambda>r. return (case r of
           Inl err \<Rightarrow> Inl err | Inr resp \<Rightarrow> make_response resp))) p e)"

definition parseURI :: "Client \<Rightarrow> bytes \<Rightarrow> err + bytes \<times> bytes \<times> url_values \<times> bytes" where
  "parseURI c uri =
    (case url_Parse uri of
       None \<Rightarrow> Inl (ErrExternal 2)
     | Some u \<Rightarrow> (case url_ParseQuery (RawQuery u) of
         None \<Rightarrow> Inl (ErrExternal 3)
       | Some queries \<Rightarrow> Inr (Path u, Scheme u, queries,
           case c_resolve c (Host u) of Some a \<Rightarrow> a | None \<Rightarrow> lit ''<nil>'')))"

text \<open>The loop over the queries; \<open>url.ParseQuery\<close> never gives a key without values.\<close>

fun add_queries :: "coap_msg \<Rightarrow> url_values \<Rightarrow> coap_msg" where
  "add_queries m [] = m"
| "add_queries m ((k, v) # qs) = add_queries (if length v > 0 then SetURIQuery m k (hd v) else m) qs"

definition constructMessage :: "Client \<Rightarrow> coap_code \<Rightarrow> bytes \<Rightarrow> id_source \<Rightarrow> (err + coap_msg) \<times> id_source" where
  "constructMessage c code uri g =
    (case parseURI c uri of
       Inl err \<Rightarrow> (Inl err, g)
     | Inr (path, scheme, queries, addr) \<Rightarrow>
         let (m, g) = NewCoAPMessage CON code g
         in case (if scheme = lit ''coap'' \<or> scheme = lit ''coap+tcp'' then Some (SetSchemeCOAP m)
                  else if scheme = lit ''coaps'' \<or> scheme = lit ''coaps+tcp'' then Some (SetSchemeCOAPS m)
                  else None) of
              None \<Rightarrow> (Inl ErrUndefinedScheme, g)
            | Some m \<Rightarrow>
                let m = SetURIPath m path;
                    m = add_queries m (tr_range (c_base c) queries)
                in (Inr (m\<lparr>Recipient := Some addr\<rparr>), g))"

text \<open>\<open>GET\<close>, \<open>POST\<close> and \<open>DELETE\<close>; the last one takes data and does not use it.\<close>

definition request ::
    "Client \<Rightarrow> coap_code \<Rightarrow> bytes \<Rightarrow> coap_option list \<Rightarrow> bytes option \<Rightarrow> connpool \<Rightarrow> env
      \<Rightarrow> (err + Response) option \<times> connpool \<times> env" where
  "request c code uri opts data p e =
    (case with_ids (constructMessage c code uri) e of
       (Inl err, e) \<Rightarrow> (Some (Inl err), p, e)
     | (Inr m, e) \<Rightarrow>
         let m = AddOptions m opts;
             m = (case data of Some d \<Rightarrow> m\<lparr>Payload := Some (BytesPayload d)\<rparr> | None \<Rightarrow> m)
         in sendCONMessage c m p e)"

definition Client_GET ::
    "Client \<Rightarrow> bytes \<Rightarrow> coap_option list \<Rightarrow> connpool \<Rightarrow> env \<Rightarrow> (err + Response) option \<times> connpool \<times> env" where
  "Client_GET c uri opts p e = request c GET uri opts None p e"

definition Client_POST ::
    "Client \<Rightarrow> bytes \<Rightarrow> bytes \<Rightarrow> coap_option list \<Rightarrow> connpool \<Rightarrow> env \<Rightarrow> (err + Response) option \<times> connpool \<times> env" where
  "Client_POST c data uri opts p e = request c POST uri opts (Some data) p e"

definition Client_DELETE ::
    "Client \<Rightarrow> bytes \<Rightarrow> bytes \<Rightarrow> coap_option list \<Rightarrow> connpool \<Rightarrow> env \<Rightarrow> (err + Response) option \<times> connpool \<times> env" where
  "Client_DELETE c data uri opts p e = request c DELETE uri opts None p e"

end
