(* ===== verification/Coap_Show.thy ===== *)
theory Coap_Show
  imports Coap_Block Coala_Env
begin

text \<open>
  The printing side of a message (\<open>message.go\<close>): \<open>ToReadableString\<close> with the verbs of \<open>fmt\<close> it
  uses, the text of a payload, and the keys built from a token, an address and a message id.
\<close>

subsection \<open>The verbs of \<open>fmt\<close>\<close>

definition show_int :: "int \<Rightarrow> bytes" where
  "show_int n = (if n < 0 then 45 # decimal (nat (- n)) else decimal (nat n))"

definition show_bool :: "bool \<Rightarrow> bytes" where
  "show_bool b = (if b then lit ''true'' else lit ''false'')"

text \<open>\<open>%x\<close> of a byte slice.\<close>

definition hex_bytes :: "bytes \<Rightarrow> bytes" where
  "hex_bytes bs = concat (map (\<lambda>b. [hex_digit (ucast (drop_bit 4 b)), hex_digit (ucast (b AND 15))]) bs)"

fun join_with :: "bytes \<Rightarrow> bytes list \<Rightarrow> bytes" where
  "join_with sep [] = []"
| "join_with sep [x] = x"
| "join_with sep (x # y # ys) = x @ sep @ join_with sep (y # ys)"

text \<open>\<open>%v\<close> of the value of an option, by its dynamic type; a byte slice prints its numbers.\<close>

fun show_value :: "optval \<Rightarrow> bytes" where
  "show_value VNil = lit ''<nil>''"
| "show_value (VString s) = s"
| "show_value (VBytes bs) = lit ''['' @ join_with [32] (map (\<lambda>b. decimal (unat b)) bs) @ lit '']''"
| "show_value (VMedia m) = show_int m"
| "show_value (VInt i) = show_int i"
| "show_value (VInt8 w) = show_int (sint w)"
| "show_value (VInt16 w) = show_int (sint w)"
| "show_value (VInt32 w) = show_int (sint w)"
| "show_value (VUint w) = decimal (unat w)"
| "show_value (VUint8 w) = decimal (unat w)"
| "show_value (VUint16 w) = decimal (unat w)"
| "show_value (VUint32 w) = decimal (unat w)"

subsection \<open>Messages\<close>

definition GetMessageIDString :: "coap_msg \<Rightarrow> bytes" where
  "GetMessageIDString m = show_int (uint (MessageID m))"

definition show_option :: "coap_option \<Rightarrow> bytes" where
  "show_option opt =
    lit (optionCodeToString (OCode opt)) @ lit '': '' @ [39] @ show_value (OValue opt) @ [39, 32] @
    (if OCode opt = OptionBlock1 \<or> OCode opt = OptionBlock2 then
       let blk = newBlockFromInt (IntValue opt)
       in lit '' ['' @ show_int (BlockNumber blk) @ lit '' | '' @ show_int (BlockSize blk) @ lit '' | '' @
            show_bool (MoreBlocks blk) @ lit '']''
     else [])"

definition ToReadableString :: "coap_msg \<Rightarrow> bytes" where
  "ToReadableString m =
    join_with [9] [lit (typeString (MType m)), lit (code_String (MCode m)), GetSchemeString m,
      hex_bytes (Token m), decimal (unat (MessageID m)),
      lit ''['' @ concat (map show_option (Options m)) @ lit '']'']"

text \<open>The text of a payload; a nil payload is a nil dereference.\<close>

fun payload_String :: "payload \<Rightarrow> bytes" where
  "payload_String (StringPayload s) = s"
| "payload_String (BytesPayload v) = v"
| "payload_String (XMLPayload s) = s"
| "payload_String EmptyPayload = []"
| "payload_String (JSONPayload obj) = Bytes (JSONPayload obj)"

definition GetPayload :: "coap_msg \<Rightarrow> bytes option" where
  "GetPayload m = map_option Bytes (Payload m)"

subsection \<open>Keys\<close>

text \<open>A message without sender has no key: \<open>String\<close> of a nil address panics (\<open>None\<close>).\<close>

definition GetProxyKeyReceiver :: "coap_msg \<Rightarrow> bytes option" where
  "GetProxyKeyReceiver m = map_option (\<lambda>a. GetTokenString m @ a) (Sender m)"

definition GetProxyKeySender :: "coap_msg \<Rightarrow> bytes \<Rightarrow> bytes" where
  "GetProxyKeySender m address = GetTokenString m @ address"

definition GetACKKeyForSend :: "coap_msg \<Rightarrow> bytes \<Rightarrow> bytes" where
  "GetACKKeyForSend m address = address @ GetTokenString m @ GetMessageIDString m"

definition GetACKKeyForReceive :: "coap_msg \<Rightarrow> bytes option" where
  "GetACKKeyForReceive m = map_option (\<lambda>a. a @ GetTokenString m @ GetMessageIDString m) (Sender m)"

lemma of_nat_digit: "a < 10 \<Longrightarrow> b < 10 \<Longrightarrow> (of_nat (48 + a) :: byte) = of_nat (48 + b) \<longleftrightarrow> a = b"
  by (simp add: word_unat_eq_iff unat_of_nat del: of_nat_add)

lemma decimal_not_Nil: "decimal n \<noteq> []"
  by (simp add: decimal.simps)

lemma decimal_inj: "decimal a = decimal b \<longleftrightarrow> a = b"
proof (induction a arbitrary: b rule: less_induct)
  case (less a)
  show ?case
  proof (cases "a < 10 \<or> b < 10")
    case True
    then show ?thesis
      using of_nat_digit decimal_not_Nil decimal_not_Nil [symmetric] by (subst decimal.simps, subst (2) decimal.simps) (auto simp del: of_nat_add)
  next
    case False
    then have "decimal a = decimal b \<longleftrightarrow> decimal (a div 10) = decimal (b div 10) \<and> a mod 10 = b mod 10"
      by (subst decimal.simps, subst (2) decimal.simps) (auto simp: of_nat_digit simp del: of_nat_add)
    also have "\<dots> \<longleftrightarrow> a div 10 = b div 10 \<and> a mod 10 = b mod 10" using less.IH False by simp
    also have "\<dots> \<longleftrightarrow> a = b" by (metis div_mult_mod_eq)
    finally show ?thesis .
  qed
qed

text \<open>
  The key an acknowledgement is received under is the key its request was sent under, and for
  one peer and one token the key tells the message ids apart.
\<close>

lemma ack_keys:
  assumes "Sender a = Some addr" "Token a = Token m"
  shows "GetACKKeyForReceive a = Some (GetACKKeyForSend m addr) \<longleftrightarrow> MessageID a = MessageID m"
  using assms by (auto simp: GetACKKeyForReceive_def GetACKKeyForSend_def GetTokenString_def GetMessageIDString_def
      show_int_def decimal_inj nat_uint_eq word_unat_eq_iff)

end
