(* ===== verification/Coap_Cli.thy ===== *)
theory Coap_Cli
  imports Client_Send Coap_Show
begin

text \<open>
  The command-line client \<open>cmd/coap-cli/main.go\<close>: its flags, read the way the package \<open>flag\<close>
  of the standard library does, the request it makes with a client of the library, and what it
  prints. Texts made by other packages are the parameter \<open>cli_text\<close>.
\<close>

subsection \<open>Flags\<close>

text \<open>The client declares its flags; parsing them is the library's, here as far as it is used.\<close>

record cli_flags =
  f_m :: bytes
  f_key :: bytes
  f_d :: bytes
  f_v :: bool

definition default_flags :: cli_flags where
  "default_flags = \<lparr>f_m = lit ''get'', f_key = [], f_d = [], f_v = False\<rparr>"

datatype flag_error =
    HelpWanted
  | BadFlagSyntax bytes
  | FlagNotDefined bytes
  | InvalidBool bytes bytes
  | NeedsArgument bytes

text \<open>\<open>strconv.ParseBool\<close>.\<close>

definition parse_bool :: "bytes \<Rightarrow> bool option" where
  "parse_bool s =
    (if s \<in> set (map lit [''1'', ''t'', ''T'', ''TRUE'', ''true'', ''True'']) then Some True
     else if s \<in> set (map lit [''0'', ''f'', ''F'', ''FALSE'', ''false'', ''False'']) then Some False
     else None)"

text \<open>The name of a flag ends before its first equals sign, which cannot come first.\<close>

definition split_value :: "bytes \<Rightarrow> bytes \<times> bytes option" where
  "split_value name =
    (case name of
       [] \<Rightarrow> ([], None)
     | c # cs \<Rightarrow> (c # takeWhile (\<lambda>b. b \<noteq> 61) cs,
         case dropWhile (\<lambda>b. b \<noteq> 61) cs of [] \<Rightarrow> None | _ # v \<Rightarrow> Some v))"

definition set_flag :: "bytes \<Rightarrow> bytes \<Rightarrow> cli_flags \<Rightarrow> cli_flags option" where
  "set_flag n v fl =
    (if n = lit ''m'' then Some (fl\<lparr>f_m := v\<rparr>) else if n = lit ''key'' then Some (fl\<lparr>f_key := v\<rparr>)
     else if n = lit ''d'' then Some (fl\<lparr>f_d := v\<rparr>) else None)"

text \<open>\<open>flag.Parse\<close>: the flags in front of the first argument that is none.\<close>

fun parse_flags :: "bytes list \<Rightarrow> cli_flags \<Rightarrow> flag_error + cli_flags \<times> bytes list" where
  "parse_flags [] fl = Inr (fl, [])"
| "parse_flags (s # args) fl =
    (if length s < 2 \<or> hd s \<noteq> 45 then Inr (fl, s # args)
     else if s = [45, 45] then Inr (fl, args)
     else
       let name = (if s ! 1 = 45 then drop 2 s else drop 1 s); (n, v) = split_value name
       in if name = [] \<or> hd name = 45 \<or> hd name = 61 then Inl (BadFlagSyntax s)
       else if n = lit ''v'' then
         (case v of
            None \<Rightarrow> parse_flags args (fl\<lparr>f_v := True\<rparr>)
          | Some b \<Rightarrow> (case parse_bool b of
              None \<Rightarrow> Inl (InvalidBool b n) | Some x \<Rightarrow> parse_flags args (fl\<lparr>f_v := x\<rparr>)))
       else if set_flag n [] fl = None then
         Inl (if n = lit ''help'' \<or> n = lit ''h'' then HelpWanted else FlagNotDefined n)
       else
         (case v of
            Some x \<Rightarrow> parse_flags args (the (set_flag n x fl))
          | None \<Rightarrow> (case args of
              [] \<Rightarrow> Inl (NeedsArgument n) | x # args' \<Rightarrow> parse_flags args' (the (set_flag n x fl)))))"

subsection \<open>The run\<close>

record cli_text =
  tx_usage :: bytes
  tx_upper :: "bytes \<Rightarrow> bytes"
  tx_flag :: "flag_error \<Rightarrow> bytes"
  tx_err :: "err \<Rightarrow> bytes"
  tx_elapsed :: bytes
  tx_panic :: bytes

record cli_result =
  cli_out :: bytes
  cli_err :: bytes
  cli_exit :: nat

text \<open>\<open>strings.ToLower\<close> on ASCII; no other character has a lower case letter of a method name.\<close>

definition to_lower :: "bytes \<Rightarrow> bytes" where
  "to_lower s = map (\<lambda>b. if 65 \<le> b \<and> b \<le> 90 then b + 32 else b) s"

definition line :: "bytes \<Rightarrow> bytes" where
  "line s = s @ [10]"

definition verbose_head :: "cli_text \<Rightarrow> cli_flags \<Rightarrow> bytes \<Rightarrow> bytes" where
  "verbose_head tx fl uri =
    (if f_v fl then
       line (lit ''[coap-cli] URI:    '' @ uri) @
       line (lit ''[coap-cli] Method: '' @ tx_upper tx (f_m fl)) @
       (if f_key fl \<noteq> [] then
          line (lit ''[coap-cli] Key:    set ('' @ decimal (length (f_key fl)) @ lit '' bytes)'') @
          line (lit ''[coap-cli] Scheme: coaps (encrypted)'')
        else line (lit ''[coap-cli] Scheme: coap (plaintext)'')) @
       line (lit ''[coap-cli] Sending request...'')
     else [])"

definition verbose_response :: "cli_text \<Rightarrow> Response \<Rightarrow> bytes" where
  "verbose_response tx resp =
    line (lit ''[coap-cli] Response in '' @ tx_elapsed tx) @
    line (lit ''[coap-cli] Code:   '' @ decimal (unat (RCode resp))) @
    line (lit ''[coap-cli] Body:   '' @ decimal (length (Body resp)) @ lit '' bytes'') @
    (if length (RPeerPublicKey resp) > 0 then line (lit ''[coap-cli] PeerKey: '' @ hex_bytes (RPeerPublicKey resp))
     else [])"

definition print_response :: "Response \<Rightarrow> bytes" where
  "print_response resp =
    line (lit ''Code: '' @ decimal (unat (RCode resp))) @
    (if length (Body resp) > 0 then line (lit ''Body: '' @ Body resp) else [])"

definition cli_request ::
    "cli_flags \<Rightarrow> bytes \<Rightarrow> Client \<Rightarrow> connpool \<Rightarrow> env \<Rightarrow> ((err + Response) option \<times> connpool \<times> env) option" where
  "cli_request fl uri c p e =
    (let method = to_lower (f_m fl)
     in if method = lit ''get'' then Some (Client_GET c uri [] p e)
        else if method = lit ''post'' \<or> method = lit ''put'' then Some (Client_POST c (f_d fl) uri [] p e)
        else if method = lit ''delete'' then Some (Client_DELETE c (f_d fl) uri [] p e)
        else None)"

text \<open>A run that never returns is \<open>None\<close>; a panic ends the process with exit code 2.\<close>

definition cli_run ::
    "cli_text \<Rightarrow> (Opt list \<Rightarrow> Client \<times> connpool) \<Rightarrow> cli_flags \<Rightarrow> bytes \<Rightarrow> env \<Rightarrow> cli_result option \<times> env" where
  "cli_run tx new fl uri e =
    (let (c, p) = new (if f_key fl \<noteq> [] then [WithPrivateKey (f_key fl)] else []);
         h = verbose_head tx fl uri
     in case cli_request fl uri c p e of
          None \<Rightarrow> (Some \<lparr>cli_out = [], cli_err = h @ line (lit ''Unknown method: '' @ f_m fl), cli_exit = 1\<rparr>, e)
        | Some (None, p, e) \<Rightarrow> (None, e)
        | Some (Some (Inl err), p, e) \<Rightarrow>
            (Some (if err = GoPanic then \<lparr>cli_out = [], cli_err = h @ tx_panic tx, cli_exit = 2\<rparr>
                   else \<lparr>cli_out = [], cli_err = h @
                      (if f_v fl then line (lit ''[coap-cli] Failed after '' @ tx_elapsed tx) else []) @
                      line (lit ''Error: '' @ tx_err tx err), cli_exit = 1\<rparr>), e)
        | Some (Some (Inr resp), p, e) \<Rightarrow>
            (Some \<lparr>cli_out = print_response resp,
               cli_err = h @ (if f_v fl then verbose_response tx resp else []), cli_exit = 0\<rparr>, e))"

definition cli_main ::
    "cli_text \<Rightarrow> (Opt list \<Rightarrow> Client \<times> connpool) \<Rightarrow> bytes list \<Rightarrow> env \<Rightarrow> cli_result option \<times> env" where
  "cli_main tx new args e =
    (case parse_flags args default_flags of
       Inl err \<Rightarrow> (Some (if err = HelpWanted then \<lparr>cli_out = [], cli_err = tx_usage tx, cli_exit = 0\<rparr>
          else \<lparr>cli_out = [], cli_err = line (tx_flag tx err) @ tx_usage tx, cli_exit = 2\<rparr>), e)
     | Inr (fl, []) \<Rightarrow> (Some \<lparr>cli_out = [], cli_err = tx_usage tx, cli_exit = 1\<rparr>, e)
     | Inr (fl, uri # rest) \<Rightarrow> cli_run tx new fl uri e)"

subsection \<open>Properties\<close>

declare parse_flags.simps(2) [simp del]

lemma parse_verbose: "parse_flags (lit ''-v'' # args) fl = parse_flags args (fl\<lparr>f_v := True\<rparr>)"
  by (simp add: parse_flags.simps(2) split_value_def lit_def)

text \<open>The verbose flag does not reach the other flags: parsing is the same but for it.\<close>

definition quiet :: "cli_flags \<Rightarrow> cli_flags" where
  "quiet fl = fl\<lparr>f_v := False\<rparr>"

lemma quiet_simps [simp]: "quiet (fl\<lparr>f_v := b\<rparr>) = quiet fl"
  by (simp add: quiet_def)

lemma quiet_set_flag:
  assumes "quiet fl = quiet fl'"
  shows "set_flag n v fl = None \<longleftrightarrow> set_flag n v fl' = None"
    and "set_flag n v fl \<noteq> None \<Longrightarrow> quiet (the (set_flag n v fl)) = quiet (the (set_flag n v fl'))"
  using assms by (cases fl; cases fl'; auto simp: set_flag_def quiet_def)+

definition same_parse :: "flag_error + cli_flags \<times> bytes list \<Rightarrow> flag_error + cli_flags \<times> bytes list \<Rightarrow> bool" where
  "same_parse r r' \<longleftrightarrow> map_sum id (map_prod quiet id) r = map_sum id (map_prod quiet id) r'"

lemma parse_flags_quiet:
  assumes "quiet fl = quiet fl'"
  shows "same_parse (parse_flags args fl) (parse_flags args fl')"
  using assms
proof (induction "length args" arbitrary: args fl fl' rule: less_induct)
  case less
  show ?case
  proof (cases args)
    case Nil
    then show ?thesis using less.prems by (simp add: same_parse_def)
  next
    case (Cons s rest)
    have ih: "same_parse (parse_flags as f) (parse_flags as f')" if "length as < length args" "quiet f = quiet f'" for as f f'
      using less.hyps [OF that] .
    have set1: "same_parse (parse_flags as (the (set_flag n v fl))) (parse_flags as (the (set_flag n v fl')))"
      if "length as \<le> length rest" "set_flag n [] fl \<noteq> None" for as n v
      using that by (intro ih quiet_set_flag(2) less.prems) (auto simp: Cons set_flag_def split: if_splits)
    have eqs: "same_parse (Inl x) (Inl x)" "same_parse (Inr (fl, as)) (Inr (fl', as))" for x as
      using less.prems by (simp_all add: same_parse_def)
    let ?name = "if s ! 1 = 45 then drop 2 s else drop 1 s"
    obtain n v where nv: "split_value ?name = (n, v)" by fastforce
    note eq = parse_flags.simps(2) [of s rest, unfolded nv Let_def prod.case, folded Cons]
    show ?thesis
    proof (cases "(length s < 2 \<or> hd s \<noteq> 45) \<or> s = [45, 45] \<or> ?name = [] \<or> hd ?name = 45 \<or> hd ?name = 61")
      case True
      then show ?thesis by (elim disjE) (simp_all add: eq eqs)
    next
      case False
      show ?thesis
      proof (cases "n = lit ''v''")
        case True
        have "same_parse (parse_flags rest (fl\<lparr>f_v := b\<rparr>)) (parse_flags rest (fl'\<lparr>f_v := b\<rparr>))" for b
          by (rule ih) (simp_all add: Cons less.prems)
        then show ?thesis using False True
          by (cases v) (simp_all add: eq eqs split: option.split)
      next
        case n: False
        show ?thesis
        proof (cases "set_flag n [] fl = None")
          case True
          then show ?thesis using False n quiet_set_flag(1) [OF less.prems] by (simp add: eq eqs)
        next
          case set: False
          then obtain y y' where "set_flag n [] fl = Some y" "set_flag n [] fl' = Some y'"
            using quiet_set_flag(1) [OF less.prems] by (metis not_Some_eq)
          then show ?thesis using False n set1 [OF _ set]
            by (cases v) (simp_all add: eq eqs split: list.split)
        qed
      qed
    qed
  qed
qed

text \<open>C40: The verbose flag only adds diagnostics. Whatever the command line, putting \<open>-v\<close> in front of
  it leaves the requests that are made, the standard output and the exit code as they are,
  and whether the run returns; only the error output may differ.\<close>

theorem verbose_only_diagnoses:
  "snd (cli_main tx new (lit ''-v'' # args) e) = snd (cli_main tx new args e) \<and>
   map_option cli_out (fst (cli_main tx new (lit ''-v'' # args) e)) = map_option cli_out (fst (cli_main tx new args e)) \<and>
   map_option cli_exit (fst (cli_main tx new (lit ''-v'' # args) e)) = map_option cli_exit (fst (cli_main tx new args e))"
proof -
  have run: "snd (cli_run tx new fl uri e) = snd (cli_run tx new fl' uri e) \<and>
      map_option cli_out (fst (cli_run tx new fl uri e)) = map_option cli_out (fst (cli_run tx new fl' uri e)) \<and>
      map_option cli_exit (fst (cli_run tx new fl uri e)) = map_option cli_exit (fst (cli_run tx new fl' uri e))"
    if "quiet fl = quiet fl'" for fl fl' uri
  proof -
    have flags: "f_m fl = f_m fl'" "f_key fl = f_key fl'" "f_d fl = f_d fl'"
      using that by (cases fl; cases fl'; simp add: quiet_def)+
    have same: "cli_request fl = cli_request fl'" "f_key fl = f_key fl'"
      unfolding cli_request_def flags by simp_all
    obtain c p0 where c: "new (if f_key fl' \<noteq> [] then [WithPrivateKey (f_key fl')] else []) = (c, p0)" by fastforce
    show ?thesis
      unfolding cli_run_def same c Let_def prod.case by (simp split: option.split sum.split prod.split)
  qed
  have "parse_flags (lit ''-v'' # args) default_flags = parse_flags args (default_flags\<lparr>f_v := True\<rparr>)"
    by (rule parse_verbose)
  then have "same_parse (parse_flags (lit ''-v'' # args) default_flags) (parse_flags args default_flags)"
    using parse_flags_quiet [of "default_flags\<lparr>f_v := True\<rparr>" default_flags args] by simp
  then consider x where "parse_flags (lit ''-v'' # args) default_flags = Inl x" "parse_flags args default_flags = Inl x"
    | fl fl' as where "parse_flags (lit ''-v'' # args) default_flags = Inr (fl, as)"
        "parse_flags args default_flags = Inr (fl', as)" "quiet fl = quiet fl'"
    by (cases "parse_flags (lit ''-v'' # args) default_flags"; cases "parse_flags args default_flags")
      (auto simp: same_parse_def)
  then show ?thesis
  proof cases
    case 1
    then show ?thesis by (simp add: cli_main_def)
  next
    case 2
    then show ?thesis using run [OF 2(3)] by (cases as) (simp_all add: cli_main_def)
  qed
qed

end
