(* ===== verification/Tcp_Framing.thy ===== *)
theory Tcp_Framing
  imports Coap_Wire
begin

text \<open>
  The length-prefixed frames of \<open>connections_tcp.go\<close>. A reader is the list of bytes it will
  still deliver before end of file; \<open>io.ReadFull\<close> returns \<open>EOF\<close> when none is left and
  \<open>ErrUnexpectedEOF\<close> when there are too few.
\<close>

subsection \<open>Readers\<close>

definition ReadFull :: "nat \<Rightarrow> bytes \<Rightarrow> (err + bytes) \<times> bytes" where
  "ReadFull n r =
    (if n \<le> length r then (Inr (take n r), drop n r)
     else if r = [] then (Inl ErrEOF, []) else (Inl ErrUnexpectedEOF, []))"

subsection \<open>Frames\<close>

definition encodeLength :: "int \<Rightarrow> bytes" where
  "encodeLength l =
    (if l \<le> 12 then [word_of_int l]
     else if l \<le> 255 + 13 then [13, word_of_int (l - 13)]
     else if l \<le> 65535 + 269 then 14 # put_be16 (word_of_int (l - 269))
     else 15 # put_be32 (word_of_int (l - 65805)))"

definition decodeLength :: "bytes \<Rightarrow> (err + int) \<times> bytes" where
  "decodeLength r =
    (case ReadFull 1 r of
       (Inl err, r) \<Rightarrow> (Inl err, r)
     | (Inr first, r) \<Rightarrow>
         let l = uint (hd first AND 15)
         in if l = 13 then
              (case ReadFull 1 r of
                 (Inl err, r) \<Rightarrow> (Inl err, r)
               | (Inr b, r) \<Rightarrow> (Inr (uint (b ! 0) + 13), r))
            else if l = 14 then
              (case ReadFull 2 r of
                 (Inl err, r) \<Rightarrow> (Inl err, r)
               | (Inr b, r) \<Rightarrow> (Inr (uint (get_be16 (b ! 0) (b ! 1)) + 269), r))
            else if l = 15 then
              (case ReadFull 4 r of
                 (Inl err, r) \<Rightarrow> (Inl err, r)
               | (Inr b, r) \<Rightarrow> (Inr (uint (get_be32 (b ! 0) (b ! 1) (b ! 2) (b ! 3)) + 65805), r))
            else (Inr l, r))"

text \<open>\<open>cap\<close> is the length of the buffer; the result is the part of it that was filled. A frame that is too long
  leaves its body in the stream.\<close>

definition ReadTcpFrame :: "nat \<Rightarrow> bytes \<Rightarrow> (err + bytes) \<times> bytes" where
  "ReadTcpFrame cap r =
    (case decodeLength r of
       (Inl err, r) \<Rightarrow> (Inl err, r)
     | (Inr l, r) \<Rightarrow> if l > int cap then (Inl ErrShortBuffer, r) else ReadFull (nat l) r)"

text \<open>\<open>w n b\<close> is what the \<open>n\<close>-th call of \<open>Write\<close> returns for the bytes \<open>b\<close>. The second component lists
  the calls.\<close>

definition WriteTcpFrame ::
    "(nat \<Rightarrow> bytes \<Rightarrow> int \<times> err option) \<Rightarrow> bytes \<Rightarrow> (int \<times> err option) \<times> bytes list" where
  "WriteTcpFrame w data =
    (let prefix = encodeLength (int (length data))
     in case w 0 prefix of
          (n1, Some err) \<Rightarrow> ((n1, Some err), [prefix])
        | (n1, None) \<Rightarrow> (case w 1 data of (n2, err) \<Rightarrow> ((n1 + n2, err), [prefix, data])))"

definition tcp_frame :: "bytes \<Rightarrow> bytes" where
  "tcp_frame data = encodeLength (int (length data)) @ data"

text \<open>A working connection takes every write whole.\<close>

lemma WriteTcpFrame_ok:
  assumes "\<And>n b. w n b = (int (length b), None)"
  shows "fst (WriteTcpFrame w data) = (int (length (tcp_frame data)), None)"
    and "concat (snd (WriteTcpFrame w data)) = tcp_frame data"
  by (simp_all add: WriteTcpFrame_def tcp_frame_def Let_def assms)

subsection \<open>Lemmas\<close>

lemma ReadFull_append: "ReadFull (length d) (d @ r) = (Inr d, r)"
  by (simp add: ReadFull_def)

lemma ReadFull_n: "length d = n \<Longrightarrow> ReadFull n (d @ r) = (Inr d, r)"
  using ReadFull_append by metis

lemma uint_small: "0 \<le> l \<Longrightarrow> l < 2 ^ LENGTH('a) \<Longrightarrow> uint (word_of_int l :: 'a :: len word) = l"
  by (simp add: uint_word_of_int_eq take_bit_int_eq_self)

lemma nibble: "0 \<le> l \<Longrightarrow> l < 16 \<Longrightarrow> uint ((word_of_int l :: byte) AND 15) = l"
proof -
  assume l: "0 \<le> l" "l < 16"
  have "uint ((word_of_int l :: byte) AND 15) = uint (word_of_int l :: byte) AND 15" by (simp add: uint_and)
  also have "\<dots> = l AND mask 4" using uint_small [where 'a = 8, of l] l by (simp add: mask_numeral)
  also have "\<dots> = l" using l by (simp add: take_bit_int_eq_self flip: take_bit_eq_mask)
  finally show ?thesis .
qed

lemma decodeLength_encodeLength:
  assumes "0 \<le> l" "l < 2 ^ 32 + 65805"
  shows "decodeLength (encodeLength l @ r) = (Inr l, r)"
proof -
  have r: "ReadFull 1 (b # xs) = (Inr [b], xs)" for b xs using ReadFull_n [of "[b]" 1 xs] by simp
  consider "l \<le> 12" | "12 < l" "l \<le> 268" | "268 < l" "l \<le> 65804" | "65804 < l" by linarith
  then show ?thesis
  proof cases
    case 1
    then show ?thesis
      using assms nibble [of l] r by (simp add: decodeLength_def encodeLength_def)
  next
    case 2
    then show ?thesis
      using r uint_small [where 'a = 8, of "l - 13"] by (simp add: decodeLength_def encodeLength_def)
  next
    case 3
    then show ?thesis
      using r ReadFull_n [of "put_be16 (word_of_int (l - 269))" 2 r] uint_small [where 'a = 16, of "l - 269"]
      by (simp add: decodeLength_def encodeLength_def put_be16_def)
  next
    case 4
    then show ?thesis
      using assms r ReadFull_n [of "put_be32 (word_of_int (l - 65805))" 4 r] uint_small [where 'a = 32, of "l - 65805"]
      by (simp add: decodeLength_def encodeLength_def put_be32_def)
  qed
qed

lemma ReadTcpFrame_frame:
  assumes "length d \<le> cap" "length d < 2 ^ 32 + 65805"
  shows "ReadTcpFrame cap (tcp_frame d @ r) = (Inr d, r)"
proof -
  have "int (length d) < 2 ^ 32 + 65805" using assms(2) by simp
  from decodeLength_encodeLength [OF _ this, of "d @ r"] show ?thesis
    using assms(1) by (simp add: ReadTcpFrame_def tcp_frame_def ReadFull_append)
qed

lemma ReadFull_length: "ReadFull n r = (x, r') \<Longrightarrow> length r' \<le> length r"
  by (auto simp: ReadFull_def split: if_splits)

lemma decodeLength_length: "decodeLength r = (Inr l, r') \<Longrightarrow> length r' < length r"
  by (auto simp: decodeLength_def Let_def ReadFull_def split: prod.splits sum.splits if_splits)

lemma ReadTcpFrame_length:
  assumes "ReadTcpFrame cap r = (Inr d, r')"
  shows "length r' < length r"
proof -
  obtain l r1 where l: "decodeLength r = (Inr l, r1)"
    using assms by (cases "decodeLength r"; cases "fst (decodeLength r)") (auto simp: ReadTcpFrame_def)
  then have "ReadFull (nat l) r1 = (Inr d, r')"
    using assms by (simp add: ReadTcpFrame_def split: if_splits)
  from ReadFull_length [OF this] decodeLength_length [OF l] show ?thesis by simp
qed

text \<open>The read loop of a TCP connection: frames up to the first error.\<close>

function read_frames :: "nat \<Rightarrow> bytes \<Rightarrow> bytes list \<times> err" where
  "read_frames cap r =
    (case ReadTcpFrame cap r of
       (Inl err, r') \<Rightarrow> ([], err)
     | (Inr d, r') \<Rightarrow> (case read_frames cap r' of (ds, err) \<Rightarrow> (d # ds, err)))"
  by pat_completeness auto

termination
  by (relation "measure (\<lambda>(cap, r). length r)") (auto dest: ReadTcpFrame_length [OF sym])

declare read_frames.simps [simp del]

text \<open>A frame cut short is never taken for a shorter one.\<close>

lemma ReadFull_prefix: "n < k \<Longrightarrow> k \<le> length d \<Longrightarrow> ReadFull k (take n d) = (Inl (if take n d = [] then ErrEOF else ErrUnexpectedEOF), [])"
  by (auto simp: ReadFull_def)

lemma length_encodeLength: "length (encodeLength l) \<in> {1, 2, 3, 5}"
  by (simp add: encodeLength_def)

lemma decodeLength_truncated:
  assumes "0 \<le> l" "n < length (encodeLength l)"
  shows "\<exists>err. decodeLength (take n (encodeLength l)) = (Inl err, []) \<and> err \<in> {ErrEOF, ErrUnexpectedEOF}"
proof (cases n)
  case 0
  then show ?thesis by (simp add: decodeLength_def ReadFull_def)
next
  case (Suc k)
  have r: "ReadFull 1 (b # xs) = (Inr [b], xs)" for b xs using ReadFull_n [of "[b]" 1 xs] by simp
  consider "l \<le> 12" | "12 < l" "l \<le> 268" | "268 < l" "l \<le> 65804" | "65804 < l" by linarith
  then show ?thesis
    using assms(2) Suc r
    by cases (auto simp: decodeLength_def encodeLength_def put_be16_def put_be32_def ReadFull_def)
qed

lemma ReadTcpFrame_truncated:
  assumes "n < length (tcp_frame d)" "length d < 2 ^ 32 + 65805" "length d \<le> cap"
  shows "\<exists>err. ReadTcpFrame cap (take n (tcp_frame d)) = (Inl err, []) \<and> err \<in> {ErrEOF, ErrUnexpectedEOF}"
proof -
  let ?p = "encodeLength (int (length d))"
  show ?thesis
  proof (cases "n < length ?p")
    case True
    then have "take n (tcp_frame d) = take n ?p" by (simp add: tcp_frame_def)
    with decodeLength_truncated [of "int (length d)" n] True show ?thesis
      by (auto simp: ReadTcpFrame_def)
  next
    case False
    then have t: "take n (tcp_frame d) = ?p @ take (n - length ?p) d" by (simp add: tcp_frame_def)
    have "int (length d) < 2 ^ 32 + 65805" using assms(2) by simp
    from decodeLength_encodeLength [OF _ this, of "take (n - length ?p) d"]
    show ?thesis
      using assms(1,3) False unfolding t by (auto simp: ReadTcpFrame_def ReadFull_def tcp_frame_def)
  qed
qed

lemma read_frames_append:
  assumes "list_all (\<lambda>d. length d \<le> cap \<and> length d < 2 ^ 32 + 65805) ds"
  shows "read_frames cap (concat (map tcp_frame ds) @ r) = (case read_frames cap r of (ds', err) \<Rightarrow> (ds @ ds', err))"
  using assms
proof (induction ds)
  case (Cons d ds)
  then show ?case
    using ReadTcpFrame_frame [of d cap "concat (map tcp_frame ds) @ r"]
    by (subst read_frames.simps) (simp split: prod.split)
qed simp

subsection \<open>Properties\<close>

text \<open>C29: Datagrams survive a TCP stream: what is written frame by frame is read back datagram by
  datagram in order, as long as each fits the buffer, and a stream that ends within a frame
  ends with an end-of-file error after the complete ones, never with a made-up datagram.\<close>

theorem tcp_stream_roundtrip:
  assumes "list_all (\<lambda>d. length d \<le> cap \<and> length d < 2 ^ 32 + 65805) (ds @ [d])" "n < length (tcp_frame d)"
  shows "\<exists>err. read_frames cap (concat (map tcp_frame ds) @ take n (tcp_frame d)) = (ds, err) \<and>
    err \<in> {ErrEOF, ErrUnexpectedEOF}"
proof -
  obtain err where "ReadTcpFrame cap (take n (tcp_frame d)) = (Inl err, [])" "err \<in> {ErrEOF, ErrUnexpectedEOF}"
    using ReadTcpFrame_truncated [OF assms(2), of cap] assms(1) by auto
  then have "read_frames cap (take n (tcp_frame d)) = ([], err)" "err \<in> {ErrEOF, ErrUnexpectedEOF}"
    by (simp_all add: read_frames.simps [of cap "take n (tcp_frame d)"])
  then show ?thesis
    using read_frames_append [of cap ds "take n (tcp_frame d)"] assms(1) by simp
qed

theorem tcp_stream_roundtrip_witness:
  "\<exists>err. read_frames 1500 (tcp_frame [1, 2] @ tcp_frame (replicate 300 7) @ take 4 (tcp_frame (replicate 20 9)))
     = ([[1, 2], replicate 300 7], err)"
proof -
  have "length (tcp_frame (replicate 20 9)) = 22" by (simp add: tcp_frame_def encodeLength_def)
  with tcp_stream_roundtrip [of 1500 "[[1, 2], replicate 300 7]" "replicate 20 9" 4] show ?thesis by auto
qed

text \<open>A frame longer than the buffer is refused before any of its body is read: the length, up to
  2^32 + 65804, is compared with the buffer, and no more than the prefix has been consumed.\<close>

theorem tcp_short_buffer:
  assumes "cap < length d" "length d < 2 ^ 32 + 65805"
  shows "ReadTcpFrame cap (tcp_frame d @ r) = (Inl ErrShortBuffer, d @ r) \<and>
    length (encodeLength (int (length d))) \<le> 5"
proof -
  have "int (length d) < 2 ^ 32 + 65805" using assms(2) by simp
  from decodeLength_encodeLength [OF _ this, of "d @ r"] show ?thesis
    using assms(1) length_encodeLength [of "int (length d)"] by (auto simp: ReadTcpFrame_def tcp_frame_def)
qed

theorem tcp_short_buffer_witness:
  "ReadTcpFrame 4 (tcp_frame [1, 2, 3, 4, 5] @ [9]) = (Inl ErrShortBuffer, [1, 2, 3, 4, 5, 9])"
  using tcp_short_buffer [of 4 "[1, 2, 3, 4, 5]" "[9]"] by simp

end
