(* ===== verification/Connections.thy ===== *)
theory Connections
  imports Client_Send Tcp_Framing "HOL-Library.Signed_Division"
begin

text \<open>
  The connections behind the interface \<open>Transport\<close> (\<open>connections.go\<close>, \<open>connections_tcp.go\<close>):
  the UDP connection with its cache of resolved addresses and its receive buffer, the TCP
  connection, and the wrapper of a TCP listener. Dialling with the pool is in
  \<open>Client_Send\<close>, the framing of TCP in \<open>Tcp_Framing\<close>.
\<close>

subsection \<open>Resolved addresses\<close>

text \<open>
  \<open>resolveUDPAddrCached\<close>, over the operations of a store with expiry: \<open>now\<close> is the time of the
  lookup and \<open>now'\<close> that of the insertion, \<open>resolve\<close> is what \<open>net.ResolveUDPAddr\<close> answers.
\<close>

definition cached_lookup ::
    "(bytes \<Rightarrow> int \<Rightarrow> 's \<Rightarrow> 'v option \<times> 's) \<Rightarrow> (bytes \<Rightarrow> 'v \<Rightarrow> int \<Rightarrow> 's \<Rightarrow> 's)
      \<Rightarrow> bytes \<Rightarrow> err + 'v \<Rightarrow> int \<Rightarrow> int \<Rightarrow> 's \<Rightarrow> (err + 'v) \<times> 's" where
  "cached_lookup sget sset addr resolved now now' st =
    (case sget addr now st of
       (Some v, st) \<Rightarrow> (Inr v, st)
     | (None, st) \<Rightarrow> (case resolved of
         Inl err \<Rightarrow> (Inl err, st)
       | Inr a \<Rightarrow> (Inr a, sset addr a now' st)))"

definition resolveUDPAddrCached ::
    "bytes \<Rightarrow> err + bytes \<Rightarrow> int \<Rightarrow> int \<Rightarrow> bytes shardedCache \<Rightarrow> (err + bytes) \<times> bytes shardedCache" where
  "resolveUDPAddrCached = cached_lookup Cache_Get Cache_Set"

definition resolvedAddrs :: "bytes shardedCache" where
  "resolvedAddrs = newShardedCache SESSIONS_POOL_EXPIRATION"

text \<open>A run of lookups: the name, the two times, and what the resolver would answer then.\<close>

record 'v lookup =
  lk_name :: bytes
  lk_now :: int
  lk_set :: int
  lk_answer :: "err + 'v"

fun lookups ::
    "(bytes \<Rightarrow> int \<Rightarrow> 's \<Rightarrow> 'v option \<times> 's) \<Rightarrow> (bytes \<Rightarrow> 'v \<Rightarrow> int \<Rightarrow> 's \<Rightarrow> 's)
      \<Rightarrow> 'v lookup list \<Rightarrow> 's \<Rightarrow> (err + 'v) list" where
  "lookups sget sset [] st = []"
| "lookups sget sset (l # ls) st =
     (let (r, st) = cached_lookup sget sset (lk_name l) (lk_answer l) (lk_now l) (lk_set l) st
      in r # lookups sget sset ls st)"

definition in_order :: "'v lookup list \<Rightarrow> bool" where
  "in_order ls \<longleftrightarrow> sorted (concat (map (\<lambda>l. [lk_now l, lk_set l]) ls))"

lemma in_order_simps [simp]:
  "in_order []"
  "in_order (l # ls) \<longleftrightarrow> lk_now l \<le> lk_set l \<and> (\<forall>x \<in> set ls. lk_set l \<le> lk_now x \<and> lk_set l \<le> lk_set x) \<and> in_order ls"
  by (auto simp: in_order_def)

text \<open>Where an answer may come from: the resolver itself, now or at most \<open>life\<close> ago.\<close>

definition fresh_answer :: "int \<Rightarrow> 'v lookup set \<Rightarrow> 'v lookup \<Rightarrow> err + 'v \<Rightarrow> bool" where
  "fresh_answer life past l r \<longleftrightarrow> r = lk_answer l \<or>
    (\<exists>p \<in> past. \<exists>a. lk_name p = lk_name l \<and> lk_answer p = Inr a \<and> r = Inr a \<and> lk_now l \<le> lk_set p + life)"

context ttl_store
begin

text \<open>Whatever the store still knows at or after \<open>t\<close> is an earlier answer for that name.\<close>

definition remembers :: "'v lookup set \<Rightarrow> int \<Rightarrow> 's \<Rightarrow> bool" where
  "remembers past t s \<longleftrightarrow> (\<forall>k t' v. t \<le> t' \<longrightarrow> fst (sget k t' s) = Some v \<longrightarrow>
    (\<exists>p \<in> past. lk_name p = k \<and> lk_answer p = Inr v \<and> t' \<le> lk_set p + life s))"

lemma remembers_lookup:
  assumes "sok s" "remembers past t s" "t \<le> lk_now l" "lk_now l \<le> lk_set l"
    and "cached_lookup sget sset (lk_name l) (lk_answer l) (lk_now l) (lk_set l) s = (r, s')"
  shows "fresh_answer (life s) past l r \<and> sok s' \<and> life s' = life s \<and> remembers (insert l past) (lk_set l) s'"
proof -
  obtain v s1 where g: "sget (lk_name l) (lk_now l) s = (v, s1)" by fastforce
  have s1: "sok s1" "life s1 = life s"
    using sok_get [OF assms(1), of "lk_name l" "lk_now l"] life_get [of "lk_name l" "lk_now l" s] g by simp_all
  have "fst (sget k t' s1) = fst (sget k t' s)" if "lk_now l \<le> t'" for k t'
    using get_get [OF assms(1) that, of k "lk_name l"] g by simp
  then have r1: "remembers past (lk_set l) s1"
    using assms(2-4) s1(2) unfolding remembers_def by (metis order_trans)
  show ?thesis
  proof (cases v)
    case (Some a)
    then have "r = Inr a" "s' = s1" using assms(5) g by (simp_all add: cached_lookup_def)
    moreover have "\<exists>p \<in> past. lk_name p = lk_name l \<and> lk_answer p = Inr a \<and> lk_now l \<le> lk_set p + life s"
      using assms(2,3) g Some by (auto simp: remembers_def)
    ultimately show ?thesis using s1 r1 by (auto simp: fresh_answer_def remembers_def)
  next
    case None
    show ?thesis
    proof (cases "lk_answer l")
      case (Inl err)
      then have "r = Inl err" "s' = s1" using assms(5) g None by (simp_all add: cached_lookup_def)
      then show ?thesis using s1 r1 Inl by (auto simp: fresh_answer_def remembers_def)
    next
      case (Inr a)
      then have r: "r = Inr a" "s' = sset (lk_name l) a (lk_set l) s1"
        using assms(5) g None by (simp_all add: cached_lookup_def)
      have "fst (sget k t' s') = (if k = lk_name l then (if t' \<le> lk_set l + life s then Some a else None)
          else fst (sget k t' s1))" for k t'
        using r(2) s1 get_set [OF s1(1)] get_set_other [OF s1(1), of k "lk_name l"] by simp
      then have "remembers (insert l past) (lk_set l) s'"
        using r1 Inr s1(2) life_set r(2) by (auto simp: remembers_def split: if_splits)
      then show ?thesis using r Inr s1 sok_set life_set by (simp add: fresh_answer_def)
    qed
  qed
qed

lemma lookups_fresh:
  assumes "sok s" "remembers past t s" "in_order ls" "\<forall>l \<in> set ls. t \<le> lk_now l" "i < length ls"
  shows "fresh_answer (life s) (past \<union> set (take i ls)) (ls ! i) (lookups sget sset ls s ! i)"
  using assms
proof (induction ls arbitrary: s past t i)
  case Nil
  then show ?case by simp
next
  case (Cons l ls)
  obtain r s' where c: "cached_lookup sget sset (lk_name l) (lk_answer l) (lk_now l) (lk_set l) s = (r, s')" by fastforce
  from remembers_lookup [OF Cons.prems(1,2) _ _ c] Cons.prems(3,4)
  have 1: "fresh_answer (life s) past l r" "sok s'" "life s' = life s" "remembers (insert l past) (lk_set l) s'"
    by simp_all
  show ?case
  proof (cases i)
    case 0
    then show ?thesis using 1(1) c by simp
  next
    case (Suc j)
    have "fresh_answer (life s') (insert l past \<union> set (take j ls)) (ls ! j) (lookups sget sset ls s' ! j)"
      using Cons.IH [OF 1(2,4)] Cons.prems(3,5) Suc by simp
    then show ?thesis using 1(3) c Suc by simp
  qed
qed

end

fun resolve_all :: "bytes lookup list \<Rightarrow> bytes shardedCache \<Rightarrow> (err + bytes) list" where
  "resolve_all [] st = []"
| "resolve_all (l # ls) st =
     (let (r, st) = resolveUDPAddrCached (lk_name l) (lk_answer l) (lk_now l) (lk_set l) st in r # resolve_all ls st)"

lemma resolve_all_lookups: "resolve_all ls st = lookups Cache_Get Cache_Set ls st"
  by (induction ls arbitrary: st) (simp_all add: resolveUDPAddrCached_def split: prod.split)

subsection \<open>The UDP connection\<close>

text \<open>
  \<open>end_tokens\<close> counts the tokens in the channel \<open>end\<close> of a connection that has a channel of its
  own; the operating system's part is a parameter of the operations that call it.
\<close>

record connection =
  conn_local :: bytes
  conn_remote :: "bytes option"
  end_tokens :: "nat option"
  read_deadline :: "int option"

text \<open>\<open>SetUDPRecvBuf\<close> halves the size until the kernel accepts it; \<open>None\<close>: it never does.\<close>

partial_function (option) SetUDPRecvBuf :: "(int \<Rightarrow> bool) \<Rightarrow> int \<Rightarrow> int option" where
  "SetUDPRecvBuf accepts sz = (if accepts sz then Some sz else SetUDPRecvBuf accepts (sz sdiv 2))"

definition SetReadDeadline :: "int \<Rightarrow> connection \<Rightarrow> connection" where
  "SetReadDeadline now c = c\<lparr>read_deadline := Some (now + timeWait)\<rparr>"

definition SetReadDeadlineSec :: "int \<Rightarrow> int \<Rightarrow> connection \<Rightarrow> connection" where
  "SetReadDeadlineSec timeout now c = c\<lparr>read_deadline := Some (now + timeout)\<rparr>"

definition WriteTo ::
    "(bytes \<Rightarrow> bytes \<Rightarrow> int \<times> err option) \<Rightarrow> bytes \<Rightarrow> bytes \<Rightarrow> err + bytes \<Rightarrow> int \<Rightarrow> int \<Rightarrow> bytes shardedCache
      \<Rightarrow> (int \<times> err option) \<times> bytes shardedCache" where
  "WriteTo write bs addr resolved now now' st =
    (case resolveUDPAddrCached addr resolved now now' st of
       (Inl err, st) \<Rightarrow> ((0, Some err), st)
     | (Inr a, st) \<Rightarrow> (write a bs, st))"

definition newListener :: "(bytes \<Rightarrow> err + bytes) \<Rightarrow> bytes \<Rightarrow> err + connection" where
  "newListener listen addr =
    (case listen addr of
       Inl err \<Rightarrow> Inl err
     | Inr a \<Rightarrow> Inr \<lparr>conn_local = a, conn_remote = None, end_tokens = Some 0, read_deadline = None\<rparr>)"

text \<open>\<open>NewTransport\<close>: a dialled connection, over UDP with a channel for its one token.\<close>

datatype dialled_transport = UDP connection | TCP dialed

definition NewTransport :: "(bytes \<Rightarrow> err + dialed) \<Rightarrow> bytes \<Rightarrow> bool \<Rightarrow> err + dialled_transport" where
  "NewTransport net addr tcp =
    (if tcp then map_sum id TCP (newDialerTCP net addr)
     else case net addr of
       Inl err \<Rightarrow> Inl err
     | Inr d \<Rightarrow> Inr (UDP \<lparr>conn_local = d_local d, conn_remote = Some (d_remote d), end_tokens = Some 1,
         read_deadline = None\<rparr>))"

subsection \<open>The wrapper of a TCP listener\<close>

text \<open>
  What \<open>AcceptTCP\<close> returns is the list \<open>pending\<close>: an error, or a connection with its remote address
  and the bytes it delivers before end of file. \<open>opened\<close> are the accepted connections that
  are open.
\<close>

record tcpListenerWrapper =
  pending :: "(err + bytes \<times> bytes) list"
  opened :: "bytes list"

definition accept_tcp :: "tcpListenerWrapper \<Rightarrow> (err + bytes \<times> bytes) option \<times> tcpListenerWrapper" where
  "accept_tcp l = (case pending l of
      [] \<Rightarrow> (None, l)
    | Inl err # ps \<Rightarrow> (Some (Inl err), l\<lparr>pending := ps\<rparr>)
    | Inr (a, d) # ps \<Rightarrow> (Some (Inr (a, d)), l\<lparr>pending := ps, opened := a # opened l\<rparr>))"

definition wrapper_Read :: "nat \<Rightarrow> tcpListenerWrapper \<Rightarrow> (err + bytes) option \<times> tcpListenerWrapper" where
  "wrapper_Read cap l = (case accept_tcp l of
      (None, l) \<Rightarrow> (None, l)
    | (Some (Inl err), l) \<Rightarrow> (Some (Inl err), l)
    | (Some (Inr (a, d)), l) \<Rightarrow> (Some (fst (ReadTcpFrame cap d)), l\<lparr>opened := remove1 a (opened l)\<rparr>))"

definition wrapper_Listen ::
    "nat \<Rightarrow> tcpListenerWrapper \<Rightarrow> ((err + bytes) \<times> bytes option) option \<times> tcpListenerWrapper" where
  "wrapper_Listen cap l = (case accept_tcp l of
      (None, l) \<Rightarrow> (None, l)
    | (Some (Inl err), l) \<Rightarrow> (Some (Inl err, None), l)
    | (Some (Inr (a, d)), l) \<Rightarrow> (Some (fst (ReadTcpFrame cap d), Some a), l))"

definition wrapper_Write :: "bytes \<Rightarrow> int \<times> err option" where
  "wrapper_Write bs = (0, Some ErrNotImplemented)"

definition wrapper_WriteTo :: "bytes \<Rightarrow> bytes \<Rightarrow> int \<times> err option" where
  "wrapper_WriteTo bs addr = (0, Some ErrNotImplemented)"

text \<open>\<open>Read\<close> closes the connection it accepted, \<open>Listen\<close> leaves it open, and no caller can reach it.\<close>

lemma Read_closes: "opened (snd (wrapper_Read cap l)) = opened l"
  by (auto simp: wrapper_Read_def accept_tcp_def split: list.split sum.split prod.split)

lemma Listen_leaks:
  "pending l = Inr (a, d) # ps \<Longrightarrow> opened (snd (wrapper_Listen cap l)) = a # opened l"
  by (simp add: wrapper_Listen_def accept_tcp_def)

subsection \<open>Properties\<close>

lemma sdiv_half: "0 \<le> (x::int) \<Longrightarrow> x sdiv 2 = x div 2"
  by (cases "x = 0") (simp_all add: signed_divide_int_def)

lemma halves: "((x::int) div 2) div 2 ^ n = x div 2 ^ Suc n"
  by (simp add: zdiv_zmult2_eq)

lemma recv_buf_finds:
  "\<forall>k < n. \<not> accepts (sz div 2 ^ k) \<Longrightarrow> accepts (sz div 2 ^ n) \<Longrightarrow> 0 \<le> sz \<Longrightarrow>
   SetUDPRecvBuf accepts sz = Some (sz div 2 ^ n)"
proof (induction n arbitrary: sz)
  case 0
  then show ?case by (simp add: SetUDPRecvBuf.simps)
next
  case (Suc n)
  have "\<not> accepts sz" using Suc.prems(1) [rule_format, of 0] by simp
  moreover have "\<forall>k < n. \<not> accepts (sz div 2 div 2 ^ k)"
    using Suc.prems(1) unfolding halves by auto
  ultimately show ?case
    using Suc.IH [of "sz div 2"] Suc.prems(2,3) unfolding halves
    by (subst SetUDPRecvBuf.simps) (simp add: sdiv_half)
qed

lemma recv_buf_returns:
  assumes "SetUDPRecvBuf accepts sz = Some r"
  shows "0 \<le> sz \<longrightarrow> (\<exists>n. r = sz div 2 ^ n \<and> accepts r)"
proof (rule SetUDPRecvBuf.raw_induct [OF _ assms])
  fix f :: "(int \<Rightarrow> bool) \<Rightarrow> int \<Rightarrow> int option" and acc :: "int \<Rightarrow> bool" and z y :: int
  assume ih: "\<And>acc z y. f acc z = Some y \<Longrightarrow> 0 \<le> z \<longrightarrow> (\<exists>n. y = z div 2 ^ n \<and> acc y)"
    and step: "(if acc z then Some z else f acc (z sdiv 2)) = Some y"
  show "0 \<le> z \<longrightarrow> (\<exists>n. y = z div 2 ^ n \<and> acc y)"
  proof (intro impI)
    assume z: "0 \<le> z"
    show "\<exists>n. y = z div 2 ^ n \<and> acc y"
    proof (cases "acc z")
      case True
      then show ?thesis using step by (intro exI [of _ 0]) simp
    next
      case False
      then have "f acc (z div 2) = Some y" using step z by (simp add: sdiv_half)
      then obtain n where "y = z div 2 div 2 ^ n" "acc y" using ih [of acc "z div 2" y] z by auto
      then show ?thesis unfolding halves by blast
    qed
  qed
qed

text \<open>C38: \<open>SetUDPRecvBuf\<close> returns exactly when the kernel accepts the size asked for or one of its
  halvings, and then with the first one it accepts; when it refuses them all, the last of
  which is 0, the call never returns. With a kernel that has a limit the buffer is never
  larger than the limit, and at least half of it when the size asked for exceeds it.\<close>

theorem recv_buffer_set:
  assumes "0 \<le> sz"
  shows "(SetUDPRecvBuf accepts sz = None \<longleftrightarrow> (\<forall>n. \<not> accepts (sz div 2 ^ n))) \<and>
    (SetUDPRecvBuf accepts sz = Some r \<longleftrightarrow>
       (\<exists>n. r = sz div 2 ^ n \<and> accepts r \<and> (\<forall>k < n. \<not> accepts (sz div 2 ^ k)))) \<and>
    (0 \<le> limit \<and> limit < sz \<longrightarrow> (\<exists>b. SetUDPRecvBuf (\<lambda>s. s \<le> limit) sz = Some b \<and> 0 \<le> b \<and> b \<le> limit \<and> limit \<le> 2 * b))"
proof -
  have first: "\<exists>n. SetUDPRecvBuf acc sz = Some (sz div 2 ^ n) \<and> acc (sz div 2 ^ n) \<and> (\<forall>k < n. \<not> acc (sz div 2 ^ k))"
    if "acc (sz div 2 ^ n)" for n and acc :: "int \<Rightarrow> bool"
  proof -
    let ?n = "LEAST n. acc (sz div 2 ^ n)"
    have "acc (sz div 2 ^ ?n)" "\<forall>k < ?n. \<not> acc (sz div 2 ^ k)"
      using LeastI [of "\<lambda>n. acc (sz div 2 ^ n)", OF that] not_less_Least by blast+
    then show ?thesis using recv_buf_finds [of ?n acc sz] assms by blast
  qed
  show ?thesis
  proof (intro conjI impI)
    show "SetUDPRecvBuf accepts sz = None \<longleftrightarrow> (\<forall>n. \<not> accepts (sz div 2 ^ n))"
      using first [of accepts] recv_buf_returns [of accepts sz] assms by (metis not_Some_eq)
    show "SetUDPRecvBuf accepts sz = Some r \<longleftrightarrow>
       (\<exists>n. r = sz div 2 ^ n \<and> accepts r \<and> (\<forall>k < n. \<not> accepts (sz div 2 ^ k)))"
      using first [of accepts] recv_buf_returns [of accepts sz r] recv_buf_finds [of _ accepts sz] assms
      by (metis option.inject)
    assume l: "0 \<le> limit \<and> limit < sz"
    have "sz div 2 ^ nat sz \<le> limit"
      using l of_nat_less_two_power [of "nat sz"] by (simp add: div_pos_pos_trivial)
    then obtain n where n: "SetUDPRecvBuf (\<lambda>s. s \<le> limit) sz = Some (sz div 2 ^ n)" "sz div 2 ^ n \<le> limit"
      "\<forall>k < n. \<not> sz div 2 ^ k \<le> limit"
      using first [of "\<lambda>s. s \<le> limit" "nat sz"] by blast
    then obtain k where k: "n = Suc k" using l by (cases n) auto
    then have "limit < sz div 2 ^ k" using n(3) by auto
    moreover have "sz div 2 ^ n = (sz div 2 ^ k) div 2" by (simp add: k zdiv_zmult2_eq [symmetric] mult.commute)
    ultimately have "limit \<le> 2 * (sz div 2 ^ n)" by linarith
    then show "\<exists>b. SetUDPRecvBuf (\<lambda>s. s \<le> limit) sz = Some b \<and> 0 \<le> b \<and> b \<le> limit \<and> limit \<le> 2 * b"
      using n assms by (intro exI [of _ "sz div 2 ^ n"]) (simp add: pos_imp_zdiv_nonneg_iff)
  qed
qed

theorem recv_buffer_set_witness: "SetUDPRecvBuf (\<lambda>s. s \<le> 212992) 1048576 = Some 131072"
proof -
  have "\<exists>n. 131072 = (1048576 :: int) div 2 ^ n \<and> (131072 :: int) \<le> 212992 \<and> (\<forall>k < n. \<not> (1048576 :: int) div 2 ^ k \<le> 212992)"
    by (rule exI [of _ 3]) (auto simp: less_Suc_eq numeral_3_eq_3)
  then show ?thesis using recv_buffer_set [of 1048576 "\<lambda>s. s \<le> 212992" 131072] by simp
qed

text \<open>C37: The cache of resolved addresses never hands out a wrong or an old address. In any run
  of lookups in the order of time, each result is what the resolver answers at that moment,
  or the address it gave for the very same name no longer than the lifetime of an entry
  ago; an error is always the resolver's own current answer.\<close>

theorem resolver_answers_fresh:
  assumes "in_order ls" "i < length ls"
  shows "resolve_all ls resolvedAddrs ! i = lk_answer (ls ! i) \<or>
    (\<exists>j < i. \<exists>a. lk_name (ls ! j) = lk_name (ls ! i) \<and> lk_answer (ls ! j) = Inr a \<and>
       resolve_all ls resolvedAddrs ! i = Inr a \<and> lk_now (ls ! i) \<le> lk_set (ls ! j) + SESSIONS_POOL_EXPIRATION)"
proof -
  have ok: "cache_ok resolvedAddrs" by (simp add: resolvedAddrs_def cache_ok_new)
  have "fst (Cache_Get k t resolvedAddrs) = None" for k t
    by (simp add: Cache_Get_def resolvedAddrs_def newShardedCache_def shard_def shard_index_less)
  then have r: "sc.remembers {} (Min (insert 0 (lk_now ` set ls))) resolvedAddrs" by (simp add: sc.remembers_def)
  have "\<forall>l \<in> set ls. Min (insert 0 (lk_now ` set ls)) \<le> lk_now l" by simp
  from sc.lookups_fresh [OF ok r assms(1) this assms(2)]
  have "fresh_answer SESSIONS_POOL_EXPIRATION (set (take i ls)) (ls ! i) (resolve_all ls resolvedAddrs ! i)"
    by (simp add: resolve_all_lookups resolvedAddrs_def newShardedCache_def)
  then show ?thesis
    using assms(2) unfolding fresh_answer_def by (auto simp: in_set_conv_nth)
qed

definition sample_lookups :: "bytes lookup list" where
  "sample_lookups =
    [\<lparr>lk_name = lit ''host:1'', lk_now = 0, lk_set = 1, lk_answer = Inr (lit ''10.0.0.1:1'')\<rparr>,
     \<lparr>lk_name = lit ''host:1'', lk_now = 2, lk_set = 3, lk_answer = Inl ErrTimeout\<rparr>]"

theorem resolver_answers_fresh_witness:
  "resolve_all sample_lookups resolvedAddrs ! 1 = Inr (lit ''10.0.0.1:1'') \<or>
   resolve_all sample_lookups resolvedAddrs ! 1 = Inl ErrTimeout"
proof -
  have "in_order sample_lookups" "1 < length sample_lookups" by (simp_all add: sample_lookups_def in_order_def)
  from resolver_answers_fresh [OF this] show ?thesis by (auto simp: sample_lookups_def less_Suc_eq)
qed

end
