(* ===== verification/Coap_Resource.thy ===== *)
theory Coap_Resource
  imports Coala_Env Coap_Uri
begin

text \<open>
  \<open>resource.go\<close> and the registry of resources of \<open>server.go\<close>. A handler is user code and a
  parameter: a function from the request to an optional result. The fields \<open>MediaTypes\<close> and
  \<open>Hash\<close> of a resource, which nothing reads, are left out.
\<close>

subsection \<open>Resources\<close>

record CoAPResourceHandlerResult =
  HPayload :: "payload option"
  HCode :: coap_code
  HMediaType :: media_type

type_synonym CoAPResourceHandler = "coap_msg \<Rightarrow> CoAPResourceHandlerResult option"

record CoAPResource =
  RMethod :: coap_method
  RPath :: bytes
  RHandler :: CoAPResourceHandler

definition NewResponse :: "payload option \<Rightarrow> coap_code \<Rightarrow> CoAPResourceHandlerResult" where
  "NewResponse p code = \<lparr>HPayload = p, HCode = code, HMediaType = - 1\<rparr>"

definition path_cutset :: bytes where
  "path_cutset = lit ''/ ''"

definition NewCoAPResource :: "coap_method \<Rightarrow> bytes \<Rightarrow> CoAPResourceHandler \<Rightarrow> CoAPResource" where
  "NewCoAPResource method path handler = \<lparr>RMethod = method, RPath = Trim path_cutset path, RHandler = handler\<rparr>"

definition DoesMatchPath :: "CoAPResource \<Rightarrow> bytes \<Rightarrow> bool" where
  "DoesMatchPath r path \<longleftrightarrow> RPath r = Trim path_cutset path"

definition DoesMatchPathAndMethod :: "CoAPResource \<Rightarrow> bytes \<Rightarrow> coap_method \<Rightarrow> bool" where
  "DoesMatchPathAndMethod r path method \<longleftrightarrow> RPath r = Trim path_cutset path \<and> RMethod r = method"

subsection \<open>The registry\<close>

type_synonym resources = "(bytes \<times> CoAPResource) list"

definition resource_key :: "bytes \<Rightarrow> coap_method \<Rightarrow> bytes" where
  "resource_key path method = path @ decimal (unat method)"

definition addResource :: "CoAPResource \<Rightarrow> resources \<Rightarrow> resources" where
  "addResource res rs = AList.update (resource_key (RPath res) (RMethod res)) res rs"

definition getResourceForPathAndMethod :: "bytes \<Rightarrow> coap_method \<Rightarrow> resources \<Rightarrow> CoAPResource option" where
  "getResourceForPathAndMethod path method rs =
    (let path = Trim path_cutset path
     in case map_of rs (resource_key (lit ''*'') method) of
          Some res \<Rightarrow> Some res
        | None \<Rightarrow> map_of rs (resource_key path method))"

definition Server_GET :: "bytes \<Rightarrow> CoAPResourceHandler \<Rightarrow> resources \<Rightarrow> resources" where
  "Server_GET path h = addResource (NewCoAPResource CoapMethodGet path h)"

definition Server_POST :: "bytes \<Rightarrow> CoAPResourceHandler \<Rightarrow> resources \<Rightarrow> resources" where
  "Server_POST path h = addResource (NewCoAPResource CoapMethodPost path h)"

definition Server_PUT :: "bytes \<Rightarrow> CoAPResourceHandler \<Rightarrow> resources \<Rightarrow> resources" where
  "Server_PUT path h = addResource (NewCoAPResource CoapMethodPut path h)"

definition Server_DELETE :: "bytes \<Rightarrow> CoAPResourceHandler \<Rightarrow> resources \<Rightarrow> resources" where
  "Server_DELETE path h = addResource (NewCoAPResource CoapMethodDelete path h)"

subsection \<open>The registry as a list of registrations\<close>

definition methods :: "coap_method set" where
  "methods = {CoapMethodGet, CoapMethodPost, CoapMethodPut, CoapMethodDelete}"

definition registry :: "CoAPResource list \<Rightarrow> resources" where
  "registry regs = fold addResource regs []"

text \<open>The reference: the last registration for the method and the path.\<close>

definition last_registered :: "CoAPResource list \<Rightarrow> bytes \<Rightarrow> coap_method \<Rightarrow> CoAPResource option" where
  "last_registered regs path method = find (\<lambda>r. RPath r = path \<and> RMethod r = method) (rev regs)"

lemma decimal_method:
  assumes "m \<in> methods"
  shows "decimal (unat m) = [of_nat (48 + unat m)]"
  using assms by (auto simp: methods_def decimal.simps)

lemma resource_key_inj:
  assumes "m \<in> methods" "m' \<in> methods"
  shows "resource_key p m = resource_key p' m' \<longleftrightarrow> p = p' \<and> m = m'"
  using assms by (auto simp: resource_key_def decimal_method methods_def)

lemma registry_lookup:
  assumes "\<forall>r \<in> set regs. RMethod r \<in> methods" "method \<in> methods"
  shows "map_of (registry regs) (resource_key path method) = last_registered regs path method"
  using assms(1)
proof (induction regs rule: rev_induct)
  case (snoc r regs)
  then have "RMethod r \<in> methods" by simp
  then show ?case
    using snoc assms(2)
    by (auto simp: registry_def last_registered_def addResource_def update_conv' resource_key_inj)
qed (simp add: registry_def last_registered_def)

text \<open>A method outside the four, 0 of an unknown code, never finds a resource.\<close>

lemma decimal_0: "decimal (unat (0 :: 8 word)) = [48]"
  by (simp add: decimal.simps)

lemma registry_lookup_0:
  assumes "\<forall>r \<in> set regs. RMethod r \<in> methods"
  shows "map_of (registry regs) (resource_key path 0) = None"
  using assms
proof (induction regs rule: rev_induct)
  case (snoc r regs)
  then have "RMethod r \<in> methods" by simp
  then have "resource_key (RPath r) (RMethod r) \<noteq> resource_key path 0"
    unfolding resource_key_def decimal_0 by (auto simp: decimal_method) (auto simp: methods_def)
  then show ?case using snoc by (auto simp: registry_def addResource_def update_conv')
qed (simp add: registry_def)

lemma find_some: "find P xs = Some x \<Longrightarrow> x \<in> set xs \<and> P x"
  by (induction xs) (auto split: if_splits)

subsection \<open>Properties\<close>

text \<open>C30: Looking up a resource is the search of the last registration: a wildcard of the method
  comes first, then the trimmed path; what is found has the method asked for, so that a
  request for a registered path with another method finds nothing.\<close>

theorem resource_lookup:
  assumes "\<forall>r \<in> set regs. RMethod r \<in> methods"
  shows "getResourceForPathAndMethod path (GetMethod m) (registry regs) =
      (if GetMethod m = 0 then None
       else case last_registered regs (lit ''*'') (GetMethod m) of
              Some r \<Rightarrow> Some r
            | None \<Rightarrow> last_registered regs (Trim path_cutset path) (GetMethod m)) \<and>
    (\<forall>r. getResourceForPathAndMethod path (GetMethod m) (registry regs) = Some r \<longrightarrow>
       RMethod r = GetMethod m \<and> r \<in> set regs \<and> (RPath r = lit ''*'' \<or> DoesMatchPath r path))"
proof -
  have g: "GetMethod m \<in> methods \<or> GetMethod m = 0" by (auto simp: GetMethod_def methods_def)
  have "getResourceForPathAndMethod path (GetMethod m) (registry regs) =
      (if GetMethod m = 0 then None
       else case last_registered regs (lit ''*'') (GetMethod m) of
              Some r \<Rightarrow> Some r
            | None \<Rightarrow> last_registered regs (Trim path_cutset path) (GetMethod m))"
  proof (cases "GetMethod m = 0")
    case True
    then show ?thesis
      by (simp add: getResourceForPathAndMethod_def Let_def registry_lookup_0 [OF assms])
  next
    case False
    then have "GetMethod m \<in> methods" using g by simp
    from registry_lookup [OF assms this] False show ?thesis
      by (simp add: getResourceForPathAndMethod_def Let_def split: option.split)
  qed
  then show ?thesis
    by (auto simp: last_registered_def DoesMatchPath_def split: option.splits if_splits dest!: find_some)
qed

definition sample_resource :: CoAPResource where
  "sample_resource = NewCoAPResource CoapMethodGet (lit ''/info/'')
     (\<lambda>_. Some (NewResponse (Some (StringPayload (lit ''ok''))) CoapCodeContent))"

theorem resource_lookup_witness:
  "getResourceForPathAndMethod (lit ''info'') CoapMethodGet (registry [sample_resource]) = Some sample_resource"
proof -
  have r: "\<forall>r \<in> set [sample_resource]. RMethod r \<in> methods"
    by (simp add: sample_resource_def NewCoAPResource_def methods_def)
  have m: "GetMethod (zero_msg\<lparr>MCode := GET\<rparr>) = CoapMethodGet" by code_simp
  have p: "RPath sample_resource = lit ''info''" "Trim path_cutset (lit ''info'') = lit ''info''"
    "lit ''info'' \<noteq> lit ''*''" by code_simp+
  have "RMethod sample_resource = CoapMethodGet" by (simp add: sample_resource_def NewCoAPResource_def)
  with resource_lookup [OF r, of "lit ''info''" "zero_msg\<lparr>MCode := GET\<rparr>"] p show ?thesis
    unfolding m by (simp add: last_registered_def)
qed

end
