(* ===== verification/Layer_Request.thy ===== *)
theory Layer_Request
  imports Transport_Receive Coap_Resource
begin

text \<open>
  \<open>layerRequest.go\<close>: what a server answers to a request, once its blocks are complete and it
  is decrypted. The Boolean results are those of the code, which tell its caller nothing.
\<close>

subsection \<open>The answers\<close>

definition isPing :: "coap_msg \<Rightarrow> bool" where
  "isPing m \<longleftrightarrow> MType m = CON \<and> MCode m = CoapCodeEmpty"

text \<open>\<open>_, err := sr.SendTo(...); return err != nil\<close>\<close>

definition send_answer :: "transport \<Rightarrow> coap_msg \<Rightarrow> bytes \<Rightarrow> env \<Rightarrow> bool run" where
  "send_answer tr r addr e = and_then (SendTo tr r addr e) (\<lambda>err. return (err \<noteq> None))"

text \<open>\<open>copy\<close> overwrites as many bytes of the six random ones as the token has.\<close>

definition ping_reply :: "coap_msg \<Rightarrow> id_source \<Rightarrow> coap_msg \<times> id_source" where
  "ping_reply m g =
    (let (r, g) = NewCoAPMessage RST CoapCodeEmpty g;
         r = r\<lparr>MessageID := MessageID m\<rparr>
     in (r\<lparr>Token := take (length (Token r)) (Token m) @ drop (length (Token m)) (Token r)\<rparr>, g))"

definition returnPing :: "transport \<Rightarrow> coap_msg \<Rightarrow> env \<Rightarrow> bool run" where
  "returnPing tr m e = (let (r, e) = with_ids (ping_reply m) e in send_answer tr r (sender m) e)"

definition error_reply :: "coap_msg \<Rightarrow> coap_code \<Rightarrow> bytes \<Rightarrow> id_source \<Rightarrow> coap_msg \<times> id_source" where
  "error_reply m code body g =
    (let (r, g) = NewCoAPMessageId ACK code (MessageID m) g;
         r = r\<lparr>Payload := Some (StringPayload body)\<rparr>;
         r = (if length (Token m) > 0 then r\<lparr>Token := Token m\<rparr> else r)
     in (CloneOptions r m [OptionBlock1, OptionBlock2, OptionProxySecurityID], g))"

definition methodNotAllowed :: "transport \<Rightarrow> coap_msg \<Rightarrow> env \<Rightarrow> bool run" where
  "methodNotAllowed tr m e =
    (let (r, e) = with_ids (error_reply m CoapCodeMethodNotAllowed
           (lit ''Method is not allowed for requested resource'')) e
     in and_then (SendTo tr r (sender m) e) (\<lambda>_. return False))"

definition noResource :: "transport \<Rightarrow> coap_msg \<Rightarrow> env \<Rightarrow> bool run" where
  "noResource tr m e =
    (let (r, e) = with_ids (error_reply m CoapCodeNotFound
           (lit ''Requested resource '' @ GetURIPath m @ lit '' does not exist'')) e;
         r = r\<lparr>Recipient := Sender m\<rparr>
     in send_answer tr r (sender m) e)"

definition result_reply :: "coap_msg \<Rightarrow> CoAPResourceHandlerResult \<Rightarrow> id_source \<Rightarrow> coap_msg \<times> id_source" where
  "result_reply m res g =
    (let (r, g) = NewCoAPMessageId ACK (HCode res) (MessageID m) g;
         r = r\<lparr>Payload := HPayload res\<rparr>;
         r = r\<lparr>Token := Token m\<rparr>;
         r = (if HMediaType res \<ge> 0 then AddOption r OptionContentFormat (VMedia (HMediaType res)) else r);
         r = (case GetOption m OptionObserve of
                Some opt \<Rightarrow> if IntValue opt = 0 then AddOption r OptionObserve (VInt 1) else r
              | None \<Rightarrow> r);
         r = (if GetScheme m = COAPS_SCHEME then SetSchemeCOAPS r else r)
     in (CloneOptions r m [OptionBlock1, OptionBlock2, OptionSelectiveRepeatWindowSize, OptionProxySecurityID], g))"

definition returnResultFromResource :: "transport \<Rightarrow> coap_msg \<Rightarrow> CoAPResourceHandlerResult \<Rightarrow> env \<Rightarrow> bool run" where
  "returnResultFromResource tr m res e =
    (let (r, e) = with_ids (result_reply m res) e in send_answer tr r (sender m) e)"

definition requestOnReceive :: "CoAPResource option \<Rightarrow> transport \<Rightarrow> coap_msg \<Rightarrow> env \<Rightarrow> bool run" where
  "requestOnReceive resource tr m e =
    (if MCode m > 4 then return True e
     else if isPing m then returnPing tr m e
     else case resource of
       None \<Rightarrow> if MType m = CON then noResource tr m e else return False e
     | Some res \<Rightarrow>
         if RMethod res \<noteq> GetMethod m then methodNotAllowed tr m e
         else (case RHandler res m of
           Some result \<Rightarrow> if MType m = NON then return False e else returnResultFromResource tr m result e
         | None \<Rightarrow> return False e))"

subsection \<open>What the answers carry\<close>

lemma NewCoAPMessageId_fields:
  "MType (fst (NewCoAPMessageId t c i g)) = t" "MCode (fst (NewCoAPMessageId t c i g)) = c"
  "MessageID (fst (NewCoAPMessageId t c i g)) = i" "Options (fst (NewCoAPMessageId t c i g)) = []"
  by (simp_all add: NewCoAPMessageId_def zero_msg_def split_beta)

lemma SetSchemeCOAPS_fields [simp]:
  "MType (SetSchemeCOAPS m) = MType m" "MCode (SetSchemeCOAPS m) = MCode m" "Payload (SetSchemeCOAPS m) = Payload m"
  "Token (SetSchemeCOAPS m) = Token m" "MessageID (SetSchemeCOAPS m) = MessageID m"
  by (simp_all add: SetSchemeCOAPS_def)

lemma result_reply_fields:
  "MType (fst (result_reply m res g)) = ACK" "MCode (fst (result_reply m res g)) = HCode res"
  "MessageID (fst (result_reply m res g)) = MessageID m" "Token (fst (result_reply m res g)) = Token m"
  "Payload (fst (result_reply m res g)) = HPayload res"
  by (simp_all add: result_reply_def Let_def split_beta NewCoAPMessageId_fields split: option.split)

lemma GetOptions_SetSchemeCOAPS: "c \<noteq> OptionURIScheme \<Longrightarrow> GetOptions (SetSchemeCOAPS m) c = GetOptions m c"
  by (simp add: SetSchemeCOAPS_def GetOptions_AddOption)

lemma GetOptions_new_id: "GetOptions (fst (NewCoAPMessageId t c i g)) k = []"
  by (simp add: GetOptions_def NewCoAPMessageId_fields)

lemma result_reply_scheme: "GetScheme (fst (result_reply m res g)) = GetScheme m"
proof -
  let ?n = "fst (NewCoAPMessageId ACK (HCode res) (MessageID m) g)\<lparr>Payload := HPayload res, Token := Token m\<rparr>"
  let ?a = "if HMediaType res \<ge> 0 then AddOption ?n OptionContentFormat (VMedia (HMediaType res)) else ?n"
  let ?b = "case GetOption m OptionObserve of
                Some opt \<Rightarrow> if IntValue opt = 0 then AddOption ?a OptionObserve (VInt 1) else ?a | None \<Rightarrow> ?a"
  let ?s = "if GetScheme m = COAPS_SCHEME then SetSchemeCOAPS ?b else ?b"
  have "GetOptions ?b OptionURIScheme = []"
    by (simp add: GetOptions_AddOption GetOptions_new_id split: option.split)
  then have b: "GetScheme ?b = COAP_SCHEME" by (simp add: GetScheme_def GetOption_GetOptions)
  have r: "fst (result_reply m res g) = CloneOptions ?s m [OptionBlock1, OptionBlock2, OptionSelectiveRepeatWindowSize, OptionProxySecurityID]"
    by (simp only: result_reply_def Let_def split_beta fst_conv snd_conv)
  have "GetScheme (CloneOptions ?s m [OptionBlock1, OptionBlock2, OptionSelectiveRepeatWindowSize, OptionProxySecurityID]) = GetScheme ?s"
    by (rule GetScheme_cong, rule GetOptions_CloneOptions_other) simp
  moreover have "GetScheme ?s = GetScheme m"
    using b GetScheme_cases [of m] GetScheme_SetSchemeCOAPS [of ?b] by presburger
  ultimately show ?thesis unfolding r by simp
qed

lemma error_reply_fields:
  "MType (fst (error_reply m c t g)) = ACK" "MCode (fst (error_reply m c t g)) = c"
  "MessageID (fst (error_reply m c t g)) = MessageID m"
  "Token m \<noteq> [] \<Longrightarrow> Token (fst (error_reply m c t g)) = Token m"
  "Payload (fst (error_reply m c t g)) = Some (StringPayload t)"
  by (simp_all add: error_reply_def Let_def split_beta NewCoAPMessageId_fields)

text \<open>An error answer has no scheme option: also the answer to a coaps request, whose path it may
  name, leaves in the clear.\<close>

lemma error_reply_clear: "GetScheme (fst (error_reply m c t g)) = COAP_SCHEME"
proof -
  let ?n = "fst (NewCoAPMessageId ACK c (MessageID m) g)\<lparr>Payload := Some (StringPayload t)\<rparr>"
  let ?r = "if length (Token m) > 0 then ?n\<lparr>Token := Token m\<rparr> else ?n"
  have "GetOptions ?r OptionURIScheme = []" by (simp add: GetOptions_def NewCoAPMessageId_fields)
  then have r: "GetScheme ?r = COAP_SCHEME" by (simp add: GetScheme_def GetOption_GetOptions)
  have "fst (error_reply m c t g) = CloneOptions ?r m [OptionBlock1, OptionBlock2, OptionProxySecurityID]"
    by (simp only: error_reply_def Let_def split_beta fst_conv)
  moreover have "GetScheme (CloneOptions ?r m [OptionBlock1, OptionBlock2, OptionProxySecurityID]) = GetScheme ?r"
    by (rule GetScheme_cong, rule GetOptions_CloneOptions_other) simp
  ultimately show ?thesis using r by simp
qed

text \<open>The answer to a request, as a reference: \<open>None\<close> where none is sent.\<close>

definition answer :: "CoAPResource option \<Rightarrow> coap_msg \<Rightarrow> id_source \<Rightarrow> (coap_msg \<times> id_source) option" where
  "answer resource m g =
    (if MCode m > 4 then None
     else if isPing m then Some (ping_reply m g)
     else case resource of
       None \<Rightarrow> if MType m = CON then Some (let (r, g) = error_reply m CoapCodeNotFound
             (lit ''Requested resource '' @ GetURIPath m @ lit '' does not exist'') g in (r\<lparr>Recipient := Sender m\<rparr>, g)) else None
     | Some res \<Rightarrow>
         if RMethod res \<noteq> GetMethod m then Some (error_reply m CoapCodeMethodNotAllowed
             (lit ''Method is not allowed for requested resource'') g)
         else if MType m = NON then None else map_option (\<lambda>result. result_reply m result g) (RHandler res m))"

lemma snd_and_then_return: "snd (and_then r (\<lambda>x. return (f x))) = snd r"
  by (cases r; cases "fst r") (auto simp: return_def)

lemma requestOnReceive_answer:
  "snd (requestOnReceive resource tr m e) =
    (case answer resource m (ids e) of
       None \<Rightarrow> e | Some (r, g) \<Rightarrow> snd (SendTo tr r (sender m) (e\<lparr>ids := g\<rparr>)))"
  by (auto simp: requestOnReceive_def answer_def returnPing_def noResource_def methodNotAllowed_def
      returnResultFromResource_def send_answer_def with_ids_split snd_and_then_return return_def Let_def split_beta
      split: option.split)

subsection \<open>Properties\<close>

lemma answer_outcome:
  assumes "MCode m \<le> 4" "\<not> isPing m"
  shows "MType m \<noteq> CON \<Longrightarrow> answer None m g = None"
    and "MType m = CON \<Longrightarrow> \<exists>a g'. answer None m g = Some (a, g') \<and> MType a = ACK \<and>
      MessageID a = MessageID m \<and> MCode a = CoapCodeNotFound \<and> (Token m \<noteq> [] \<longrightarrow> Token a = Token m)"
    and "RMethod res = GetMethod m \<Longrightarrow> MType m = NON \<or> RHandler res m = None \<Longrightarrow> answer (Some res) m g = None"
    and "RMethod res = GetMethod m \<Longrightarrow> MType m \<noteq> NON \<Longrightarrow> RHandler res m = Some h \<Longrightarrow>
      \<exists>a g'. answer (Some res) m g = Some (a, g') \<and> MType a = ACK \<and> MessageID a = MessageID m \<and>
        Token a = Token m \<and> GetScheme a = GetScheme m \<and> MCode a = HCode h \<and> Payload a = HPayload h"
proof -
  let ?t = "lit ''Requested resource '' @ GetURIPath m @ lit '' does not exist''"
  have n: "\<not> MCode m > 4" using assms(1) by simp
  show "MType m \<noteq> CON \<Longrightarrow> answer None m g = None"
    using n assms(2) by (simp add: answer_def Let_def split_beta)
  show "\<exists>a g'. answer None m g = Some (a, g') \<and> MType a = ACK \<and>
      MessageID a = MessageID m \<and> MCode a = CoapCodeNotFound \<and> (Token m \<noteq> [] \<longrightarrow> Token a = Token m)"
    if "MType m = CON"
    using that n assms(2) error_reply_fields [of m CoapCodeNotFound ?t g]
    by (simp add: answer_def Let_def split_beta del: code_defs type_defs)
  show "RMethod res = GetMethod m \<Longrightarrow> MType m = NON \<or> RHandler res m = None \<Longrightarrow> answer (Some res) m g = None"
    using n assms(2) by (auto simp: answer_def)
  show "\<exists>a g'. answer (Some res) m g = Some (a, g') \<and> MType a = ACK \<and> MessageID a = MessageID m \<and>
        Token a = Token m \<and> GetScheme a = GetScheme m \<and> MCode a = HCode h \<and> Payload a = HPayload h"
    if "RMethod res = GetMethod m" "MType m \<noteq> NON" "RHandler res m = Some h"
    using that n assms(2) result_reply_fields [of m h g] result_reply_scheme [of m h g]
    by (cases "result_reply m h g") (simp add: answer_def del: code_defs type_defs)
qed

text \<open>C14: A request is answered as the resource says, and only once: a confirmable request for a
  registered resource gets an ACK with its message id, its token and its scheme, and the code
  and payload of the handler; an unknown resource gets NotFound, and so that request and the
  answer are matched by id and, where there is one, by token; a non-confirmable request and a
  response get no answer at all.\<close>

theorem request_answered:
  assumes "MCode m \<le> 4" "\<not> isPing m"
  shows "\<exists>r. snd (requestOnReceive resource tr m e) =
      (if r = None then e else snd (SendTo tr (fst (the r)) (sender m) (e\<lparr>ids := snd (the r)\<rparr>))) \<and>
    (case resource of
       Some res \<Rightarrow>
         RMethod res = GetMethod m \<longrightarrow>
           (r = None \<longleftrightarrow> MType m = NON \<or> RHandler res m = None) \<and>
           (\<forall>a g. r = Some (a, g) \<longrightarrow> MType a = ACK \<and> MessageID a = MessageID m \<and> Token a = Token m \<and>
              GetScheme a = GetScheme m \<and> MCode a = HCode (the (RHandler res m)) \<and>
              Payload a = HPayload (the (RHandler res m)))
     | None \<Rightarrow>
         (r = None \<longleftrightarrow> MType m \<noteq> CON) \<and>
         (\<forall>a g. r = Some (a, g) \<longrightarrow> MType a = ACK \<and> MessageID a = MessageID m \<and>
            MCode a = CoapCodeNotFound \<and> (Token m \<noteq> [] \<longrightarrow> Token a = Token m)))" (is "\<exists>r. ?P r \<and> ?Q r")
proof (intro exI [of _ "answer resource m (ids e)"] conjI)
  show "?P (answer resource m (ids e))"
    by (auto simp: requestOnReceive_answer split: option.split)
  note outcome = answer_outcome [OF assms, where g = "ids e"]
  show "?Q (answer resource m (ids e))"
  proof (cases resource)
    case None
    then show ?thesis using outcome(1,2) by (cases "MType m = CON") (auto simp del: code_defs type_defs)
  next
    case (Some res)
    then show ?thesis using outcome(3,4) [of res]
      by (cases "RHandler res m"; cases "MType m = NON") (auto simp del: code_defs type_defs)
  qed
qed

theorem request_answered_witness:
  "\<exists>r. snd (requestOnReceive None sample_transport (zero_msg\<lparr>MCode := GET, Token := [7]\<rparr>) sample_env) =
      snd (SendTo sample_transport (fst r) [] (sample_env\<lparr>ids := snd r\<rparr>)) \<and>
    MCode (fst r) = CoapCodeNotFound \<and> Token (fst r) = [7]"
proof -
  let ?tr = sample_transport and ?e = sample_env
  let ?m = "zero_msg\<lparr>MCode := GET, Token := [7]\<rparr>"
  have m: "MCode ?m \<le> 4" "\<not> isPing ?m" "MType ?m = CON" "Token ?m = [7]" "sender ?m = []" by code_simp+
  from request_answered [OF m(1,2), of None ?tr ?e] obtain r where
    r: "snd (requestOnReceive None ?tr ?m ?e) =
      (if r = None then ?e else snd (SendTo ?tr (fst (the r)) [] (?e\<lparr>ids := snd (the r)\<rparr>)))"
    and n: "r = None \<longleftrightarrow> CON \<noteq> CON"
    and f: "\<forall>a g. r = Some (a, g) \<longrightarrow> MType a = ACK \<and> MessageID a = MessageID ?m \<and>
            MCode a = CoapCodeNotFound \<and> ([7::8 word] \<noteq> [] \<longrightarrow> Token a = [7])"
    unfolding option.case m(3,4,5) by blast
  from n obtain a g where s: "r = Some (a, g)" by (cases r) auto
  with f have "MCode a = CoapCodeNotFound" "Token a = [7]" by blast+
  then show ?thesis using r unfolding s by (intro exI [of _ "(a, g)"]) simp
qed

text \<open>The reply to a ping is a reset with the message id of the ping and a token of six bytes, which is
  the token of the ping exactly when that has six bytes; a shorter one is followed by random
  bytes and a longer one is cut.\<close>

theorem ping_reply_token:
  shows "MType (fst (ping_reply m g)) = RST \<and> MCode (fst (ping_reply m g)) = CoapCodeEmpty \<and>
    MessageID (fst (ping_reply m g)) = MessageID m \<and> length (Token (fst (ping_reply m g))) = 6 \<and>
    (Token (fst (ping_reply m g)) = Token m \<longleftrightarrow> length (Token m) = 6) \<and>
    take 6 (Token m) = take (length (Token m)) (Token (fst (ping_reply m g)))"
proof -
  have l: "length (Token (fst (NewCoAPMessage RST CoapCodeEmpty g))) = 6"
    using length_generateToken [of 6 "snd (generateMessageID g)"]
    by (simp add: NewCoAPMessage_def split_beta)
  then have t: "Token (fst (ping_reply m g)) =
      take 6 (Token m) @ drop (length (Token m)) (Token (fst (NewCoAPMessage RST CoapCodeEmpty g)))"
    by (simp add: ping_reply_def Let_def split_beta)
  then have len: "length (Token (fst (ping_reply m g))) = 6" using l by simp
  have "Token (fst (ping_reply m g)) = Token m" if "length (Token m) = 6"
    using that l unfolding t by simp
  moreover have "take 6 (Token m) = take (length (Token m)) (Token (fst (ping_reply m g)))"
    unfolding t by (cases "length (Token m) \<le> 6") (use l in auto)
  moreover have "MType (fst (ping_reply m g)) = RST" "MCode (fst (ping_reply m g)) = CoapCodeEmpty"
    "MessageID (fst (ping_reply m g)) = MessageID m"
    by (simp_all add: ping_reply_def Let_def split_beta NewCoAPMessage_fields)
  moreover have "length (Token m) = 6" if "Token (fst (ping_reply m g)) = Token m"
    using len unfolding that .
  ultimately show ?thesis using len by blast
qed

end
