(* ===== verification/Backward_Storage.thy ===== *)
theory Backward_Storage
  imports Go_Map Coap_Message "HOL-Library.Multiset"
begin

text \<open>
  \<open>backward_storage.go\<close>: the table of channels on which a server waits for the answers to its
  own requests. Channels are numbered in the order in which they are made; they are
  unbuffered, so a non-blocking send succeeds only when a goroutine waits on the channel.
  Sending on a closed channel and closing it again are panics of Go, and outcomes here.
\<close>

subsection \<open>State and operations\<close>

record backwardStorage =
  channels :: "(bytes \<times> nat) list"
  made :: nat
  closed :: "nat list"
  waiting :: "nat list"

definition new_backward :: backwardStorage where
  "new_backward = \<lparr>channels = [], made = 0, closed = [], waiting = []\<rparr>"

datatype bq_result = BqDone | BqDelivered nat | BqPanic

definition bq_key :: "coap_msg \<Rightarrow> bytes" where
  "bq_key m = GetTokenString m @ (case Sender m of Some a \<Rightarrow> a | None \<Rightarrow> [])"

definition bq_Has :: "coap_msg \<Rightarrow> backwardStorage \<Rightarrow> bool" where
  "bq_Has m b \<longleftrightarrow> map_of (channels b) (bq_key m) \<noteq> None"

text \<open>The select of \<open>Write\<close>: with no receiver the default branch drops the message.\<close>

definition bq_Write :: "coap_msg \<Rightarrow> backwardStorage \<Rightarrow> bq_result \<times> backwardStorage" where
  "bq_Write m b =
    (case map_of (channels b) (bq_key m) of
       None \<Rightarrow> (BqDone, b)
     | Some ch \<Rightarrow>
         if ch \<in> set (closed b) then (BqPanic, b)
         else if ch \<in> set (waiting b) then (BqDelivered ch, b\<lparr>waiting := remove1 ch (waiting b)\<rparr>)
         else (BqDone, b))"

text \<open>\<open>close(ch)\<close>: every goroutine that waits on the channel returns from its receive.\<close>

definition close_channel :: "nat \<Rightarrow> backwardStorage \<Rightarrow> bq_result \<times> backwardStorage" where
  "close_channel ch b =
    (if ch \<in> set (closed b) then (BqPanic, b)
     else (BqDone, b\<lparr>closed := ch # closed b, waiting := removeAll ch (waiting b)\<rparr>))"

text \<open>\<open>Read\<close> puts a channel of its own into the table, and at its end takes it out and closes
  it if it is still the one of the table.\<close>

definition bq_Read_begin :: "bytes \<Rightarrow> backwardStorage \<Rightarrow> nat \<times> backwardStorage" where
  "bq_Read_begin key b =
    (made b, b\<lparr>channels := AList.update key (made b) (channels b), made := Suc (made b)\<rparr>)"

definition bq_Read_end :: "bytes \<Rightarrow> nat \<Rightarrow> backwardStorage \<Rightarrow> bq_result \<times> backwardStorage" where
  "bq_Read_end key ch b =
    (if map_of (channels b) key = Some ch
     then close_channel ch (b\<lparr>channels := AList.delete key (channels b)\<rparr>)
     else (BqDone, b))"

definition bq_Get :: "bytes \<Rightarrow> backwardStorage \<Rightarrow> nat \<times> backwardStorage" where
  "bq_Get key b =
    (case map_of (channels b) key of
       Some ch \<Rightarrow> (ch, b)
     | None \<Rightarrow> (made b, b\<lparr>channels := AList.update key (made b) (channels b), made := Suc (made b)\<rparr>))"

definition bq_Delete :: "bytes \<Rightarrow> backwardStorage \<Rightarrow> bq_result \<times> backwardStorage" where
  "bq_Delete key b =
    (case map_of (channels b) key of
       Some ch \<Rightarrow> close_channel ch (b\<lparr>channels := AList.delete key (channels b)\<rparr>)
     | None \<Rightarrow> (BqDone, b))"

subsection \<open>Interleaved runs\<close>

text \<open>
  Each operation holds the lock, so goroutines interleave whole operations. \<open>BqWait\<close> is the
  begin of a receive by the holder of a channel, \<open>BqTimeout\<close> its end by the timer. The second
  index of \<open>bq_runs\<close> lists the results of the steps so far, the last one first.
\<close>

inductive bq_runs :: "bq_result list \<Rightarrow> backwardStorage \<Rightarrow> bool" where
  Start: "bq_runs [] new_backward"
| Write: "bq_runs rs b \<Longrightarrow> bq_Write m b = (r, b') \<Longrightarrow> bq_runs (r # rs) b'"
| Get: "bq_runs rs b \<Longrightarrow> bq_Get key b = (ch, b') \<Longrightarrow> bq_runs rs b'"
| Delete: "bq_runs rs b \<Longrightarrow> bq_Delete key b = (r, b') \<Longrightarrow> bq_runs (r # rs) b'"
| ReadBegin: "bq_runs rs b \<Longrightarrow> bq_Read_begin key b = (ch, b') \<Longrightarrow> bq_runs rs b'"
| ReadEnd: "bq_runs rs b \<Longrightarrow> bq_Read_end key ch b = (r, b') \<Longrightarrow> bq_runs (r # rs) b'"
| Wait: "bq_runs rs b \<Longrightarrow> ch < made b \<Longrightarrow> ch \<notin> set (closed b) \<Longrightarrow> bq_runs rs (b\<lparr>waiting := ch # waiting b\<rparr>)"
| Timed_out: "bq_runs rs b \<Longrightarrow> bq_runs rs (b\<lparr>waiting := remove1 ch (waiting b)\<rparr>)"

declare bq_runs.intros [intro]

abbreviation registered :: "backwardStorage \<Rightarrow> nat set" where
  "registered b \<equiv> snd ` set (channels b)"

text \<open>The channels that were made and are not closed.\<close>

definition open_channels :: "backwardStorage \<Rightarrow> nat set" where
  "open_channels b = {..< made b} - set (closed b)"

definition bq_ok :: "backwardStorage \<Rightarrow> bool" where
  "bq_ok b \<longleftrightarrow> distinct (map fst (channels b)) \<and> distinct (map snd (channels b)) \<and>
     registered b \<subseteq> open_channels b \<and> set (waiting b) \<subseteq> open_channels b \<and>
     distinct (closed b) \<and> set (closed b) \<subseteq> {..< made b}"

lemma distinct_snd_key: "distinct (map snd m) \<Longrightarrow> (j, v) \<in> set m \<Longrightarrow> (k, v) \<in> set m \<Longrightarrow> j = k"
  by (induction m) force+

text \<open>The table with a channel taken out, or with a new one put in.\<close>

lemma snd_delete: "snd ` set (AList.delete k m) \<subseteq> snd ` set m"
  by (auto simp: AList.delete_eq)

lemma distinct_snd_delete: "distinct (map snd m) \<Longrightarrow> distinct (map snd (AList.delete k m))"
  by (simp add: AList.delete_eq distinct_map inj_on_def)

lemma deleted_value:
  assumes "map_of m k = Some ch" "distinct (map snd m)"
  shows "ch \<notin> snd ` set (AList.delete k m)"
proof
  assume "ch \<in> snd ` set (AList.delete k m)"
  then obtain j where "(j, ch) \<in> set m" "j \<noteq> k" by (auto simp: AList.delete_eq)
  then show False using distinct_snd_key [OF assms(2)] map_of_SomeD [OF assms(1)] by blast
qed

lemma snd_update: "snd ` set (AList.update k v m) \<subseteq> insert v (snd ` set m)"
  by (induction m) auto

lemma distinct_snd_update: "v \<notin> snd ` set m \<Longrightarrow> distinct (map snd m) \<Longrightarrow> distinct (map snd (AList.update k v m))"
proof (induction m)
  case (Cons a m)
  then show ?case using snd_update [of k v m] by (cases a) auto
qed simp

lemma registered_value: "map_of (channels b) key = Some ch \<Longrightarrow> ch \<in> registered b"
  by (drule map_of_SomeD) force

lemma bq_ok_add:
  assumes "bq_ok b"
  shows "bq_ok (b\<lparr>channels := AList.update key (made b) (channels b), made := Suc (made b)\<rparr>)"
proof -
  let ?b = "b\<lparr>channels := AList.update key (made b) (channels b), made := Suc (made b)\<rparr>"
  have o: "open_channels ?b = insert (made b) (open_channels b)" "made b \<notin> open_channels b"
    using assms by (auto simp: open_channels_def bq_ok_def less_Suc_eq)
  then have "made b \<notin> registered b" using assms by (auto simp: bq_ok_def)
  then have "distinct (map snd (channels ?b))"
    using assms by (auto simp: bq_ok_def intro: distinct_snd_update)
  moreover have "registered ?b \<subseteq> open_channels ?b"
    using snd_update [of key "made b" "channels b"] assms unfolding o(1) bq_ok_def by auto
  moreover have "set (waiting ?b) \<subseteq> open_channels ?b" "set (closed ?b) \<subseteq> {..< made ?b}"
    using assms unfolding o(1) bq_ok_def by auto
  ultimately show ?thesis using assms unfolding bq_ok_def by (auto intro: distinct_update)
qed

lemma bq_ok_remove:
  assumes "bq_ok b" "map_of (channels b) key = Some ch"
    and "close_channel ch (b\<lparr>channels := AList.delete key (channels b)\<rparr>) = (r, b')"
  shows "bq_ok b' \<and> r = BqDone \<and> closed b' = ch # closed b"
proof -
  have ch: "ch < made b" "ch \<notin> set (closed b)"
    using assms(1) registered_value [OF assms(2)] by (auto simp: bq_ok_def open_channels_def)
  then have b': "b' = b\<lparr>channels := AList.delete key (channels b), closed := ch # closed b,
      waiting := removeAll ch (waiting b)\<rparr>" "r = BqDone"
    using assms(3) by (auto simp: close_channel_def)
  have d: "distinct (map snd (channels b))" using assms(1) by (simp add: bq_ok_def)
  have o: "open_channels b' = open_channels b - {ch}" by (auto simp: open_channels_def b')
  have "registered b' \<subseteq> open_channels b'"
    using snd_delete [of key "channels b"] deleted_value [OF assms(2) d] assms(1)
    unfolding o unfolding bq_ok_def b' by auto
  moreover have "set (waiting b') \<subseteq> open_channels b'" using assms(1) unfolding o unfolding bq_ok_def b' by auto
  moreover have "distinct (map fst (channels b'))" "distinct (map snd (channels b'))"
    using assms(1) distinct_snd_delete [OF d] by (auto simp: b' bq_ok_def intro: distinct_delete)
  moreover have "distinct (closed b')" "set (closed b') \<subseteq> {..< made b'}"
    using assms(1) ch by (auto simp: b' bq_ok_def)
  ultimately show ?thesis using b' by (simp add: bq_ok_def)
qed

lemma bq_ok_fewer: "bq_ok b \<Longrightarrow> bq_ok (b\<lparr>waiting := remove1 ch (waiting b)\<rparr>)"
  using set_remove1_subset [of ch "waiting b"] by (auto simp: bq_ok_def open_channels_def)

lemma bq_step_ok:
  assumes "bq_ok b"
  shows "bq_Write m b = (r, b') \<Longrightarrow> bq_ok b' \<and> r \<noteq> BqPanic"
    and "bq_Delete key b = (r, b') \<Longrightarrow> bq_ok b' \<and> r \<noteq> BqPanic"
    and "bq_Read_end key ch b = (r, b') \<Longrightarrow> bq_ok b' \<and> r \<noteq> BqPanic"
    and "bq_Get key b = (ch, b') \<Longrightarrow> bq_ok b'"
    and "bq_Read_begin key b = (ch, b') \<Longrightarrow> bq_ok b'"
proof -
  have n: "ch \<notin> set (closed b)" if "map_of (channels b) k = Some ch" for k ch
    using assms registered_value [OF that] by (auto simp: bq_ok_def open_channels_def)
  show "bq_ok b' \<and> r \<noteq> BqPanic" if "bq_Write m b = (r, b')"
    using that assms n bq_ok_fewer [OF assms] by (auto simp: bq_Write_def split: option.splits if_splits)
  show "bq_ok b' \<and> r \<noteq> BqPanic" if "bq_Delete key b = (r, b')"
    using that assms bq_ok_remove [OF assms] by (auto simp: bq_Delete_def split: option.splits)
  show "bq_ok b' \<and> r \<noteq> BqPanic" if "bq_Read_end key ch b = (r, b')"
    using that assms bq_ok_remove [OF assms, of key ch r b'] by (auto simp: bq_Read_end_def split: if_splits)
  show "bq_ok b'" if "bq_Get key b = (ch, b')"
    using that assms bq_ok_add [OF assms] by (auto simp: bq_Get_def split: option.splits)
  show "bq_ok b'" if "bq_Read_begin key b = (ch, b')"
    using that bq_ok_add [OF assms] by (auto simp: bq_Read_begin_def)
qed

lemma bq_runs_ok: "bq_runs rs b \<Longrightarrow> bq_ok b \<and> BqPanic \<notin> set rs"
proof (induction rule: bq_runs.induct)
  case Start
  then show ?case by (simp add: bq_ok_def new_backward_def)
next
  case (Timed_out rs b ch)
  then show ?case using bq_ok_fewer by blast
next
  case (Wait rs b ch)
  then show ?case by (simp add: bq_ok_def open_channels_def)
next
  case (Write rs b m r b')
  then show ?case using bq_step_ok(1) [of b m r b'] by auto
next
  case (Get rs b key ch b')
  then show ?case using bq_step_ok(4) [of b key ch b'] by auto
next
  case (Delete rs b key r b')
  then show ?case using bq_step_ok(2) [of b key r b'] by auto
next
  case (ReadBegin rs b key ch b')
  then show ?case using bq_step_ok(5) [of b key ch b'] by auto
next
  case (ReadEnd rs b key ch r b')
  then show ?case using bq_step_ok(3) [of b key ch r b'] by auto
qed

subsection \<open>Properties\<close>

text \<open>C12: However the goroutines of a server interleave, no operation on the table of answer
  channels sends on a closed channel or closes one twice, and no goroutine is left waiting on
  a closed channel; every channel of the table is open and belongs to one key.\<close>

theorem backward_channels_safe:
  assumes "bq_runs rs b"
  shows "BqPanic \<notin> set rs \<and> distinct (closed b) \<and> set (waiting b) \<inter> set (closed b) = {} \<and>
    (\<forall>key ch. map_of (channels b) key = Some ch \<longrightarrow> ch \<notin> set (closed b) \<and>
       (\<forall>key'. map_of (channels b) key' = Some ch \<longrightarrow> key' = key))"
proof -
  have ok: "bq_ok b" "BqPanic \<notin> set rs" using bq_runs_ok [OF assms] by simp_all
  have "key' = key" if "map_of (channels b) key = Some ch" "map_of (channels b) key' = Some ch" for key key' ch
    using ok(1) that [THEN map_of_SomeD] distinct_snd_key unfolding bq_ok_def by metis
  moreover have "ch \<notin> set (closed b)" if "map_of (channels b) key = Some ch" for key ch
    using ok(1) registered_value [OF that] by (auto simp: bq_ok_def open_channels_def)
  moreover have "set (waiting b) \<inter> set (closed b) = {}" "distinct (closed b)"
    using ok(1) by (auto simp: bq_ok_def open_channels_def)
  ultimately show ?thesis using ok(2) by blast
qed

theorem backward_channels_safe_witness:
  "snd (bq_Delete [1] (snd (bq_Get [1] new_backward))) = \<lparr>channels = [], made = 1, closed = [0], waiting = []\<rparr> \<and>
   distinct (closed (snd (bq_Delete [1] (snd (bq_Get [1] new_backward)))))"
proof -
  have "bq_runs [fst (bq_Delete [1] (snd (bq_Get [1] new_backward)))] (snd (bq_Delete [1] (snd (bq_Get [1] new_backward))))"
    by (rule Delete [OF Get [OF Start]]) (simp_all add: prod_eq_iff)
  from backward_channels_safe [OF this] show ?thesis
    by (simp add: bq_Delete_def bq_Get_def new_backward_def close_channel_def)
qed

text \<open>An answer reaches a waiting request and no other: \<open>Write\<close> hands a message over only to a
  goroutine that waits on the channel registered under the token and the sender of the
  message, it takes one such goroutine out of the waiting ones, and leaves the table as it is.\<close>

theorem backward_write_delivers:
  assumes "bq_Write m b = (BqDelivered ch, b')"
  shows "bq_Has m b \<and> map_of (channels b) (bq_key m) = Some ch \<and> ch \<in> set (waiting b) \<and>
    mset (waiting b) = add_mset ch (mset (waiting b')) \<and> channels b' = channels b \<and> closed b' = closed b"
  using assms by (auto simp: bq_Write_def bq_Has_def split: option.splits if_splits)

theorem backward_write_delivers_witness:
  "bq_Has (zero_msg\<lparr>Token := [1]\<rparr>) ((snd (bq_Get [1] new_backward))\<lparr>waiting := [0]\<rparr>)"
proof -
  let ?b = "(snd (bq_Get [1] new_backward))\<lparr>waiting := [0]\<rparr>"
  have "bq_Write (zero_msg\<lparr>Token := [1]\<rparr>) ?b = (BqDelivered 0, ?b\<lparr>waiting := []\<rparr>)"
    by (simp add: bq_Write_def bq_key_def GetTokenString_def zero_msg_def bq_Get_def new_backward_def)
  from backward_write_delivers [OF this] show ?thesis by simp
qed

text \<open>
  Closing a channel ends a receive with no message: a goroutine that shares the channel of a
  key with another one is woken by the deletion of the key.
\<close>

lemma shared_channel_closed:
  assumes "bq_ok b" "bq_Get key b = (ch, b1)" "bq_Get key b1 = (ch', b2)"
  shows "ch' = ch \<and> b2 = b1 \<and> ch \<in> set (closed (snd (bq_Delete key b2)))"
proof -
  have m: "map_of (channels b1) key = Some ch" using assms(2) by (auto simp: bq_Get_def update_conv' split: option.splits)
  then have "ch' = ch" "b2 = b1" using assms(3) by (auto simp: bq_Get_def)
  moreover have "bq_ok b1" using bq_step_ok(4) assms(1,2) by blast
  ultimately show ?thesis
    using bq_ok_remove [OF _ m] m
    by (cases "close_channel ch (b1\<lparr>channels := AList.delete key (channels b1)\<rparr>)") (auto simp: bq_Delete_def)
qed

end
