(* ===== verification/Local_State.thy ===== *)
theory Local_State
  imports Layer_Request Block_Assembly Backward_Storage
begin

text \<open>
  \<open>localstate.go\<close> and \<open>processLocalState\<close> of \<open>server.go\<close>: the state a server keeps per sender
  and token while the blocks of a request arrive, the handler that is started once they are
  complete, and the table of the requests handled lately. Every goroutine is a task whose
  steps are the code between two accesses to shared state.
\<close>

subsection \<open>State\<close>

text \<open>The fields \<open>bufBlock1\<close> and \<open>totalBlocks\<close> are one block buffer; the resources are those of the
  server. The time at which a download started is never read.\<close>

record localState =
  ls_blocks :: block_buffer
  runnedHandler :: bool
  ls_tr :: transport

text \<open>
  The state shared by the goroutines of a server. A closure \<open>ls.processMessage\<close> in
  \<open>StorageLocalStates\<close> is the index of its local state in \<open>heap\<close>; \<open>block2channels\<close> holds the
  ids under which an answer in blocks is being sent.
\<close>

record server_state =
  resources :: resources
  heap :: "localState list"
  StorageLocalStates :: "nat shardedCache"
  ProcessedMessages :: "unit shardedCache"
  bq :: backwardStorage
  block2channels :: "bytes list"
  senv :: env

definition processedTTL :: int where "processedTTL = 10 * second"

definition localsTTL :: int where "localsTTL = 3 * 60 * second"

definition newLocalState :: "transport \<Rightarrow> localState" where
  "newLocalState tr = \<lparr>ls_blocks = new_buffer, runnedHandler = False, ls_tr = tr\<rparr>"

definition MakeLocalStateFn :: "transport \<Rightarrow> server_state \<Rightarrow> nat \<times> server_state" where
  "MakeLocalStateFn tr s = (length (heap s), s\<lparr>heap := heap s @ [newLocalState tr]\<rparr>)"

definition local_id :: "coap_msg \<Rightarrow> bytes" where
  "local_id m = sender m @ GetTokenString m"

definition tick_server :: "server_state \<Rightarrow> int \<times> server_state" where
  "tick_server s = (let (now, e) = tick (senv s) in (now, s\<lparr>senv := e\<rparr>))"

subsection \<open>One message\<close>

definition localStateSecurityInputLayer ::
    "transport \<Rightarrow> coap_msg \<Rightarrow> bytes \<Rightarrow> env \<Rightarrow> (bool \<times> err option \<times> coap_msg) run" where
  "localStateSecurityInputLayer tr m proxyAddr e =
    (let (proxyAddr, e) = withProxyID proxyAddr (tr_local tr) e
     in and_then (receiveHandshake tr m proxyAddr e) (\<lambda>(ok, r) e.
          if \<not> ok then return (False, r, m) e
          else and_then (handleCoapsScheme tr m proxyAddr e) (\<lambda>(r, m).
            return (r = None, r, m))))"

definition localStateReceiveARQBlock1 ::
    "transport \<Rightarrow> block_buffer \<Rightarrow> coap_msg \<Rightarrow> env \<Rightarrow> (bool \<times> block_buffer \<times> coap_msg \<times> err option) \<times> env" where
  "localStateReceiveARQBlock1 tr bb m e =
    (case GetBlock1 m of
       None \<Rightarrow> ((False, bb, m, None), e)
     | Some blk \<Rightarrow>
         if MType m \<noteq> CON then ((False, bb, m, None), e)
         else (case Payload m of
           None \<Rightarrow> ((False, bb, m, Some GoPanic), e)
         | Some p \<Rightarrow>
             let bb = receive_block blk (Bytes p) bb
             in if buffer_complete bb then
                  ((True, bb, m\<lparr>Payload := Some (BytesPayload (buffer_body bb))\<rparr>, None), e)
                else
                  let (ack, e) = with_ids (continue_ack None m blk bb) e;
                      (r, e) = sendToSocketByAddress tr ack (sender m) e
                  in ((False, bb, m, r), e)))"

text \<open>What the selector does besides updating the buffer: \<open>go respHandler(...)\<close>, a message
  for the channel of an answer in blocks, or nothing.\<close>

datatype ls_action = NoAction | Spawn coap_msg "err option" | ToChannel bytes coap_msg

definition localStateMessageHandlerSelector ::
    "transport \<Rightarrow> bytes list \<Rightarrow> block_buffer \<Rightarrow> coap_msg \<Rightarrow> env \<Rightarrow> (ls_action \<times> block_buffer) \<times> env" where
  "localStateMessageHandlerSelector tr chans bb m e =
    (if GetBlock1 m \<noteq> None then
       if MType m = CON then
         (case localStateReceiveARQBlock1 tr bb m e of
            ((ok, bb, m, r), e) \<Rightarrow> ((if ok then Spawn m r else NoAction, bb), e))
       else ((NoAction, bb), e)
     else if GetBlock2 m \<noteq> None then
       if MType m = ACK \<and> local_id m \<in> set chans then ((ToChannel (local_id m) m, bb), e)
       else ((NoAction, bb), e)
     else ((Spawn m None, bb), e))"

text \<open>\<open>processMessage\<close> runs under the mutex of the local state. The first component is \<open>None\<close> while
  it waits.\<close>

definition processMessage :: "nat \<Rightarrow> coap_msg \<Rightarrow> server_state \<Rightarrow> ls_action option \<times> server_state" where
  "processMessage l m s =
    (let ls = heap s ! l
     in case localStateSecurityInputLayer (ls_tr ls) m [] (senv s) of
          (None, e) \<Rightarrow> (None, s\<lparr>senv := e\<rparr>)
        | (Some (ok, r, m), e) \<Rightarrow>
            if \<not> ok \<or> r \<noteq> None then (Some NoAction, s\<lparr>senv := e\<rparr>)
            else let e = inc MetricReceivedMessages e;
                     ((a, bb), e) = localStateMessageHandlerSelector (ls_tr ls) (block2channels s) (ls_blocks ls) m e
                 in (Some a, s\<lparr>senv := e, heap := (heap s)[l := ls\<lparr>ls_blocks := bb\<rparr>]\<rparr>))"

text \<open>The handler between its compare-and-swap and its deferred function.\<close>

datatype outcome = Returned | Blocked | Panicked

definition localRespHandler :: "nat \<Rightarrow> coap_msg \<Rightarrow> err option \<Rightarrow> server_state \<Rightarrow> outcome \<times> server_state" where
  "localRespHandler l m r s =
    (if r \<noteq> None then (Returned, s)
     else if bq_Has m (bq s) then
       let (w, b) = bq_Write m (bq s) in (if w = BqPanic then Panicked else Returned, s\<lparr>bq := b\<rparr>)
     else
       (case requestOnReceive (getResourceForPathAndMethod (GetURIPath m) (GetMethod m) (resources s))
               (ls_tr (heap s ! l)) m (senv s) of
          (None, e) \<Rightarrow> (Blocked, s\<lparr>senv := e\<rparr>)
        | (Some _, e) \<Rightarrow> (Returned, s\<lparr>senv := e\<rparr>)))"

subsection \<open>The steps of \<open>processLocalState\<close>\<close>

definition already_processed :: "bytes \<Rightarrow> server_state \<Rightarrow> bool \<times> server_state" where
  "already_processed i s =
    (let (now, s) = tick_server s;
         (v, c) = Cache_Get i now (ProcessedMessages s)
     in (v \<noteq> None, s\<lparr>ProcessedMessages := c\<rparr>))"

text \<open>The second clock reading of \<open>LoadOrStore\<close> is only taken when there is an entry.\<close>

definition load_local :: "bytes \<Rightarrow> transport \<Rightarrow> server_state \<Rightarrow> nat \<times> server_state" where
  "load_local i tr s =
    (let (l, s) = MakeLocalStateFn tr s;
         (now, s) = tick_server s;
         (now', s') = tick_server s;
         ((l, loaded), c) = Cache_LoadOrStore i l now now' (StorageLocalStates s);
         s = (if map_of (shard (StorageLocalStates s) i) i = None then s else s')
     in (l, s\<lparr>StorageLocalStates := c\<rparr>))"

definition forget_local :: "bytes \<Rightarrow> server_state \<Rightarrow> server_state" where
  "forget_local i s = s\<lparr>StorageLocalStates := Cache_Delete i (StorageLocalStates s)\<rparr>"

definition mark_processed :: "bytes \<Rightarrow> server_state \<Rightarrow> server_state" where
  "mark_processed i s =
    (let (now, s) = tick_server s in s\<lparr>ProcessedMessages := Cache_Set i () now (ProcessedMessages s)\<rparr>)"

text \<open>
  A task is the rest of a goroutine: of \<open>processLocalState\<close> before its check, before
  \<open>LoadOrStore\<close>, before \<open>processMessage\<close>; of the handler before the compare-and-swap, before
  its body, and in its deferred function before \<open>Delete\<close> and before \<open>Set\<close>.
\<close>

datatype task =
    Arrived transport coap_msg
  | Checked transport coap_msg
  | Bound nat coap_msg
  | Spawned nat coap_msg "err option"
  | Running nat coap_msg "err option"
  | Finished bytes
  | Forgotten bytes
  | Locked nat
  | Waiting nat

definition start_handler :: "nat \<Rightarrow> server_state \<Rightarrow> server_state" where
  "start_handler l s = s\<lparr>heap := (heap s)[l := (heap s ! l)\<lparr>runnedHandler := True\<rparr>]\<rparr>"

fun step_task :: "task \<Rightarrow> server_state \<Rightarrow> task list \<times> server_state" where
  "step_task (Arrived tr m) s =
    (let (dup, s) = already_processed (local_id m) s in (if dup then [] else [Checked tr m], s))"
| "step_task (Checked tr m) s = (let (l, s) = load_local (local_id m) tr s in ([Bound l m], s))"
| "step_task (Bound l m) s =
    (case processMessage l m s of
       (Some (Spawn m r), s) \<Rightarrow> ([Spawned l m r], s) | (Some _, s) \<Rightarrow> ([], s) | (None, s) \<Rightarrow> ([Locked l], s))"
| "step_task (Spawned l m r) s =
    (if runnedHandler (heap s ! l) then ([], s) else ([Running l m r], start_handler l s))"
| "step_task (Running l m r) s =
    (let (out, s) = localRespHandler l m r s in (if out = Blocked then [Waiting l] else [Finished (local_id m)], s))"
| "step_task (Finished i) s = ([Forgotten i], forget_local i s)"
| "step_task (Forgotten i) s = ([], mark_processed i s)"
| "step_task (Locked l) s = ([Locked l], s)"
| "step_task (Waiting l) s = ([Waiting l], s)"

text \<open>The handlers a step starts, with the message each is started for.\<close>

definition started :: "task \<Rightarrow> server_state \<Rightarrow> (nat \<times> coap_msg) list" where
  "started t s = (case t of Spawned l m r \<Rightarrow> if runnedHandler (heap s ! l) then [] else [(l, m)] | _ \<Rightarrow> [])"

text \<open>
  Runs of a server: messages arrive, tasks take steps in any order, the cleanup of the caches
  passes, and the rest of the process changes the environment and the table of waiting
  requests in any way. The first index lists the handlers started so far.
\<close>

inductive serving :: "(nat \<times> coap_msg) list \<Rightarrow> task list \<Rightarrow> server_state \<Rightarrow> bool" where
  Init: "heap s = [] \<Longrightarrow> StorageLocalStates s = newShardedCache localsTTL \<Longrightarrow> serving [] [] s"
| Arrive: "serving h ts s \<Longrightarrow> serving h (Arrived tr m # ts) s"
| Step: "serving h (us @ t # vs) s \<Longrightarrow> step_task t s = (ts, s') \<Longrightarrow> serving (h @ started t s) (us @ ts @ vs) s'"
| Clean: "serving h ts s \<Longrightarrow> serving h ts (s\<lparr>StorageLocalStates := Cache_Cleanup clk (StorageLocalStates s)\<rparr>)"
| Other: "serving h ts s \<Longrightarrow> serving h ts (s\<lparr>senv := e, bq := b, block2channels := c, ProcessedMessages := p\<rparr>)"

declare serving.intros [intro]

inductive_cases serving_cases: "serving h ts s"

subsection \<open>At most one handler per local state\<close>

text \<open>The local state a task works on.\<close>

fun task_local :: "task \<Rightarrow> nat option" where
  "task_local (Bound l m) = Some l"
| "task_local (Spawned l m r) = Some l"
| "task_local (Running l m r) = Some l"
| "task_local _ = None"

definition ran :: "server_state \<Rightarrow> nat set" where
  "ran s = {l. l < length (heap s) \<and> runnedHandler (heap s ! l)}"

text \<open>Every reference to a local state is one into the heap.\<close>

definition locals_ok :: "server_state \<Rightarrow> bool" where
  "locals_ok s \<longleftrightarrow> cache_ok (StorageLocalStates s) \<and>
     (\<forall>k i. cache_abs (StorageLocalStates s) k = Some i \<longrightarrow> itemValue i < length (heap s))"

definition tasks_ok :: "task list \<Rightarrow> server_state \<Rightarrow> bool" where
  "tasks_ok ts s \<longleftrightarrow> (\<forall>t \<in> set ts. \<forall>l. task_local t = Some l \<longrightarrow> l < length (heap s))"

text \<open>What a step may do to the heap: extend it, and change local states in place.\<close>

lemma already_processed_fields:
  "heap (snd (already_processed i s)) = heap s"
  "StorageLocalStates (snd (already_processed i s)) = StorageLocalStates s"
  by (simp_all add: already_processed_def tick_server_def Let_def split_beta)

lemma mark_processed_fields:
  "heap (mark_processed i s) = heap s" "StorageLocalStates (mark_processed i s) = StorageLocalStates s"
  by (simp_all add: mark_processed_def tick_server_def Let_def split_beta)

lemma localRespHandler_fields:
  "heap (snd (localRespHandler l m r s)) = heap s"
  "StorageLocalStates (snd (localRespHandler l m r s)) = StorageLocalStates s"
  by (simp_all add: localRespHandler_def Let_def split: option.split prod.split)

lemma processMessage_fields:
  "StorageLocalStates (snd (processMessage l m s)) = StorageLocalStates s"
  "map runnedHandler (heap (snd (processMessage l m s))) = map runnedHandler (heap s)"
proof -
  have u: "map runnedHandler ((heap s)[l := (heap s ! l)\<lparr>ls_blocks := bb\<rparr>]) = map runnedHandler (heap s)" for bb
    by (cases "l < length (heap s)") (simp_all add: map_update_same list_update_beyond not_less)
  show "StorageLocalStates (snd (processMessage l m s)) = StorageLocalStates s"
    "map runnedHandler (heap (snd (processMessage l m s))) = map runnedHandler (heap s)"
    by (auto simp: processMessage_def Let_def u split: option.split prod.split)
qed

lemma load_local_fields:
  assumes "load_local i tr s = (l, s')"
  shows "heap s' = heap s @ [newLocalState tr]"
    and "\<exists>now now' r. Cache_LoadOrStore i (length (heap s)) now now' (StorageLocalStates s) = ((l, r), StorageLocalStates s')"
proof -
  have t: "heap (snd (tick_server u)) = heap u \<and> StorageLocalStates (snd (tick_server u)) = StorageLocalStates u" for u
    by (simp add: tick_server_def Let_def split_beta)
  let ?s = "s\<lparr>heap := heap s @ [newLocalState tr]\<rparr>"
  obtain now s1 where 1: "tick_server ?s = (now, s1)" by fastforce
  obtain now' s2 where 2: "tick_server s1 = (now', s2)" by fastforce
  obtain k r c where c: "Cache_LoadOrStore i (length (heap s)) now now' (StorageLocalStates s) = ((k, r), c)"
    by (metis prod.exhaust)
  have "load_local i tr s = (k, (if map_of (shard (StorageLocalStates s1) i) i = None then s1 else s2)\<lparr>StorageLocalStates := c\<rparr>)"
    using 1 2 c t [of ?s] by (simp add: load_local_def MakeLocalStateFn_def)
  then have e: "k = l" "s' = (if map_of (shard (StorageLocalStates s1) i) i = None then s1 else s2)\<lparr>StorageLocalStates := c\<rparr>"
    using assms by simp_all
  show "heap s' = heap s @ [newLocalState tr]" using e(2) 1 2 t [of ?s] t [of s1] by simp
  show "\<exists>now now' r. Cache_LoadOrStore i (length (heap s)) now now' (StorageLocalStates s) = ((l, r), StorageLocalStates s')"
    using c e by auto
qed

lemma locals_ok_load:
  assumes "locals_ok s" "load_local i tr s = (l, s')"
  shows "locals_ok s' \<and> l < length (heap s')"
proof -
  note f = load_local_fields [OF assms(2)]
  from f(2) obtain now now' r where
    c: "Cache_LoadOrStore i (length (heap s)) now now' (StorageLocalStates s) = ((l, r), StorageLocalStates s')" by blast
  have ok: "cache_ok (StorageLocalStates s)"
    and v: "\<And>k i. cache_abs (StorageLocalStates s) k = Some i \<Longrightarrow> itemValue i < Suc (length (heap s))"
    using assms(1) by (auto simp: locals_ok_def less_Suc_eq)
  define good where "good d \<longleftrightarrow> cache_ok d \<and> (\<forall>k i. cache_abs d k = Some i \<longrightarrow> itemValue i < Suc (length (heap s)))"
    for d :: "nat shardedCache"
  have set: "good (Cache_Set i (length (heap s)) now d)" if "good d" for d
    using that by (auto simp: good_def Cache_Set_refine)
  have g: "good (StorageLocalStates s)" "good (Cache_Delete i (StorageLocalStates s))"
    using v ok by (auto simp: good_def Cache_Delete_refine)
  consider "l = length (heap s)" "StorageLocalStates s' = Cache_Set i l now (StorageLocalStates s)"
    | "l = length (heap s)" "StorageLocalStates s' = Cache_Set i l now (Cache_Delete i (StorageLocalStates s))"
    | x where "cache_abs (StorageLocalStates s) i = Some x" "l = itemValue x" "StorageLocalStates s' = StorageLocalStates s"
    using c [symmetric] unfolding Cache_LoadOrStore_set [OF ok] by (auto split: option.splits if_splits)
  then have "good (StorageLocalStates s') \<and> l < Suc (length (heap s))"
    by cases (use g v set in auto)
  then show ?thesis by (simp add: locals_ok_def good_def f(1))
qed

lemma locals_ok_forget: "locals_ok s \<Longrightarrow> locals_ok (forget_local i s)"
  by (simp add: locals_ok_def forget_local_def Cache_Delete_refine)

lemma locals_ok_clean:
  "locals_ok s \<Longrightarrow> locals_ok (s\<lparr>StorageLocalStates := Cache_Cleanup clk (StorageLocalStates s)\<rparr>)"
  by (auto simp: locals_ok_def Cache_Cleanup_refine split: option.splits if_splits)

lemma ran_map: "map runnedHandler (heap s) = map runnedHandler (heap s') \<Longrightarrow> ran s = ran s'"
  unfolding ran_def using nth_map [of _ "heap s" runnedHandler] nth_map [of _ "heap s'" runnedHandler]
  by (metis (no_types, lifting) length_map)

text \<open>One step: the references stay good, and the local states that have run their handler grow
  by those the step starts, which are new.\<close>

lemma step_task_ok:
  assumes "locals_ok s" "tasks_ok [t] s" "step_task t s = (ts, s')"
  shows "locals_ok s' \<and> tasks_ok ts s' \<and> length (heap s) \<le> length (heap s') \<and>
    ran s' = ran s \<union> fst ` set (started t s) \<and> distinct (map fst (started t s)) \<and>
    ran s \<inter> fst ` set (started t s) = {}"
proof (cases t)
  case (Checked tr m)
  obtain l s1 where l: "load_local (local_id m) tr s = (l, s1)" by fastforce
  have "ran s1 = ran s"
    using load_local_fields(1) [OF l] by (auto simp: ran_def nth_append newLocalState_def less_Suc_eq)
  then show ?thesis
    using assms l locals_ok_load [OF assms(1) l] load_local_fields(1) [OF l] Checked
    by (auto simp: started_def tasks_ok_def)
next
  case (Bound l m)
  obtain a s1 where p: "processMessage l m s = (a, s1)" by fastforce
  have s': "s' = s1" "ts = [] \<or> ts = [Locked l] \<or> (\<exists>m r. ts = [Spawned l m r])"
    using assms(3) Bound p by (auto split: option.splits ls_action.splits)
  note f = processMessage_fields [of l m s, unfolded p snd_conv]
  have len: "length (heap s1) = length (heap s)" using f(2) by (metis length_map)
  show ?thesis
    using assms(1,2) f(1) len s' ran_map [OF f(2)] Bound by (auto simp: locals_ok_def started_def tasks_ok_def)
next
  case (Spawned l m r)
  then have l: "l < length (heap s)" using assms(2) by (simp add: tasks_ok_def)
  then have "ran (start_handler l s) = insert l (ran s)"
    by (auto simp: ran_def start_handler_def nth_list_update split: if_splits)
  then show ?thesis
    using assms l Spawned
    by (auto simp: started_def tasks_ok_def locals_ok_def start_handler_def ran_def split: if_splits)
next
  case (Running l m r)
  obtain out s1 where p: "localRespHandler l m r s = (out, s1)" by fastforce
  then have "heap s1 = heap s" "StorageLocalStates s1 = StorageLocalStates s"
    using localRespHandler_fields [of l m r s] by simp_all
  then show ?thesis
    using assms p Running by (auto simp: locals_ok_def started_def tasks_ok_def ran_def Let_def split: if_splits)
next
  case (Arrived tr m)
  obtain d s1 where p: "already_processed (local_id m) s = (d, s1)" by fastforce
  then have "heap s1 = heap s" "StorageLocalStates s1 = StorageLocalStates s"
    using already_processed_fields [of "local_id m" s] by simp_all
  then show ?thesis
    using assms p Arrived by (auto simp: locals_ok_def started_def tasks_ok_def ran_def Let_def split: if_splits)
next
  case (Finished i)
  then show ?thesis
    using assms locals_ok_forget [OF assms(1), of i]
    by (auto simp: started_def tasks_ok_def ran_def forget_local_def)
next
  case (Forgotten i)
  then show ?thesis
    using assms mark_processed_fields [of i s]
    by (auto simp: started_def tasks_ok_def ran_def locals_ok_def)
qed (use assms in \<open>auto simp: started_def tasks_ok_def ran_def\<close>)

lemma tasks_ok_append: "tasks_ok (us @ vs) s \<longleftrightarrow> tasks_ok us s \<and> tasks_ok vs s"
  by (auto simp: tasks_ok_def)

lemma tasks_ok_mono: "tasks_ok ts s \<Longrightarrow> length (heap s) \<le> length (heap s') \<Longrightarrow> tasks_ok ts s'"
  unfolding tasks_ok_def using order_less_le_trans by blast

lemma serving_ok:
  "serving h ts s \<Longrightarrow> locals_ok s \<and> tasks_ok ts s \<and> ran s = fst ` set h \<and> distinct (map fst h)"
proof (induction rule: serving.induct)
  case (Init s)
  then show ?case
    using cache_ok_new [of localsTTL]
    by (simp add: locals_ok_def tasks_ok_def ran_def cache_abs_def shard_def newShardedCache_def shard_index_less)
next
  case (Step h us t vs s ts s')
  then have t: "locals_ok s" "tasks_ok [t] s" "tasks_ok us s" "tasks_ok vs s"
    using tasks_ok_append [of us "[t] @ vs"] tasks_ok_append [of "[t]" vs] by auto
  from step_task_ok [OF t(1,2) Step(2)] show ?case
    using Step t(3,4) tasks_ok_mono [of us s s'] tasks_ok_mono [of vs s s']
    by (auto simp: tasks_ok_append)
next
  case (Clean h ts s clk)
  then show ?case using locals_ok_clean [of s clk] by (simp add: tasks_ok_def ran_def)
qed (auto simp: locals_ok_def tasks_ok_def ran_def)

subsection \<open>Feeding blocks\<close>

text \<open>The messages of one local state, one after the other, past the security layer.\<close>

fun feed :: "transport \<Rightarrow> bytes list \<Rightarrow> coap_msg list \<Rightarrow> block_buffer \<Rightarrow> env \<Rightarrow> ls_action list \<times> block_buffer \<times> env" where
  "feed tr chans [] bb e = ([], bb, e)"
| "feed tr chans (m # ms) bb e =
    (let ((a, bb), e) = localStateMessageHandlerSelector tr chans bb m e;
         (as, bb, e) = feed tr chans ms bb e
     in (a # as, bb, e))"

lemma selector_block1:
  assumes "GetBlock1 m = Some blk" "MType m = CON" "Payload m = Some p"
  shows "fst (localStateMessageHandlerSelector tr chans bb m e) =
    (let bb = receive_block blk (Bytes p) bb
     in (if buffer_complete bb then Spawn (m\<lparr>Payload := Some (BytesPayload (buffer_body bb))\<rparr>) None else NoAction, bb))"
  using assms by (simp add: localStateMessageHandlerSelector_def localStateReceiveARQBlock1_def Let_def split_beta)

lemma feed_blocks:
  assumes "\<forall>m \<in> set ms. MType m = CON \<and> GetBlock1 m \<noteq> None \<and> Payload m \<noteq> None"
  shows "fst (feed tr chans ms bb e) =
    map (\<lambda>j. let b = fold (\<lambda>m. receive_block (the (GetBlock1 m)) (frame m)) (take (Suc j) ms) bb
             in if buffer_complete b then Spawn ((ms ! j)\<lparr>Payload := Some (BytesPayload (buffer_body b))\<rparr>) None
                else NoAction) [0 ..< length ms]"
  using assms
proof (induction ms arbitrary: bb e)
  case (Cons m ms)
  then obtain blk p where m: "GetBlock1 m = Some blk" "Payload m = Some p" "MType m = CON" by auto
  obtain a b e1 where s: "localStateMessageHandlerSelector tr chans bb m e = ((a, b), e1)"
    by (metis prod.exhaust)
  have f: "frame m = Bytes p" using m(2) by (simp add: frame_def)
  have b: "b = receive_block blk (Bytes p) bb"
    "a = (if buffer_complete b then Spawn (m\<lparr>Payload := Some (BytesPayload (buffer_body b))\<rparr>) None else NoAction)"
    using selector_block1 [OF m(1,3,2), of tr chans bb e] s by (simp_all add: Let_def)
  have r: "[0 ..< length (m # ms)] = 0 # map Suc [0 ..< length ms]"
    by (simp add: upt_conv_Cons map_Suc_upt del: upt_Suc)
  have IH: "fst (feed tr chans ms b e1) =
    map (\<lambda>j. let b' = fold (\<lambda>m. receive_block (the (GetBlock1 m)) (frame m)) (take (Suc j) ms) b
             in if buffer_complete b' then Spawn ((ms ! j)\<lparr>Payload := Some (BytesPayload (buffer_body b'))\<rparr>) None
                else NoAction) [0 ..< length ms]"
    using Cons.prems by (intro Cons.IH) simp
  show ?case
    unfolding r list.map map_map comp_def take_Suc_Cons fold_simps nth_Cons_Suc
    using s m f b IH by (simp add: Let_def split_beta)
qed simp

lemma construct_blocks_payload:
  assumes "construct_blocks bt s g = Some r"
  shows "\<forall>m \<in> set (fst r). Payload m \<noteq> None"
proof (rule construct_blocks.raw_induct [where P = "\<lambda>bt s g r. \<forall>m \<in> set (fst r). Payload m \<noteq> None", OF _ assms])
  fix f bt s g r
  assume IH: "\<And>bt s g r. f bt s g = Some r \<Longrightarrow> \<forall>m \<in> set (fst r). Payload m \<noteq> None"
    and r: "(let ((blockMessage, fin), s, g) = constructNextBlock bt s g
       in if fin then Some ([blockMessage], g)
          else Option.bind (f bt s g) (\<lambda>(msgs, g). Some (blockMessage # msgs, g))) = Some r"
  have "Payload (fst (fst (constructNextBlock bt s g))) \<noteq> None"
    by (simp add: constructNextBlock_def newBlockingMessage_def Let_def split_beta)
  then show "\<forall>m \<in> set (fst r). Payload m \<noteq> None"
    using r IH by (auto simp: Let_def split_beta split: if_splits Option.bind_splits)
qed

subsection \<open>A scheduler\<close>

text \<open>Runs the tasks in a given order: each number is the position of the next task to take a step.\<close>

fun schedule :: "nat list \<Rightarrow> (nat \<times> coap_msg) list \<times> task list \<times> server_state
    \<Rightarrow> (nat \<times> coap_msg) list \<times> task list \<times> server_state" where
  "schedule [] x = x"
| "schedule (i # is) (h, ts, s) =
    (if i < length ts then
       let (ts', s') = step_task (ts ! i) s
       in schedule is (h @ started (ts ! i) s, take i ts @ ts' @ drop (Suc i) ts, s')
     else schedule is (h, ts, s))"

lemma schedule_serving:
  "serving h ts s \<Longrightarrow> schedule is (h, ts, s) = (h', ts', s') \<Longrightarrow> serving h' ts' s'"
proof (induction "is" arbitrary: h ts s)
  case (Cons i "is")
  obtain us u where u: "step_task (ts ! i) s = (us, u)" by fastforce
  show ?case
  proof (cases "i < length ts")
    case True
    then have "serving h (take i ts @ ts ! i # drop (Suc i) ts) s" using Cons.prems(1) by (simp add: id_take_nth_drop [symmetric])
    from serving.Step [OF this u] show ?thesis using Cons True u by simp
  qed (use Cons in simp)
qed simp

subsection \<open>A plain request, step by step\<close>

text \<open>No handshake, no coaps scheme, no block, and not an answer about a lost session.\<close>

definition plain_message :: "coap_msg \<Rightarrow> bool" where
  "plain_message m \<longleftrightarrow> GetOption m OptionHandshakeType = None \<and> GetScheme m \<noteq> COAPS_SCHEME \<and>
     MCode m \<noteq> CoapCodeUnauthorized \<and> GetBlock1 m = None \<and> GetBlock2 m = None"

lemma step_Arrived:
  assumes "cache_abs (ProcessedMessages s) (local_id m) = None"
  shows "step_task (Arrived tr m) s = ([Checked tr m], s\<lparr>senv := snd (tick (senv s))\<rparr>)"
  using assms by (simp add: already_processed_def tick_server_def Let_def split_beta Cache_Get_delete)

lemma step_Checked:
  assumes "cache_ok (StorageLocalStates s)" "cache_abs (StorageLocalStates s) (local_id m) = None"
  shows "step_task (Checked tr m) s = ([Bound (length (heap s)) m],
    s\<lparr>heap := heap s @ [newLocalState tr], senv := snd (tick (senv s)),
      StorageLocalStates := Cache_Set (local_id m) (length (heap s)) (next_now (senv s)) (StorageLocalStates s)\<rparr>)"
  using assms(2) by (simp add: load_local_def MakeLocalStateFn_def tick_server_def Let_def split_beta
      Cache_LoadOrStore_set [OF assms(1)] flip: cache_abs_def)

lemma step_Bound:
  assumes "plain_message m" "l < length (heap s)"
  shows "step_task (Bound l m) s = ([Spawned l m None], s\<lparr>senv := inc MetricReceivedMessages (senv s)\<rparr>)"
proof -
  have "localStateSecurityInputLayer (ls_tr (heap s ! l)) m [] (senv s) = (Some (True, None, m), senv s)"
    using assms(1) by (simp add: localStateSecurityInputLayer_def withProxyID_def receiveHandshake_def
        handleCoapsScheme_def received_error_def plain_message_def return_def)
  then show ?thesis
    using assms by (simp add: processMessage_def localStateMessageHandlerSelector_def plain_message_def)
qed

lemma step_Running:
  assumes "\<not> bq_Has m (bq s)"
    and "requestOnReceive (getResourceForPathAndMethod (GetURIPath m) (GetMethod m) (resources s))
           (ls_tr (heap s ! l)) m (senv s) = (Some x, e)"
  shows "step_task (Running l m None) s = ([Finished (local_id m)], s\<lparr>senv := e\<rparr>)"
  using assms by (simp add: localRespHandler_def)

lemma schedule_Cons: "schedule (i # is) (h, ts, s) =
    (if i < length ts then
       schedule is (h @ started (ts ! i) s, take i ts @ fst (step_task (ts ! i) s) @ drop (Suc i) ts, snd (step_task (ts ! i) s))
     else schedule is (h, ts, s))"
  by (simp add: split_beta Let_def)

lemma schedule_head: "step_task t s = (us, s') \<Longrightarrow>
    schedule (0 # is) (h, t # ts, s) = schedule is (h @ started t s, us @ ts, s')"
  by (simp add: schedule_Cons)

lemma schedule_second: "step_task t s = (us, s') \<Longrightarrow>
    schedule (1 # is) (h, u # t # ts, s) = schedule is (h @ started t s, u # us @ ts, s')"
  by (simp add: schedule_Cons)

lemma started_none [simp]:
  "started (Arrived tr m) s = []" "started (Finished i) s = []" "started (Forgotten i) s = []"
  by (simp_all add: started_def)

text \<open>The five steps from the entry in the table to the end of the handler.\<close>

lemma schedule_handle:
  assumes "plain_message m" "cache_ok (StorageLocalStates s)" "cache_abs (StorageLocalStates s) (local_id m) = None"
    and "\<not> bq_Has m (bq s)"
    and "requestOnReceive (getResourceForPathAndMethod (GetURIPath m) (GetMethod m) (resources s)) tr m
           (inc MetricReceivedMessages (snd (tick (senv s)))) = (Some x, e)"
  shows "schedule (0 # 0 # 0 # 0 # is) (h, Checked tr m # ts, s) =
    schedule is (h @ [(length (heap s), m)], Finished (local_id m) # ts,
      s\<lparr>heap := heap s @ [(newLocalState tr)\<lparr>runnedHandler := True\<rparr>], senv := e,
        StorageLocalStates := Cache_Set (local_id m) (length (heap s)) (next_now (senv s)) (StorageLocalStates s)\<rparr>)"
proof -
  let ?l = "length (heap s)"
  let ?s1 = "s\<lparr>heap := heap s @ [newLocalState tr], senv := snd (tick (senv s)),
      StorageLocalStates := Cache_Set (local_id m) ?l (next_now (senv s)) (StorageLocalStates s)\<rparr>"
  let ?s2 = "?s1\<lparr>senv := inc MetricReceivedMessages (senv ?s1)\<rparr>"
  let ?s3 = "?s2\<lparr>heap := heap s @ [(newLocalState tr)\<lparr>runnedHandler := True\<rparr>]\<rparr>"
  have 2: "step_task (Bound ?l m) ?s1 = ([Spawned ?l m None], ?s2)"
    by (rule step_Bound [OF assms(1)]) simp
  have n: "heap ?s2 ! ?l = newLocalState tr" "\<not> runnedHandler (newLocalState tr)"
    by (simp_all add: newLocalState_def)
  have 3: "step_task (Spawned ?l m None) ?s2 = ([Running ?l m None], ?s3)"
    using n by (simp add: start_handler_def)
  have "ls_tr (heap ?s3 ! ?l) = tr" by (simp add: newLocalState_def)
  then have 4: "step_task (Running ?l m None) ?s3 = ([Finished (local_id m)], ?s3\<lparr>senv := e\<rparr>)"
    using assms(4,5) by (intro step_Running) simp_all
  have st: "started (Spawned ?l m None) ?s2 = [(?l, m)]" using n by (simp add: started_def)
  show ?thesis
    unfolding schedule_head [OF step_Checked [OF assms(2,3)]] append.simps schedule_head [OF 2]
      schedule_head [OF 3] schedule_head [OF 4] st
    by (cases s) (simp add: started_def)
qed

subsection \<open>Two handlers for one request\<close>

definition sample_server :: server_state where
  "sample_server = \<lparr>resources = [], heap = [], StorageLocalStates = newShardedCache localsTTL,
     ProcessedMessages = newShardedCache processedTTL, bq = new_backward, block2channels = [], senv = sample_env\<rparr>"

definition sample_non :: coap_msg where
  "sample_non = zero_msg\<lparr>MType := NON, MCode := GET, Token := [7], Sender := Some (lit ''p:1'')\<rparr>"

lemma cache_abs_new: "cache_abs (newShardedCache t) k = None"
  by (simp add: cache_abs_def shard_def newShardedCache_def shard_index_less)

lemma sample_server_simps:
  "cache_ok (StorageLocalStates sample_server)" "cache_abs (StorageLocalStates sample_server) k = None"
  "cache_ok (ProcessedMessages sample_server)" "cache_abs (ProcessedMessages sample_server) k = None"
  "ttl (ProcessedMessages sample_server) = processedTTL" "bq sample_server = new_backward" "heap sample_server = []"
  "senv sample_server = sample_env"
  using cache_ok_new [of localsTTL, where 'a = nat] cache_ok_new [of processedTTL, where 'a = unit]
    cache_abs_new [of localsTTL, where 'a = nat] cache_abs_new [of processedTTL, where 'a = unit]
  by (simp_all add: sample_server_def) (simp add: newShardedCache_def)

lemma sample_non_plain: "plain_message sample_non"
  unfolding plain_message_def by code_simp

lemma no_waiters: "\<not> bq_Has m new_backward"
  by (simp add: bq_Has_def new_backward_def)

text \<open>Nothing is registered, and a non-confirmable request for no resource is not answered.\<close>

lemma sample_non_request:
  "requestOnReceive (getResourceForPathAndMethod p k []) tr sample_non e = (Some False, e)"
proof -
  have "\<not> MCode sample_non > 4" "\<not> isPing sample_non" "MType sample_non \<noteq> CON" by code_simp+
  then show ?thesis
    by (simp add: requestOnReceive_def getResourceForPathAndMethod_def return_def del: type_defs code_defs)
qed

lemma handle_sample:
  assumes "resources s = []" "bq s = new_backward" "cache_ok (StorageLocalStates s)"
    and "cache_abs (StorageLocalStates s) (local_id sample_non) = None"
  obtains s' now where "\<And>is h ts. schedule (0 # 0 # 0 # 0 # is) (h, Checked tr sample_non # ts, s) =
      schedule is (h @ [(length (heap s), sample_non)], Finished (local_id sample_non) # ts, s')"
    "resources s' = []" "bq s' = new_backward" "length (heap s') = Suc (length (heap s))"
    "StorageLocalStates s' = Cache_Set (local_id sample_non) (length (heap s)) now (StorageLocalStates s)"
proof -
  let ?e = "inc MetricReceivedMessages (snd (tick (senv s)))"
  have n: "\<not> bq_Has sample_non (bq s)" using no_waiters assms(2) by simp
  have "requestOnReceive (getResourceForPathAndMethod (GetURIPath sample_non) (GetMethod sample_non) (resources s)) tr
      sample_non ?e = (Some False, ?e)"
    unfolding assms(1) by (rule sample_non_request)
  note h = schedule_handle [OF sample_non_plain assms(3,4) n this]
  show ?thesis by (rule that, rule h) (simp_all add: assms)
qed

text \<open>
  The check and the table do not exclude a second handler for one request: a
  retransmission that passes the check before the first handler is done finds no local
  state once it has been deleted, gets a new one, and its handler runs as well.
\<close>

lemma request_handled_twice:
  "\<exists>ts s. serving [(0, sample_non), (1, sample_non)] ts s"
proof -
  let ?m = sample_non and ?tr = sample_transport and ?s = sample_server
  let ?i = "local_id ?m"
  let ?s1 = "?s\<lparr>senv := snd (tick sample_env)\<rparr>"
  let ?s2 = "?s1\<lparr>senv := snd (tick (senv ?s1))\<rparr>"
  have 0: "resources ?s2 = []" "bq ?s2 = new_backward" "cache_ok (StorageLocalStates ?s2)"
    "cache_abs (StorageLocalStates ?s2) ?i = None" "length (heap ?s2) = 0"
    by (simp_all add: sample_server_simps) (simp add: sample_server_def)
  have 1: "step_task (Arrived ?tr ?m) ?s = ([Checked ?tr ?m], ?s1)"
    using step_Arrived [of ?s ?m ?tr] by (simp add: sample_server_simps)
  have 2: "step_task (Arrived ?tr ?m) ?s1 = ([Checked ?tr ?m], ?s2)"
    using step_Arrived [of ?s1 ?m ?tr] by (simp add: sample_server_simps)
  obtain s3 t3 where 3: "\<And>is h ts. schedule (0 # 0 # 0 # 0 # is) (h, Checked ?tr ?m # ts, ?s2) =
      schedule is (h @ [(0, ?m)], Finished ?i # ts, s3)"
    "resources s3 = []" "bq s3 = new_backward" "length (heap s3) = 1"
    "StorageLocalStates s3 = Cache_Set ?i 0 t3 (StorageLocalStates ?s2)"
    using handle_sample [OF 0(1-4), of ?tr] 0(5) by (metis One_nat_def)
  let ?s4 = "mark_processed ?i (forget_local ?i s3)"
  have 4: "resources ?s4 = []" "bq ?s4 = new_backward" "length (heap ?s4) = 1"
    "cache_ok (StorageLocalStates ?s4)" "cache_abs (StorageLocalStates ?s4) ?i = None"
    using 3(2-5) 0(3) by (simp_all add: mark_processed_def forget_local_def tick_server_def split_beta Let_def
        Cache_Delete_refine Cache_Set_refine)
  obtain s5 where 5: "\<And>is h ts. schedule (0 # 0 # 0 # 0 # is) (h, Checked ?tr ?m # ts, ?s4) =
      schedule is (h @ [(1, ?m)], Finished ?i # ts, s5)"
    using handle_sample [OF 4(1,2,4,5), of ?tr] 4(3) by metis
  have "schedule [0, 1, 0, 0, 0, 0, 0, 0, 0, 0, 0, 0] ([], [Arrived ?tr ?m, Arrived ?tr ?m], ?s) =
      ([(0, ?m), (1, ?m)], [Finished ?i], s5)"
    unfolding schedule_head [OF 1] append.simps started_none schedule_second [OF 2] 3(1)
      schedule_head [OF step_task.simps(6)] schedule_head [OF step_task.simps(7)] 5 append_Nil2
    by (rule schedule.simps(1))
  moreover have "serving [] [Arrived ?tr ?m, Arrived ?tr ?m] ?s"
    by (intro serving.Arrive serving.Init) (simp_all add: sample_server_def)
  ultimately show ?thesis using schedule_serving by blast
qed

subsection \<open>Properties\<close>

text \<open>C6: Whatever messages arrive and however the goroutines interleave, the handler of a local state
  is started at most once, however many of its messages complete the request; a local state has its flag set exactly
  when its handler was started.\<close>

theorem handler_at_most_once:
  assumes "serving h ts s"
  shows "distinct (map fst h) \<and>
    (\<forall>l. l \<in> fst ` set h \<longleftrightarrow> l < length (heap s) \<and> runnedHandler (heap s ! l)) \<and>
    (\<forall>k i. cache_abs (StorageLocalStates s) k = Some i \<longrightarrow> itemValue i < length (heap s))"
  using serving_ok [OF assms] by (auto simp: ran_def locals_ok_def)

theorem handler_at_most_once_witness:
  "\<exists>ts s. serving [(0, sample_non), (1, sample_non)] ts s \<and> runnedHandler (heap s ! 0) \<and> runnedHandler (heap s ! 1)"
proof -
  obtain ts s where s: "serving [(0, sample_non), (1, sample_non)] ts s" using request_handled_twice by blast
  from handler_at_most_once [OF s] have "\<forall>l. l \<in> {0, 1} \<longleftrightarrow> l < length (heap s) \<and> runnedHandler (heap s ! l)"
    by simp
  then show ?thesis using s by blast
qed

text \<open>C31: A request that was handled is remembered for ten seconds: while other messages are processed and the cache is cleaned,
  its retransmissions are dropped without a local state, a handler or a datagram; afterwards
  they count as new.\<close>

theorem retransmission_dropped:
  assumes "cache_ok (ProcessedMessages s)" "ttl (ProcessedMessages s) = processedTTL"
    and "list_all (spares (local_id m) (next_now (senv s) + processedTTL)) ops"
    and "ProcessedMessages s2 = snd (run_ops cache_step ops (ProcessedMessages (snd (step_task (Forgotten (local_id m)) s))))"
  shows "fst (step_task (Arrived tr m) s2) =
      (if next_now (senv s2) \<le> next_now (senv s) + processedTTL then [] else [Checked tr m]) \<and>
    heap (snd (step_task (Arrived tr m) s2)) = heap s2 \<and>
    StorageLocalStates (snd (step_task (Arrived tr m) s2)) = StorageLocalStates s2 \<and>
    same_net (senv s2) (senv (snd (step_task (Arrived tr m) s2)))"
proof -
  let ?i = "\<lparr>itemValue = (), expiresAt = next_now (senv s) + processedTTL\<rparr>"
  let ?c = "ProcessedMessages (snd (step_task (Forgotten (local_id m)) s))"
  have "?c = Cache_Set (local_id m) () (next_now (senv s)) (ProcessedMessages s)"
    by (simp add: mark_processed_def tick_server_def split_beta Let_def)
  then have c: "cache_ok ?c" "cache_abs ?c (local_id m) = Some ?i"
    using assms(1,2) by (simp_all add: Cache_Set_refine)
  have "cache_abs (ProcessedMessages s2) (local_id m) = Some ?i"
    unfolding assms(4) by (rule run_ops_spares) (use c assms(3) in simp_all)
  then show ?thesis
    by (simp add: already_processed_def tick_server_def split_beta Let_def Cache_Get_delete not_le same_net_tick)
qed

theorem retransmission_dropped_witness:
  "fst (step_task (Arrived sample_transport sample_non) (snd (step_task (Forgotten (local_id sample_non)) sample_server))) = []"
proof -
  let ?s2 = "snd (step_task (Forgotten (local_id sample_non)) sample_server)"
  have t: "next_now (senv ?s2) \<le> next_now (senv sample_server) + processedTTL"
    by (simp add: mark_processed_def tick_server_def split_beta Let_def sample_server_simps next_now_def
        sample_env_def processedTTL_def second_def)
  have "ProcessedMessages ?s2 = snd (run_ops cache_step [] (ProcessedMessages ?s2))" by simp
  from retransmission_dropped [OF sample_server_simps(3,5) _ this, of sample_transport] t
  show ?thesis by simp
qed

text \<open>C15: A request in blocks reaches its handler whole: of its blocks, arriving in any order and
  with any repetitions, the one that completes the set starts a handler, with the payload of
  the request, and the earlier ones start none.\<close>

theorem server_reassembly:
  assumes "length (frame m) < 2 ^ 38"
    and "construct_blocks OptionBlock1 (new_state_send m) g = Some (msgs, g')" "set is \<subseteq> {..< length msgs}"
  shows "fst (feed tr chans (map ((!) msgs) is) new_buffer e) =
    map (\<lambda>j. if set (take (Suc j) is) = {..< length msgs}
             then Spawn ((msgs ! (is ! j))\<lparr>Payload := Some (BytesPayload (frame m))\<rparr>) None
             else NoAction) [0 ..< length is]"
proof -
  have c: "concat (map frame msgs) = frame m" "length msgs = max 1 ((length (frame m) + 1023) div 1024)"
    "\<forall>i < length msgs. MType (msgs ! i) = CON \<and> frame (msgs ! i) = take 1024 (drop (1024 * i) (frame m)) \<and>
       GetBlock1 (msgs ! i) = Some \<lparr>BlockNumber = int i, MoreBlocks = Suc i < length msgs, BlockSize = 1024\<rparr>"
    using segmented [OF disjI1 [OF refl] assms(1), of g] assms(2) unfolding get_block_cases by auto
  let ?ms = "map ((!) msgs) is"
  have p: "Payload (msgs ! i) \<noteq> None" if "i < length msgs" for i
    using construct_blocks_payload [OF assms(2)] that by simp
  have ms: "\<forall>m \<in> set ?ms. MType m = CON \<and> GetBlock1 m \<noteq> None \<and> Payload m \<noteq> None"
    using c(3) p assms(3) by auto
  have fold: "fold (\<lambda>m. receive_block (the (GetBlock1 m)) (frame m)) (take (Suc j) ?ms) new_buffer =
      receive_all (\<lambda>i. the (GetBlock1 (msgs ! i))) (\<lambda>i. frame (msgs ! i)) (take (Suc j) is)" for j
    by (simp add: receive_all_def take_map fold_map comp_def)
  have b: "\<forall>i \<in> set (take (Suc j) is). BlockNumber (the (GetBlock1 (msgs ! i))) = int i \<and>
      (MoreBlocks (the (GetBlock1 (msgs ! i))) \<longleftrightarrow> Suc i < length msgs) \<and> i < length msgs" for j
  proof
    fix i assume "i \<in> set (take (Suc j) is)"
    then have "i < length msgs" using assms(3) by (auto dest: in_set_takeD)
    then show "BlockNumber (the (GetBlock1 (msgs ! i))) = int i \<and>
        (MoreBlocks (the (GetBlock1 (msgs ! i))) \<longleftrightarrow> Suc i < length msgs) \<and> i < length msgs"
      using c(3) by simp
  qed
  have n: "length msgs > 0" using c(2) by simp
  have "map (\<lambda>i. frame (msgs ! i)) [0 ..< length msgs] = map frame msgs"
    using arg_cong [OF map_nth [of msgs], of "map frame"] by (simp add: comp_def)
  then have body: "concat (map (\<lambda>i. frame (msgs ! i)) [0 ..< length msgs]) = frame m" using c(1) by simp
  show ?thesis
    unfolding feed_blocks [OF ms] fold length_map
    by (rule map_cong) (simp_all add: Let_def receive_all_complete [OF b n] body)
qed

theorem server_reassembly_witness:
  "\<exists>msgs g' m. construct_blocks OptionBlock1 (new_state_send (zero_msg\<lparr>Payload := Some (BytesPayload (replicate 1500 7))\<rparr>))
      \<lparr>currentMessageID = 0, rand_stream = of_nat, rand_pos = 0\<rparr> = Some (msgs, g') \<and>
    fst (feed sample_transport [] (map ((!) msgs) [1, 1, 0]) new_buffer sample_env) = [NoAction, NoAction, Spawn m None] \<and>
    frame m = replicate 1500 7"
proof -
  let ?m = "zero_msg\<lparr>Payload := Some (BytesPayload (replicate 1500 7))\<rparr>"
  have f: "frame ?m = replicate 1500 7" by (simp add: frame_def)
  then have l: "length (frame ?m) < 2 ^ 38" by simp
  obtain msgs g' where m: "construct_blocks OptionBlock1 (new_state_send ?m)
      \<lparr>currentMessageID = 0, rand_stream = of_nat, rand_pos = 0\<rparr> = Some (msgs, g')"
    "length msgs = max 1 ((length (frame ?m) + 1023) div 1024)"
    using segmented [OF disjI1 [OF refl] l] by blast
  have "length msgs = 2" using m(2) unfolding f by simp
  then have s: "{..< length msgs} = {0, 1}" by auto
  have i: "[0 ..< length [1, 1, 0 :: nat]] = [0, 1, 2]" by simp
  have "set [1, 1, 0] \<subseteq> {..< length msgs}" unfolding s by simp
  from server_reassembly [OF l m(1) this, of sample_transport "[]" sample_env]
  have "fst (feed sample_transport [] (map ((!) msgs) [1, 1, 0]) new_buffer sample_env) =
      [NoAction, NoAction, Spawn ((msgs ! 0)\<lparr>Payload := Some (BytesPayload (replicate 1500 7))\<rparr>) None]"
    unfolding f s i by (simp add: insert_commute del: feed.simps)
  moreover have "frame ((msgs ! 0)\<lparr>Payload := Some (BytesPayload (replicate 1500 7))\<rparr>) = replicate 1500 7"
    by (simp add: frame_def)
  ultimately show ?thesis using m(1) by blast
qed

text \<open>C32: A request without blocks, served with no other step in between, has its handler
  started exactly once and is answered by it; afterwards its local state is gone and the
  request is remembered.\<close>

theorem plain_request_served:
  assumes "plain_message m" "cache_ok (StorageLocalStates s)" "cache_ok (ProcessedMessages s)"
    and "cache_abs (StorageLocalStates s) (local_id m) = None" "cache_abs (ProcessedMessages s) (local_id m) = None"
    and "\<not> bq_Has m (bq s)"
    and "requestOnReceive (getResourceForPathAndMethod (GetURIPath m) (GetMethod m) (resources s)) tr m
           (inc MetricReceivedMessages (snd (tick (snd (tick (senv s)))))) = (Some x, e)"
  shows "\<exists>s'. schedule (replicate 7 0) (h, [Arrived tr m], s) = (h @ [(length (heap s), m)], [], s') \<and>
    senv s' = snd (tick e) \<and> cache_abs (StorageLocalStates s') (local_id m) = None \<and>
    cache_abs (ProcessedMessages s') (local_id m) =
      Some \<lparr>itemValue = (), expiresAt = next_now e + ttl (ProcessedMessages s)\<rparr>"
proof -
  let ?s1 = "s\<lparr>senv := snd (tick (senv s))\<rparr>"
  have r: "replicate 7 (0 :: nat) = [0, 0, 0, 0, 0, 0, 0]" by (simp add: numeral_eq_Suc)
  have c: "cache_ok (StorageLocalStates ?s1)" "cache_abs (StorageLocalStates ?s1) (local_id m) = None"
    "\<not> bq_Has m (bq ?s1)" using assms by simp_all
  have q: "requestOnReceive (getResourceForPathAndMethod (GetURIPath m) (GetMethod m) (resources ?s1)) tr m
      (inc MetricReceivedMessages (snd (tick (senv ?s1)))) = (Some x, e)" using assms(7) by simp
  show ?thesis
    unfolding r schedule_head [OF step_Arrived [OF assms(5)]] append.simps started_none append_Nil2
      schedule_handle [OF assms(1) c q] schedule_head [OF step_task.simps(6)] schedule_head [OF step_task.simps(7)]
    using assms(2,3)
    by (simp add: mark_processed_def forget_local_def tick_server_def split_beta Let_def Cache_Set_refine Cache_Delete_refine)
qed

theorem plain_request_served_witness:
  "\<exists>s'. schedule (replicate 7 0) ([], [Arrived sample_transport sample_non], sample_server) = ([(0, sample_non)], [], s')"
proof -
  have r: "resources sample_server = []" by (simp add: sample_server_def)
  have n: "\<not> bq_Has sample_non (bq sample_server)" using no_waiters by (simp add: sample_server_simps)
  have q: "requestOnReceive (getResourceForPathAndMethod (GetURIPath sample_non) (GetMethod sample_non) (resources sample_server))
      sample_transport sample_non (inc MetricReceivedMessages (snd (tick (snd (tick (senv sample_server)))))) =
      (Some False, inc MetricReceivedMessages (snd (tick (snd (tick (senv sample_server))))))"
    unfolding r by (rule sample_non_request)
  from plain_request_served [OF sample_non_plain sample_server_simps(1,3,2,4) n q, of "[]"]
  show ?thesis by (auto simp: sample_server_simps)
qed

end
