(* ===== verification/Session_Invariant.thy ===== *)
theory Session_Invariant
  imports Local_State Client_Send
begin

text \<open>
  The invariant of the session pools: every stored session has derived its keys, and its
  public key belongs to its private key. The uses of a session that would dereference a nil
  AEAD are unreachable under it, and no message can make the security layer wait.
\<close>

subsection \<open>The invariant\<close>

definition stored_ok :: "crypto \<Rightarrow> SecuredSession \<Rightarrow> bool" where
  "stored_ok cr s \<longleftrightarrow> session_ok cr s \<and> SAEAD s \<noteq> None"

text \<open>\<open>crypto/rand\<close> fills the 32 bytes it is asked for.\<close>

definition sessions_ok :: "crypto \<Rightarrow> env \<Rightarrow> bool" where
  "sessions_ok cr e \<longleftrightarrow> (\<forall>i r. crand e i = Some r \<longrightarrow> length r = 32) \<and> cache_ok (sessions e) \<and>
     (\<forall>k i. cache_abs (sessions e) k = Some i \<longrightarrow> stored_ok cr (itemValue i))"

text \<open>Operations that leave the pool and the random source alone.\<close>

definition same_sessions :: "env \<Rightarrow> env \<Rightarrow> bool" where
  "same_sessions e e' \<longleftrightarrow> sessions e' = sessions e \<and> crand e' = crand e"

lemma sessions_ok_same: "same_sessions e e' \<Longrightarrow> sessions_ok cr e' = sessions_ok cr e"
  by (simp add: same_sessions_def sessions_ok_def)

named_theorems keep_simps "operations that keep the invariant"

lemma sessions_ok_upd [keep_simps]:
  "sessions_ok cr (snd (tick e)) = sessions_ok cr e" "sessions_ok cr (inc c e) = sessions_ok cr e"
  "sessions_ok cr (wait_for d e) = sessions_ok cr e" "sessions_ok cr (snd (with_ids f e)) = sessions_ok cr e"
  "sessions_ok cr (snd (socket_write a b e)) = sessions_ok cr e"
  "sessions_ok cr (e\<lparr>chan := c'\<rparr>) = sessions_ok cr e" "sessions_ok cr (e\<lparr>ids := g\<rparr>) = sessions_ok cr e"
  "sessions_ok cr (e\<lparr>reads := rs\<rparr>) = sessions_ok cr e" "sessions_ok cr (e\<lparr>met := mt\<rparr>) = sessions_ok cr e"
  "sessions_ok cr (e\<lparr>crand_pos := p\<rparr>) = sessions_ok cr e"
  by (simp_all add: sessions_ok_def tick_def inc_def wait_for_def with_ids_def socket_write_def split_beta Let_def)

lemma sessions_ok_proxy [keep_simps]:
  "sessions_ok cr (snd (snd (setProxyIDIfNeed m a e))) = sessions_ok cr e"
  "sessions_ok cr (snd (withProxyID p a e)) = sessions_ok cr e"
  by (auto simp: setProxyIDIfNeed_def withProxyID_def getProxyIDIfNeed_def sessions_ok_def tick_def Let_def split_beta
      split: option.split)

lemma sessions_ok_write [keep_simps]: "sessions_ok cr (snd (write_counted a b e)) = sessions_ok cr e"
  by (auto simp: write_counted_def keep_simps Let_def split_beta split: option.split)

lemma sessions_ok_set: "sessions_ok cr e \<Longrightarrow> stored_ok cr s \<Longrightarrow> sessions_ok cr (e\<lparr>sessions := Cache_Set k s t (sessions e)\<rparr>)"
  by (simp add: sessions_ok_def Cache_Set_refine)

lemma sessions_ok_delete [keep_simps]: "sessions_ok cr e \<Longrightarrow> sessions_ok cr (deleteSessionForAddress a b c e)"
  by (simp add: sessions_ok_def deleteSessionForAddress_def Session_Delete_def Cache_Delete_refine)

lemma sessions_ok_setSession:
  "sessions_ok cr e \<Longrightarrow> stored_ok cr s \<Longrightarrow> sessions_ok cr (storeSession s a b c e)"
  "sessions_ok cr e \<Longrightarrow> stored_ok cr s \<Longrightarrow> sessions_ok cr (setSessionForAddress s a b c e)"
  using sessions_ok_set [of cr "snd (tick e)" s "session_key a b c" "fst (tick e)"]
  by (simp_all add: setSessionForAddress_def storeSession_def Session_Set_def keep_simps Let_def split_beta)

lemma sessions_ok_get:
  assumes "sessions_ok cr e" "getSessionForAddress a b c e = (so, e')"
  shows "sessions_ok cr e' \<and> (\<forall>s. so = Some s \<longrightarrow> stored_ok cr s)"
proof -
  let ?k = "session_key a b c"
  obtain now e1 where 1: "tick e = (now, e1)" by fastforce
  obtain now' e2 where 2: "tick e1 = (now', e2)" by fastforce
  have ok: "sessions_ok cr e1" "sessions_ok cr e2"
    using assms(1) 1 2 sessions_ok_upd(1) [of cr e] sessions_ok_upd(1) [of cr e1] by simp_all
  have same: "sessions e2 = sessions e1" using 2 by (auto simp: tick_def)
  have g: "Session_Get a b c now (sessions e1) = (case cache_abs (sessions e1) ?k of None \<Rightarrow> (None, sessions e1)
      | Some i \<Rightarrow> if now > expiresAt i then (None, Cache_Delete ?k (sessions e1)) else (Some (itemValue i), sessions e1))"
    by (simp add: Session_Get_def Cache_Get_delete)
  show ?thesis
  proof (cases "cache_abs (sessions e1) ?k")
    case None
    then have "so = None" "e' = e1\<lparr>sessions := sessions e1\<rparr>"
      using assms(2) 1 g by (simp_all add: getSessionForAddress_def)
    then show ?thesis using ok(1) by simp
  next
    case (Some i)
    show ?thesis
    proof (cases "now > expiresAt i")
      case True
      then have "so = None" "e' = e1\<lparr>sessions := Cache_Delete ?k (sessions e1)\<rparr>"
        using assms(2) 1 g Some by (simp_all add: getSessionForAddress_def)
      then show ?thesis using ok(1) by (auto simp: sessions_ok_def Cache_Delete_refine)
    next
      case False
      have s: "stored_ok cr (itemValue i)" using ok(1) Some by (simp add: sessions_ok_def)
      have "so = Some (itemValue i)" "e' = e2\<lparr>sessions := Cache_Set ?k (itemValue i) now' (sessions e2)\<rparr>"
        using assms(2) 1 2 g Some False same by (simp_all add: getSessionForAddress_def Session_Set_def)
      then show ?thesis using s sessions_ok_set [OF ok(2) s] by simp
    qed
  qed
qed

subsection \<open>Sending\<close>

lemma securityOutputLayer_ok:
  assumes "sessions_ok cr e" "securityOutputLayer tr m addr e = (r, m', e')"
  shows "sessions_ok cr e' \<and> r \<noteq> Some GoPanic"
proof (cases "GetScheme m = COAPS_SCHEME")
  case True
  obtain v m1 e1 where 1: "setProxyIDIfNeed m (tr_local tr) e = (v, m1, e1)" by (metis prod.exhaust)
  obtain p e2 where 2: "withProxyID (ProxyAddr m1) (tr_local tr) e1 = (p, e2)" by fastforce
  obtain so e3 where 3: "getSessionForAddress (tr_local tr) addr p e2 = (so, e3)" by fastforce
  have "sessions_ok cr e2"
    using assms(1) 1 2 sessions_ok_proxy(1) [of cr m "tr_local tr" e] sessions_ok_proxy(2) [of cr "ProxyAddr m1" "tr_local tr" e1]
    by simp
  from sessions_ok_get [OF this 3] show ?thesis
    using assms(2) True 1 2 3 by (auto simp: securityOutputLayer_def stored_ok_def split: option.splits)
qed (use assms in \<open>simp add: securityOutputLayer_def\<close>)

lemma preparationSendingMessage_ok:
  assumes "sessions_ok cr e" "preparationSendingMessage tr m addr e = (r, e')"
  shows "sessions_ok cr e' \<and> r \<noteq> Inl GoPanic"
proof -
  obtain c e1 where 1: "with_ids (Clone m True) e = (c, e1)" by fastforce
  obtain q c' e2 where 2: "securityOutputLayer tr c addr e1 = (q, c', e2)" by (metis prod.exhaust)
  have "sessions_ok cr e1" using assms(1) 1 sessions_ok_upd(4) [of cr "Clone m True" e] by simp
  from securityOutputLayer_ok [OF this 2] show ?thesis
    using assms(2) 1 2 by (auto simp: preparationSendingMessage_def Let_def split: option.splits)
qed

lemma sessions_ok_send:
  assumes "sessions_ok cr e"
  shows "sessions_ok cr (snd (sendToSocket tr m e))" "sessions_ok cr (snd (sendToSocketByAddress tr m addr e))"
proof -
  have w: "sessions_ok cr (snd (case preparationSendingMessage tr m a e of
      (Inl err, e) \<Rightarrow> (Some err, e) | (Inr d, e) \<Rightarrow> write_counted b d e))" for a b
  proof -
    obtain r e1 where p: "preparationSendingMessage tr m a e = (r, e1)" by fastforce
    then have "sessions_ok cr e1" using preparationSendingMessage_ok [OF assms p] by blast
    then show ?thesis using p by (cases r) (simp_all add: keep_simps)
  qed
  show "sessions_ok cr (snd (sendToSocket tr m e))" unfolding sendToSocket_def by (rule w)
  show "sessions_ok cr (snd (sendToSocketByAddress tr m addr e))" unfolding sendToSocketByAddress_def by (rule w)
qed

lemma sessions_ok_send_range:
  assumes "\<And>i s e. sessions_ok cr e \<Longrightarrow> sessions_ok cr (snd (snd (f i s e)))"
  shows "sessions_ok cr e \<Longrightarrow> sessions_ok cr (snd (snd (send_range f is s e)))"
proof (induction "is" arbitrary: s e)
  case (Cons i "is")
  obtain r s1 e1 where f: "f i s e = (r, s1, e1)" by (metis prod.exhaust)
  then have "sessions_ok cr e1" using assms [OF Cons.prems, of i s] by simp
  then show ?case using f Cons.IH by (cases r) simp_all
qed simp

lemma sessions_ok_packet:
  assumes "sessions_ok cr e"
  shows "sessions_ok cr (snd (snd (send_packet tr i s e)))" "sessions_ok cr (snd (snd (send_packet_to tr addr i s e)))"
  using assms by (simp_all add: send_packet_def send_packet_to_def count_retransmit_def Let_def split_beta keep_simps sessions_ok_send)

lemma sessions_ok_packets:
  "sessions_ok cr e \<Longrightarrow> sessions_ok cr (snd (snd (sendPackets tr s e)))"
  "sessions_ok cr e \<Longrightarrow> sessions_ok cr (snd (snd (sendPacketsToAddr tr addr s e)))"
  by (simp_all add: sendPackets_def sendPacketsToAddr_def sessions_ok_send_range sessions_ok_packet)

lemma sessions_ok_block2_step:
  assumes "sessions_ok cr e" "block2_step tr m a ev s e = (r, s', e')"
  shows "sessions_ok cr e'"
proof -
  have pass: "sessions_ok cr e1" if "sendPacketsToAddr tr a t f = (q, s1, e1)" "sessions_ok cr f" for t f q s1 e1
    using sessions_ok_packets(2) [OF that(2), of tr a t] that(1) by simp
  have w: "sessions_ok cr (wait_for timeWait e)" using assms(1) by (simp add: keep_simps)
  show ?thesis
    using assms(2,1) pass w by (cases ev) (auto simp: block2_step.simps Let_def split: if_splits option.splits prod.splits)
qed

lemma sessions_ok_block2_loop: "sessions_ok cr e \<Longrightarrow> sessions_ok cr (snd (block2_loop tr m a evs s e))"
proof (induction evs arbitrary: s e)
  case (Cons ev evs)
  obtain q s1 e1 where st: "block2_step tr m a ev s e = (q, s1, e1)" by (cases "block2_step tr m a ev s e")
  have "sessions_ok cr e1" by (rule sessions_ok_block2_step [OF Cons.prems st])
  then show ?case using st Cons.IH [of e1 s1] by (cases q) (simp_all add: block2_loop.simps(2) keep_simps)
qed (simp add: keep_simps)

lemma sessions_ok_SendTo: "sessions_ok cr e \<Longrightarrow> sessions_ok cr (snd (SendTo tr m a e))"
proof -
  assume ok: "sessions_ok cr e"
  have "sessions_ok cr (snd (sendARQBlock2ACK tr m a e))"
  proof -
    let ?st = "new_state_send m"
    obtain k e0 where k: "with_ids (newACKEmptyMessage m (windowsize ?st)) e = (k, e0)" by fastforce
    then have 0: "sessions_ok cr e0"
      using ok sessions_ok_upd(4) [of cr "newACKEmptyMessage m (windowsize ?st)" e] by simp
    obtain r1 e1 where e1: "sendToSocketByAddress tr k a e0 = (r1, e1)" by fastforce
    then have 1: "sessions_ok cr e1" using sessions_ok_send(2) [OF 0, of tr k a] by simp
    obtain msgs g' where c: "construct_blocks OptionBlock2 ?st (ids e1) = Some (msgs, g')"
      using construct_blocks_new by blast
    have 2: "sessions_ok cr (e1\<lparr>ids := g'\<rparr>)" using 1 by (simp add: keep_simps)
    obtain r2 s2 e2 where p: "sendPacketsToAddr tr a (new_arq msgs (windowsize ?st)) (e1\<lparr>ids := g'\<rparr>) = (r2, s2, e2)"
      by (metis prod.exhaust)
    have 3: "sessions_ok cr e2" using sessions_ok_packets(2) [OF 2, of tr a "new_arq msgs (windowsize ?st)"] p by simp
    show ?thesis
      using k e1 c p 1 3 sessions_ok_block2_loop [OF 3, of tr m a "chan e2" s2]
      by (cases r1; cases r2) (simp_all add: sendARQBlock2ACK_def Let_def)
  qed
  then show ?thesis
    using sessions_ok_send(2) [OF ok, of tr m a] ok by (simp add: SendTo_def sendACKTo_def Let_def split_beta)
qed

text \<open>A message that fits into one datagram is sent without waiting.\<close>

lemma SendTo_small: "\<not> isBigPayload m \<Longrightarrow> fst (SendTo tr m a e) \<noteq> None"
  by (simp add: SendTo_def sendACKTo_def Let_def split_beta)

subsection \<open>Handshakes and secured messages\<close>

lemma verify_with_ok:
  "session_ok cr s \<Longrightarrow> verify_with b cr s sig = (None, s') \<Longrightarrow> stored_ok cr s'"
  by (auto simp: verify_with_def stored_ok_def session_ok_def split: sum.splits if_splits prod.splits)

lemma fresh_session_ok:
  assumes "crypto_laws (tr_crypto tr)" "sessions_ok cr e" "fresh_session tr e = (r, e')"
  shows "sessions_ok cr e' \<and> (\<forall>s. r = Inr s \<longrightarrow> session_ok (tr_crypto tr) s)"
proof -
  have "\<forall>x. crand e (crand_pos e) = Some x \<longrightarrow> length x = 32" using assms(2) by (simp add: sessions_ok_def)
  then show ?thesis
    using assms session_ok_new [OF assms(1), of "tr_privateKey tr" "crand e (crand_pos e)"]
    by (auto simp: fresh_session_def keep_simps split: if_splits)
qed

lemma public_key_length: "crypto_laws cr \<Longrightarrow> session_ok cr s \<Longrightarrow> length (GetPublicKey (Curve s)) = 32"
  by (simp add: session_ok_def crypto_laws_def GetPublicKey_def)

lemma finish_handshake_ok:
  assumes "session_ok (tr_crypto tr) s" "sessions_ok (tr_crypto tr) e"
  shows "sessions_ok (tr_crypto tr) (snd (finish_handshake tr s address p pk e))"
proof -
  have "session_ok (tr_crypto tr) (s\<lparr>PeerPublicKey' := pk\<rparr>)" using assms(1) by (simp add: session_ok_def)
  then show ?thesis
    using assms(2) by (auto simp: finish_handshake_def Verify_def Let_def keep_simps sessions_ok_setSession
        dest: verify_with_ok split: sum.split prod.split option.split)
qed

lemma incomingHandshake_ok:
  assumes "sessions_ok cr e" "length pk = 32" "incomingHandshake tr pk m e = (r, e')"
  shows "r \<noteq> None \<and> sessions_ok cr e'"
proof -
  obtain h e1 where h: "with_ids (newServerHelloMessage m pk) e = (h, e1)" by fastforce
  then have p: "Payload h = Some (BytesPayload pk)"
    by (auto simp: with_ids_split newServerHelloMessage_def Let_def split_beta)
  have "sessions_ok cr e1" using assms(1) h sessions_ok_upd(4) [of cr "newServerHelloMessage m pk" e] by simp
  moreover have "\<not> isBigPayload h" using p assms(2) by (simp add: isBigPayload_def MAX_PAYLOAD_SIZE_def)
  ultimately show ?thesis
    using assms(3) h SendTo_small [of h tr "sender m" e1] sessions_ok_SendTo [of cr e1 tr h "sender m"]
    by (auto simp: incomingHandshake_def)
qed

lemma unauthorized_ok:
  assumes "sessions_ok cr e" "unauthorized tr c m e = (r, e')"
  shows "r \<noteq> None \<and> sessions_ok cr e'"
proof -
  let ?h = "\<lambda>x. AddOption x c (VInt 1)\<lparr>Token := Token m\<rparr>"
  obtain x e1 where h: "with_ids (NewCoAPMessageId ACK CoapCodeUnauthorized (MessageID m)) e = (x, e1)" by fastforce
  then have p: "Payload (?h x) = None \<or> Payload (?h x) = Some EmptyPayload"
    by (auto simp: with_ids_split NewCoAPMessageId_def zero_msg_def split_beta)
  have "sessions_ok cr e1"
    using assms(1) h sessions_ok_upd(4) [of cr "NewCoAPMessageId ACK CoapCodeUnauthorized (MessageID m)" e] by simp
  moreover have "\<not> isBigPayload (?h x)" using p by (auto simp: isBigPayload_def)
  ultimately show ?thesis
    using assms(2) h SendTo_small [of "?h x" tr "sender m" e1] sessions_ok_SendTo [of cr e1 tr "?h x" "sender m"]
    by (auto simp: unauthorized_def)
qed

lemma handleCoapsScheme_ok:
  assumes "sessions_ok cr e" "handleCoapsScheme tr m p e = (r, e')"
  shows "\<exists>err m'. r = Some (err, m') \<and> err \<noteq> Some GoPanic \<and> sessions_ok cr e'"
proof -
  have rec: "\<exists>err m'. r = Some (err, m') \<and> err \<noteq> Some GoPanic \<and> sessions_ok cr e'"
    if "received_error tr m p e = (r, e')" "sessions_ok cr e" for m e r e'
    using that by (auto simp: received_error_def return_def keep_simps split: if_splits)
  show ?thesis
  proof (cases "GetScheme m = COAPS_SCHEME")
    case True
    obtain so e1 where 1: "getSessionForAddress (tr_local tr) (sender m) p e = (so, e1)" by fastforce
    note s = sessions_ok_get [OF assms(1) 1]
    show ?thesis
    proof (cases so)
      case None
      obtain u e2 where u: "unauthorized tr OptionSessionNotFound m e1 = (u, e2)" by fastforce
      with unauthorized_ok [OF conjunct1 [OF s] u] show ?thesis
        using assms(2) True 1 None by (auto simp: handleCoapsScheme_def return_def)
    next
      case (Some x)
      then obtain a where a: "SAEAD x = Some a" using s by (auto simp: stored_ok_def)
      obtain d m1 where d: "decrypt tr m a = (d, m1)" by fastforce
      show ?thesis
      proof (cases d)
        case None
        then show ?thesis
          using assms(2) True 1 Some a d s by (intro rec [of "m1\<lparr>PeerPublicKey := PeerPublicKey' x\<rparr>" e1])
            (simp_all add: handleCoapsScheme_def)
      next
        case (Some err)
        obtain u e2 where u: "unauthorized tr OptionSessionExpired m1 (deleteSessionForAddress (tr_local tr) (sender m1) p e1) = (u, e2)"
          by fastforce
        have "sessions_ok cr (deleteSessionForAddress (tr_local tr) (sender m1) p e1)" using s by (simp add: keep_simps)
        from unauthorized_ok [OF this u] show ?thesis
          using assms(2) True 1 Some \<open>so = Some x\<close> a d u by (auto simp: handleCoapsScheme_def return_def)
      qed
    qed
  next
    case False
    then show ?thesis using assms rec [of m e r e'] by (simp add: handleCoapsScheme_def)
  qed
qed

text \<open>The part of \<open>receiveHandshake\<close> that answers a hello, with the session it starts from.\<close>

lemma handshake_answer_ok:
  fixes tr :: transport and m :: coap_msg
  assumes "crypto_laws (tr_crypto tr)" "sessions_ok (tr_crypto tr) e" "session_ok (tr_crypto tr) s"
  shows "\<exists>x e'. and_then (incomingHandshake tr (GetPublicKey (Curve s)) m e) (\<lambda>r e.
      if r \<noteq> None then return (False, Some ErrorHandshake) e
      else case GetSignature (tr_crypto tr) s of
        Inl _ \<Rightarrow> return (False, Some ErrorHandshake) e
      | Inr signature \<Rightarrow> (case PeerVerify (tr_crypto tr) s signature of
          (Some _, _) \<Rightarrow> return (False, Some ErrorHandshake) e
        | (None, s) \<Rightarrow>
            let e = inc MetricSuccessfulHandhshakes e;
                (now, e) = tick e;
                s = s\<lparr>UpdatedAt := now div 1000000000\<rparr>
            in return (False, None) (setSessionForAddress s (tr_local tr) (sender m) p e))) = (Some x, e') \<and>
    sessions_ok (tr_crypto tr) e'"
proof -
  obtain r e1 where i: "incomingHandshake tr (GetPublicKey (Curve s)) m e = (r, e1)" by fastforce
  from incomingHandshake_ok [OF assms(2) public_key_length [OF assms(1,3)] i]
  obtain q where q: "r = Some q" "sessions_ok (tr_crypto tr) e1" by auto
  show ?thesis
  proof (cases "\<exists>sig s'. q = None \<and> GetSignature (tr_crypto tr) s = Inr sig \<and> PeerVerify (tr_crypto tr) s sig = (None, s')")
    case False
    then show ?thesis using i q by (auto simp: return_def split: sum.split prod.split option.split)
  next
    case True
    then obtain sig s' where t: "q = None" "GetSignature (tr_crypto tr) s = Inr sig" "PeerVerify (tr_crypto tr) s sig = (None, s')"
      by blast
    obtain now e2 where n: "tick (inc MetricSuccessfulHandhshakes e1) = (now, e2)" by fastforce
    then have "sessions_ok (tr_crypto tr) e2"
      using q(2) sessions_ok_upd(1) [of "tr_crypto tr" "inc MetricSuccessfulHandhshakes e1"] by (simp add: keep_simps)
    moreover have "stored_ok (tr_crypto tr) (s'\<lparr>UpdatedAt := now div 1000000000\<rparr>)"
      using verify_with_ok [OF assms(3)] t(3) by (simp add: PeerVerify_def stored_ok_def session_ok_def)
    ultimately have "sessions_ok (tr_crypto tr)
        (setSessionForAddress (s'\<lparr>UpdatedAt := now div 1000000000\<rparr>) (tr_local tr) (sender m) p e2)"
      by (rule sessions_ok_setSession(2))
    then show ?thesis using i q t n by (auto simp: return_def)
  qed
qed

lemma receiveHandshake_ok:
  assumes "crypto_laws (tr_crypto tr)" "sessions_ok (tr_crypto tr) e" "receiveHandshake tr m p e = (r, e')"
  shows "r \<noteq> None \<and> sessions_ok (tr_crypto tr) e'"
proof -
  obtain so e1 where 1: "getSessionForAddress (tr_local tr) (sender m) p e = (so, e1)" by fastforce
  note s = sessions_ok_get [OF assms(2) 1]
  obtain ps e2 where 2: "(case so of Some s \<Rightarrow> (Inr s, e1) | None \<Rightarrow> fresh_session tr e1) = (ps, e2)" by fastforce
  have ok: "sessions_ok (tr_crypto tr) e2 \<and> (\<forall>s. ps = Inr s \<longrightarrow> session_ok (tr_crypto tr) s)"
    using s 2 fresh_session_ok [OF assms(1), of "tr_crypto tr" e1] by (cases so) (auto simp: stored_ok_def)
  show ?thesis
  proof (cases "IsProxies m \<or> GetOption m OptionHandshakeType = None \<or>
      (\<forall>opt. GetOption m OptionHandshakeType = Some opt \<longrightarrow> IntValue opt \<noteq> CoapHandshakeTypeClientSignature \<and>
         IntValue opt \<noteq> CoapHandshakeTypeClientHello)")
    case True
    then have "receiveHandshake tr m p e \<in> {(Some (True, None), e), (Some (False, None), e)}"
      by (cases "IsProxies m"; cases "GetOption m OptionHandshakeType")
        (simp_all add: receiveHandshake_def return_def Let_def)
    then show ?thesis using assms(2,3) by (auto simp del: not_None_eq)
  next
    case False
    then obtain opt where o: "\<not> IsProxies m" "GetOption m OptionHandshakeType = Some opt"
      "IntValue opt = CoapHandshakeTypeClientSignature \<or> IntValue opt = CoapHandshakeTypeClientHello" by auto
    show ?thesis
    proof (cases "\<exists>y s. Payload m = Some y \<and> IntValue opt = CoapHandshakeTypeClientHello \<and> ps = Inr s")
      case False
      then have "receiveHandshake tr m p e = (Some (False, Some ErrorHandshake), e2)"
        using o 1 2 by (cases ps; cases "Payload m") (simp_all add: receiveHandshake_def return_def Let_def)
      then show ?thesis using assms(3) ok by (auto simp del: not_None_eq)
    next
      case True
      then obtain y s where t: "Payload m = Some y" "IntValue opt = CoapHandshakeTypeClientHello" "ps = Inr s" by blast
      have "session_ok (tr_crypto tr) (s\<lparr>PeerPublicKey' := Bytes y\<rparr>)" using ok t(3) by (simp add: session_ok_def)
      from handshake_answer_ok [OF assms(1) conjunct1 [OF ok] this, of m p] show ?thesis
        using assms(3) o 1 2 t by (simp add: receiveHandshake_def Let_def)
    qed
  qed
qed

lemma securityInputLayer_ok:
  assumes "crypto_laws (tr_crypto tr)" "sessions_ok (tr_crypto tr) e" "securityInputLayer tr m p e = (r, e')"
  shows "r \<noteq> None \<and> sessions_ok (tr_crypto tr) e'"
proof -
  obtain q e1 where 1: "withProxyID p (tr_local tr) e = (q, e1)" by fastforce
  then have "sessions_ok (tr_crypto tr) e1" using assms(2) sessions_ok_proxy(2) [of "tr_crypto tr" p "tr_local tr" e] by simp
  obtain h e2 where 2: "receiveHandshake tr m q e1 = (h, e2)" by fastforce
  from receiveHandshake_ok [OF assms(1) \<open>sessions_ok (tr_crypto tr) e1\<close> 2] obtain ok herr where h: "h = Some (ok, herr)"
    "sessions_ok (tr_crypto tr) e2" by (cases h) auto
  obtain c e3 where 3: "handleCoapsScheme tr m q e2 = (c, e3)" by fastforce
  from handleCoapsScheme_ok [OF h(2) 3] show ?thesis
    using assms(3) 1 2 3 h by (auto simp: securityInputLayer_def return_def split: if_splits)
qed

lemma localStateSecurityInputLayer_ok:
  assumes "crypto_laws (tr_crypto tr)" "sessions_ok (tr_crypto tr) e" "localStateSecurityInputLayer tr m p e = (r, e')"
  shows "r \<noteq> None \<and> sessions_ok (tr_crypto tr) e'"
proof -
  obtain q e1 where 1: "withProxyID p (tr_local tr) e = (q, e1)" by fastforce
  then have "sessions_ok (tr_crypto tr) e1" using assms(2) sessions_ok_proxy(2) [of "tr_crypto tr" p "tr_local tr" e] by simp
  obtain h e2 where 2: "receiveHandshake tr m q e1 = (h, e2)" by fastforce
  from receiveHandshake_ok [OF assms(1) \<open>sessions_ok (tr_crypto tr) e1\<close> 2] obtain ok herr where h: "h = Some (ok, herr)"
    "sessions_ok (tr_crypto tr) e2" by (cases h) auto
  obtain c e3 where 3: "handleCoapsScheme tr m q e2 = (c, e3)" by fastforce
  from handleCoapsScheme_ok [OF h(2) 3] show ?thesis
    using assms(3) 1 2 3 h by (auto simp: localStateSecurityInputLayer_def return_def split: if_splits)
qed

subsection \<open>The server\<close>

lemma sessions_ok_selector:
  assumes "sessions_ok cr e"
  shows "sessions_ok cr (snd (localStateMessageHandlerSelector tr chans bb m e))"
proof -
  have "sessions_ok cr (snd (localStateReceiveARQBlock1 tr bb m e))"
  proof (cases "GetBlock1 m")
    case (Some blk)
    have "sessions_ok cr (snd (sendToSocketByAddress tr k a (snd (with_ids f e))))"
      for k a and f :: "id_source \<Rightarrow> coap_msg \<times> id_source"
      using assms by (intro sessions_ok_send) (simp add: keep_simps)
    then show ?thesis
      using assms Some by (cases "Payload m") (simp_all add: localStateReceiveARQBlock1_def Let_def split_beta)
  qed (use assms in \<open>simp add: localStateReceiveARQBlock1_def\<close>)
  then show ?thesis using assms by (auto simp: localStateMessageHandlerSelector_def split: prod.split)
qed

lemma processMessage_ok:
  assumes "tr_crypto (ls_tr (heap s ! l)) = cr" "crypto_laws cr" "sessions_ok cr (senv s)"
  shows "fst (processMessage l m s) \<noteq> None \<and> sessions_ok cr (senv (snd (processMessage l m s)))"
proof -
  obtain r e1 where 1: "localStateSecurityInputLayer (ls_tr (heap s ! l)) m [] (senv s) = (r, e1)" by fastforce
  have "crypto_laws (tr_crypto (ls_tr (heap s ! l)))" "sessions_ok (tr_crypto (ls_tr (heap s ! l))) (senv s)"
    using assms by simp_all
  from localStateSecurityInputLayer_ok [OF this 1] obtain ok err m' where r: "r = Some (ok, err, m')"
    "sessions_ok cr e1" unfolding assms(1) by (cases r) auto
  have "sessions_ok cr (inc MetricReceivedMessages e1)" using r(2) by (simp add: keep_simps)
  from sessions_ok_selector [OF this, of "ls_tr (heap s ! l)" "block2channels s" "ls_blocks (heap s ! l)" m'] show ?thesis
    using 1 r by (simp add: processMessage_def Let_def split_beta)
qed

lemma localRespHandler_ok:
  "sessions_ok cr (senv s) \<Longrightarrow> sessions_ok cr (senv (snd (localRespHandler l m r s)))"
proof -
  assume ok: "sessions_ok cr (senv s)"
  have "sessions_ok cr (snd (requestOnReceive res tr m (senv s)))" for res tr
    using ok sessions_ok_SendTo [of cr "senv s\<lparr>ids := g\<rparr>" for g]
    by (simp add: requestOnReceive_answer keep_simps split: option.split)
  then show ?thesis
    using ok by (auto simp: localRespHandler_def Let_def split: prod.split option.split) (metis snd_conv)+
qed

lemma step_task_ok_sessions:
  assumes "crypto_laws cr" "\<forall>ls \<in> set (heap s). tr_crypto (ls_tr ls) = cr" "tasks_ok [t] s" "sessions_ok cr (senv s)"
  shows "sessions_ok cr (senv (snd (step_task t s))) \<and> (\<forall>l. t \<noteq> Locked l \<longrightarrow> Locked l \<notin> set (fst (step_task t s)))"
proof (cases t)
  case (Bound l m)
  then have "tr_crypto (ls_tr (heap s ! l)) = cr" using assms(2,3) by (simp add: tasks_ok_def)
  then have p: "fst (processMessage l m s) \<noteq> None \<and> sessions_ok cr (senv (snd (processMessage l m s)))"
    using assms(1,4) by (rule processMessage_ok)
  obtain a s1 where a: "processMessage l m s = (Some a, s1)" using p by (cases "processMessage l m s") auto
  show ?thesis unfolding Bound step_task.simps a using p a by (cases a) simp_all
next
  case (Running l m r)
  obtain out s1 where o: "localRespHandler l m r s = (out, s1)" by fastforce
  then have "sessions_ok cr (senv s1)" using localRespHandler_ok [OF assms(4), of l m r] by simp
  then show ?thesis using o Running by simp
next
  case (Arrived tr m)
  then show ?thesis
    using assms(4) by (simp add: already_processed_def tick_server_def Let_def split_beta keep_simps)
next
  case (Checked tr m)
  then show ?thesis
    using assms(4) by (simp add: load_local_def MakeLocalStateFn_def tick_server_def Let_def split_beta keep_simps)
qed (use assms(4) in \<open>simp_all add: start_handler_def forget_local_def mark_processed_def tick_server_def Let_def split_beta keep_simps\<close>)

subsection \<open>The client\<close>

text \<open>Fixed for this section: a transport whose primitives obey their laws.\<close>

lemma receive_from_ok:
  assumes "crypto_laws (tr_crypto tr)"
  shows "sessions_ok (tr_crypto tr) e \<Longrightarrow> sessions_ok (tr_crypto tr) (snd (receive_from tr m rs e))"
proof (induction rs arbitrary: m e)
  case Nil
  then show ?case by (simp add: keep_simps)
next
  case (Cons ev rs)
  note IH = Cons.IH
  have ok: "sessions_ok (tr_crypto tr) (e\<lparr>reads := rs\<rparr>)" using Cons.prems by (simp add: keep_simps)
  show ?case
  proof (cases ev)
    case (ReadData d)
    obtain a e1 where a: "accept_datagram tr d (tr_remote tr) (e\<lparr>reads := rs\<rparr>) = (a, e1)" by fastforce
    then have 1: "sessions_ok (tr_crypto tr) e1"
      using ok by (auto simp: accept_datagram_def Let_def keep_simps split: prod.splits option.splits)
    obtain r e2 where r: "preparationReceivingBuffer tr d (tr_remote tr) (ProxyAddr m) (e\<lparr>reads := rs\<rparr>) = (r, e2)" by fastforce
    have 2: "sessions_ok (tr_crypto tr) e2"
    proof (cases a)
      case (Inr m1)
      obtain q e3 where q: "securityInputLayer tr m1 (ProxyAddr m) e1 = (q, e3)" by fastforce
      from securityInputLayer_ok [OF assms 1 q] show ?thesis
        using r a Inr q by (cases q) (auto simp: preparationReceivingBuffer_def return_def)
    qed (use r a 1 in \<open>simp add: preparationReceivingBuffer_def return_def\<close>)
    show ?thesis
      using IH [OF ok] IH [OF 2] ok 2 r ReadData
      by (cases r) (auto simp: Let_def return_def split: sum.split)
  qed (use ok Cons.prems in \<open>simp_all add: return_def keep_simps\<close>)
qed

lemma receiveMessage_ok:
  assumes "crypto_laws (tr_crypto tr)" "sessions_ok (tr_crypto tr) e" "receiveMessage tr m e = (r, e')"
  shows "sessions_ok (tr_crypto tr) e'"
  using receive_from_ok [OF assms(1,2), of m "reads e"] assms(3) by (simp add: receiveMessage_def)

lemma send_ack_ok:
  assumes "sessions_ok cr e" "with_ids f e = (ack, e1)" "sendToSocket tr ack e1 = (r, e2)"
  shows "sessions_ok cr e2 \<and> reads e2 = reads e"
proof -
  have "sessions_ok cr e1" using assms(1,2) sessions_ok_upd(4) [of cr f e] by simp
  then show ?thesis
    using sessions_ok_send(1) [of cr e1 tr ack] assms(3) sendToSocket_reads [OF assms(3)] with_ids_reads [OF assms(2)] by simp
qed

lemma block2_receive_ok:
  assumes c: "crypto_laws (tr_crypto tr)"
  shows "sessions_ok (tr_crypto tr) e \<Longrightarrow> sessions_ok (tr_crypto tr) (snd (block2_receive tr m n bb e))"
proof (induction "length (reads e)" arbitrary: m n bb e rule: less_induct)
  case less
  obtain r e1 where r: "receiveMessage tr m e = (r, e1)" by fastforce
  have 1: "sessions_ok (tr_crypto tr) e1" by (rule receiveMessage_ok [OF c less.prems r])
  define e2 where "e2 = (if n > 0 then inc MetricRetransmitMessages e1 else e1)"
  have 2: "sessions_ok (tr_crypto tr) e2" "reads e2 = reads e1" using 1 by (simp_all add: e2_def keep_simps reads_simps)
  have rec: "sessions_ok (tr_crypto tr) (snd (block2_receive tr m' n' bb' e'))"
    if "sessions_ok (tr_crypto tr) e'" "reads e' = reads e1" "r \<noteq> None" for m' n' bb' e'
    using less.hyps [OF _ that(1)] receiveMessage_reads [of tr m e _ e1] r that(2,3) by auto
  have ack: "sessions_ok (tr_crypto tr) (snd (case with_ids f e2 of (ack, e3) \<Rightarrow>
      (case sendToSocket tr ack e3 of (Some err, e4) \<Rightarrow> (Some (Inl err), e4) | (None, e4) \<Rightarrow> k e4)))"
    if "\<And>e'. sessions_ok (tr_crypto tr) e' \<Longrightarrow> reads e' = reads e1 \<Longrightarrow> sessions_ok (tr_crypto tr) (snd (k e'))"
    for f and k :: "env \<Rightarrow> (err + coap_msg) run"
  proof -
    obtain a e3 where a: "with_ids f e2 = (a, e3)" by fastforce
    obtain q e4 where q: "sendToSocket tr a e3 = (q, e4)" by fastforce
    from send_ack_ok [OF 2(1) a q] show ?thesis using a q that [of e4] 2(2) by (cases q) simp_all
  qed
  show ?case
  proof (cases r)
    case (Some y)
    show ?thesis
    proof (cases y)
      case (Inl err)
      then show ?thesis
        using r Some 1 rec [OF 1 refl] by (subst block2_receive.simps) (simp add: keep_simps)
    next
      case (Inr x)
      have a: "sessions_ok (tr_crypto tr) (snd (case with_ids f e2 of (ack, e3) \<Rightarrow>
          (case sendToSocket tr ack e3 of (Some err, e4) \<Rightarrow> (Some (Inl err), e4)
           | (None, e4) \<Rightarrow> block2_receive tr (deadline m) n bb' e4)))" for f bb'
        by (rule ack, rule rec) (simp_all add: Some)
      have b: "sessions_ok (tr_crypto tr) (snd (case with_ids f e2 of (ack, e3) \<Rightarrow>
          (case sendToSocket tr ack e3 of (Some err, e4) \<Rightarrow> (Some (Inl err), e4) | (None, e4) \<Rightarrow> (Some (Inr m'), e4))))" for f and m' :: coap_msg
        by (rule ack) simp
      show ?thesis
        unfolding block2_receive.simps [of tr m n bb e] r Some Inr option.case sum.case prod.case Let_def e2_def [symmetric]
        using a b rec [OF 2] Some 2(1) by (simp split: option.split)
    qed
  qed (use r 1 in \<open>simp add: block2_receive.simps [of tr m n bb e]\<close>)
qed

lemma receiveARQBlock2_ok:
  assumes c: "crypto_laws (tr_crypto tr)" and ok: "sessions_ok (tr_crypto tr) e"
  shows "sessions_ok (tr_crypto tr) (snd (receiveARQBlock2 tr m inp e))"
proof -
  have ack: "sessions_ok (tr_crypto tr) (snd (sendToSocket tr a (snd (with_ids f e))))"
    for f :: "id_source \<Rightarrow> coap_msg \<times> id_source" and a
    using ok by (intro sessions_ok_send) (simp add: keep_simps)
  show ?thesis
    using block2_receive_ok [OF c] ok ack
    by (simp add: receiveARQBlock2_def Let_def split_beta split: option.split)
qed

lemma block1_step_sessions:
  assumes c: "crypto_laws (tr_crypto tr)" and ok: "sessions_ok (tr_crypto tr) e"
    and r: "block1_step tr m x s e = (q, s', e')"
  shows "sessions_ok (tr_crypto tr) e'" "q = Some res \<Longrightarrow> sessions_ok (tr_crypto tr) (snd res)"
proof -
  have pass: "sessions_ok (tr_crypto tr) e1" if "sendPackets tr t e = (p, s1, e1)" for t p s1 e1
    using sessions_ok_packets(1) [OF ok, of tr t] that by simp
  show "sessions_ok (tr_crypto tr) e'" "q = Some res \<Longrightarrow> sessions_ok (tr_crypto tr) (snd res)"
    using r ok pass receiveARQBlock2_ok [OF c ok]
    by (auto simp: block1_step_def Let_def split: sum.splits if_splits option.splits prod.splits)
qed

lemma block1_loop_ok:
  assumes c: "crypto_laws (tr_crypto tr)"
  shows "sessions_ok (tr_crypto tr) e \<Longrightarrow> sessions_ok (tr_crypto tr) (snd (block1_loop tr m s e))"
proof (induction "length (reads e)" arbitrary: m s e rule: less_induct)
  case less
  obtain r e1 where r: "receiveMessage tr m e = (r, e1)" by fastforce
  have 1: "sessions_ok (tr_crypto tr) e1" by (rule receiveMessage_ok [OF c less.prems r])
  show ?case
  proof (cases r)
    case (Some y)
    then have l: "length (reads e1) < length (reads e)" using receiveMessage_reads r by blast
    obtain q s2 e2 where st: "block1_step tr m y s e1 = (q, s2, e2)" by (cases "block1_step tr m y s e1")
    show ?thesis
      using block1_step_sessions [OF c 1 st] block1_step_reads [of tr m y s e1 s2 e2] less.hyps [of e2 "deadline m" s2] l r Some st
      by (cases q) (simp_all add: block1_loop.simps [of tr m s e])
  qed (use r 1 in \<open>simp add: block1_loop.simps [of tr m s e]\<close>)
qed

lemma sendCON_loop_ok:
  assumes c: "crypto_laws (tr_crypto tr)"
  shows "sessions_ok (tr_crypto tr) e \<Longrightarrow> sessions_ok (tr_crypto tr) (snd (sendCON_loop tr m d n e))"
proof (induction "length (reads e)" arbitrary: m n e rule: less_induct)
  case less
  let ?e0 = "if n > 0 then inc MetricRetransmitMessages e else e"
  obtain w e1 where w: "write_counted None d ?e0 = (w, e1)" by fastforce
  have "sessions_ok (tr_crypto tr) ?e0" "reads ?e0 = reads e" using less.prems by (simp_all add: keep_simps reads_simps)
  then have 1: "sessions_ok (tr_crypto tr) e1" "reads e1 = reads e"
    using sessions_ok_write [of "tr_crypto tr" None d ?e0] w write_counted_reads [OF w] by simp_all
  obtain r e2 where r: "receiveMessage tr m e1 = (r, e2)" by fastforce
  have 2: "sessions_ok (tr_crypto tr) e2" by (rule receiveMessage_ok [OF c 1(1) r])
  have rec: "sessions_ok (tr_crypto tr) (snd (sendCON_loop tr m' d n' e2))" if "r \<noteq> None" for m' n'
    using less.hyps [OF _ 2] receiveMessage_reads [of tr m e1 _ e2] r that 1(2) by auto
  show ?case
    unfolding sendCON_loop.simps [of tr m d n e] Let_def w
    using 1 2 r rec receiveARQBlock2_ok [OF c 2]
    by (cases w; cases r) (simp_all add: keep_simps split: sum.split)
qed

lemma sendCON_ok:
  assumes c: "crypto_laws (tr_crypto tr)" and ok: "sessions_ok (tr_crypto tr) e"
  shows "sessions_ok (tr_crypto tr) (snd (sendCON tr m e))"
proof (cases "isBigPayload m")
  case True
  obtain msgs g where b: "construct_blocks OptionBlock1 (new_state_send m) (ids e) = Some (msgs, g)"
    using construct_blocks_new by blast
  have 1: "sessions_ok (tr_crypto tr) (e\<lparr>ids := g\<rparr>)" using ok by (simp add: keep_simps)
  obtain q s' e2 where p: "sendPackets tr (new_arq msgs (windowsize (new_state_send m))) (e\<lparr>ids := g\<rparr>) = (q, s', e2)"
    by (cases "sendPackets tr (new_arq msgs (windowsize (new_state_send m))) (e\<lparr>ids := g\<rparr>)")
  then have "sessions_ok (tr_crypto tr) e2" using sessions_ok_packets(1) [OF 1, of tr "new_arq msgs (windowsize (new_state_send m))"] by simp
  from block1_loop_ok [OF c this, of m s'] show ?thesis
    using True b p \<open>sessions_ok (tr_crypto tr) e2\<close> by (cases q) (simp_all add: sendCON_def sendARQBlock1CON_def Let_def)
next
  case False
  obtain q e1 where p: "preparationSendingMessage tr m (tr_remote tr) e = (q, e1)" by fastforce
  with preparationSendingMessage_ok [OF ok p] sendCON_loop_ok [OF c, of e1] False show ?thesis
    by (cases q) (auto simp: sendCON_def)
qed

lemma and_then_keeps:
  assumes "sessions_ok cr (snd r)" "\<And>x e. sessions_ok cr e \<Longrightarrow> sessions_ok cr (snd (k x e))"
  shows "sessions_ok cr (snd (and_then r k))"
  using assms by (cases r; cases "fst r") auto

lemma ensure_session_ok:
  assumes "\<And>m p e. sessions_ok cr e \<Longrightarrow> sessions_ok cr (snd (hs m p e))" "sessions_ok cr e"
  shows "sessions_ok cr (snd (ensure_session hs tr m e))"
proof -
  obtain p m' e1 where p: "proxy_session tr m e = (p, m', e1)" by (cases "proxy_session tr m e")
  then have "sessions_ok cr e1"
    using assms(2) sessions_ok_proxy(1) [of cr m "tr_local tr" e] by (auto simp: proxy_session_def Let_def split_beta split: if_splits)
  then have "sessions_ok cr (snd (and_then (hs m' p e1) (\<lambda>r. return (r, m'))))"
    by (intro and_then_keeps) (simp_all add: assms(1) return_def)
  then show ?thesis using p assms(2) by (simp add: ensure_session_def return_def)
qed

lemma resend_ok:
  assumes c: "crypto_laws (tr_crypto tr)" and ok: "sessions_ok (tr_crypto tr) e"
    and hs: "\<And>m p e. sessions_ok (tr_crypto tr) e \<Longrightarrow> sessions_ok (tr_crypto tr) (snd (hs m p e))"
  shows "sessions_ok (tr_crypto tr) (snd (and_then (ensure_session hs tr m e) (\<lambda>(r, m) e3.
      case r of Some err \<Rightarrow> return (Inl err) e3
      | None \<Rightarrow> and_then (sendCON tr m e3) (\<lambda>resp. return (map_sum id Some resp)))))"
proof (intro and_then_keeps ensure_session_ok [of "tr_crypto tr" hs, OF hs] ok)
  fix x :: "err option \<times> coap_msg" and e1
  assume "sessions_ok (tr_crypto tr) e1"
  then show "sessions_ok (tr_crypto tr) (snd ((\<lambda>(r, m) e3. case r of Some err \<Rightarrow> return (Inl err) e3
    | None \<Rightarrow> and_then (sendCON tr m e3) (\<lambda>resp. return (map_sum id Some resp))) x e1))"
    using sendCON_ok [OF c] by (auto simp: return_def split: prod.split option.split intro!: and_then_keeps)
qed

lemma Send_with_ok:
  assumes c: "crypto_laws (tr_crypto tr)" and ok: "sessions_ok (tr_crypto tr) e"
    and hs: "\<And>m p e. sessions_ok (tr_crypto tr) e \<Longrightarrow> sessions_ok (tr_crypto tr) (snd (hs m p e))"
  shows "sessions_ok (tr_crypto tr) (snd (Send_with hs tr m e))"
proof -
  note es = ensure_session_ok [of "tr_crypto tr" hs, OF hs]
  note again = resend_ok [OF c _ hs]
  show ?thesis
  proof (cases "MType m = CON")
    case True
    show ?thesis
      unfolding Send_with_def if_P [OF True]
    proof (intro and_then_keeps es ok)
      fix x :: "err option \<times> coap_msg" and e1
      assume 1: "sessions_ok (tr_crypto tr) e1"
      obtain r m1 where x: "x = (r, m1)" by (cases x)
      show "sessions_ok (tr_crypto tr) (snd ((\<lambda>(r, m) e1. case r of Some err \<Rightarrow> return (Inl err) e1
         | None \<Rightarrow> and_then (sendCON tr m e1) (\<lambda>resp e2. case resp of Inr resp \<Rightarrow> return (Inr (Some resp)) e2
             | Inl err \<Rightarrow> if \<not> is_session_error err then return (Inl err) e2
                 else let m = (if reads e2 = reads e1 then m else deadline m)
                   in and_then (ensure_session hs tr m e2) (\<lambda>(r, m) e3. case r of Some err \<Rightarrow> return (Inl err) e3
                     | None \<Rightarrow> and_then (sendCON tr m e3) (\<lambda>resp. return (map_sum id Some resp))))) x e1))"
      proof (cases r)
        case (Some err)
        then show ?thesis using 1 x by (simp add: return_def)
      next
        case None
        show ?thesis
          unfolding x None prod.case option.case
        proof (intro and_then_keeps sendCON_ok c 1)
          fix q :: "err + coap_msg" and e2
          assume 2: "sessions_ok (tr_crypto tr) e2"
          show "sessions_ok (tr_crypto tr) (snd (case q of Inr resp \<Rightarrow> return (Inr (Some resp)) e2
             | Inl err \<Rightarrow> if \<not> is_session_error err then return (Inl err) e2
                 else let m = (if reads e2 = reads e1 then m1 else deadline m1)
                   in and_then (ensure_session hs tr m e2) (\<lambda>(r, m) e3. case r of Some err \<Rightarrow> return (Inl err) e3
                     | None \<Rightarrow> and_then (sendCON tr m e3) (\<lambda>resp. return (map_sum id Some resp)))))"
            using 2 again [OF 2] by (cases q) (simp_all add: return_def Let_def)
        qed
      qed
    qed
  next
    case False
    obtain q e1 where s: "sendToSocket tr m e = (q, e1)" by fastforce
    then have "sessions_ok (tr_crypto tr) e1" using sessions_ok_send(1) [OF ok, of tr m] by simp
    then show ?thesis using False ok s by (cases q) (simp_all add: Send_with_def return_def)
  qed
qed

lemma handshake_ok:
  assumes c: "crypto_laws (tr_crypto tr)" and ok: "sessions_ok (tr_crypto tr) e"
  shows "sessions_ok (tr_crypto tr) (snd (handshake tr m address p e))"
proof -
  obtain so e1 where 1: "getSessionForAddress (tr_local tr) address p e = (so, e1)" by fastforce
  note s = sessions_ok_get [OF ok 1]
  show ?thesis
  proof (cases so)
    case None
    obtain f e2 where f: "fresh_session tr e1 = (f, e2)" by fastforce
    note 2 = fresh_session_ok [OF c conjunct1 [OF s] f]
    show ?thesis
    proof (cases f)
      case (Inr ses)
      obtain h e3 where h: "with_ids (newClientHelloMessage m (GetPublicKey (Curve ses))) e2 = (h, e3)" by fastforce
      then have 3: "sessions_ok (tr_crypto tr) e3"
        using 2 sessions_ok_upd(4) [of "tr_crypto tr" "newClientHelloMessage m (GetPublicKey (Curve ses))" e2] by simp
      have "sessions_ok (tr_crypto tr) (snd (Send_hello tr h e3))"
        unfolding Send_hello_def by (rule Send_with_ok [OF c 3]) (simp add: return_def)
      then have "sessions_ok (tr_crypto tr) (snd (sendHelloFromClient (Send_hello tr) m (GetPublicKey (Curve ses)) e2))"
        unfolding sendHelloFromClient_def h Let_def prod.case by (rule and_then_keeps) (simp add: return_def)
      moreover have "sessions_ok (tr_crypto tr) (snd (case x of Inl err \<Rightarrow> return (Some err) e | Inr pk \<Rightarrow>
          (case finish_handshake tr ses address p pk e of (r, e) \<Rightarrow> return r e)))"
        if "sessions_ok (tr_crypto tr) e" for x e
        using that finish_handshake_ok [of tr ses e address p] 2 Inr
        by (auto simp: return_def split_beta split: sum.split)
      ultimately have "sessions_ok (tr_crypto tr) (snd (and_then
          (sendHelloFromClient (Send_hello tr) m (GetPublicKey (Curve ses)) e2) (\<lambda>x e. case x of Inl err \<Rightarrow> return (Some err) e
             | Inr pk \<Rightarrow> (case finish_handshake tr ses address p pk e of (r, e) \<Rightarrow> return r e))))"
        by (rule and_then_keeps)
      then show ?thesis using 1 None f Inr by (simp add: handshake_def handshake_with_def)
    qed (use 1 None f 2 in \<open>simp add: handshake_def handshake_with_def return_def\<close>)
  qed (use 1 s in \<open>simp add: handshake_def handshake_with_def return_def\<close>)
qed

lemma Send_ok:
  assumes "crypto_laws (tr_crypto tr)" "sessions_ok (tr_crypto tr) e"
  shows "sessions_ok (tr_crypto tr) (snd (Send tr m e))"
  unfolding Send_def by (rule Send_with_ok [OF assms]) (rule handshake_ok [OF assms(1)])

subsection \<open>Properties\<close>

text \<open>C7: The session pools are well typed: from pools whose sessions all have derived keys,
  every request of a client and every step of a server's goroutines leads to such pools, so
  that neither an outgoing nor an incoming secured message ever uses a session without keys,
  and no message can make a server hold the lock of its local state for ever.\<close>

theorem session_pools_well_typed:
  assumes "crypto_laws (tr_crypto tr)" "sessions_ok (tr_crypto tr) (senv s)"
    and "\<forall>ls \<in> set (heap s). tr_crypto (ls_tr ls) = tr_crypto tr" "tasks_ok [t] s"
  shows "sessions_ok (tr_crypto tr) (snd (Send tr m (senv s))) \<and>
    fst (securityOutputLayer tr m addr (senv s)) \<noteq> Some GoPanic \<and>
    (\<exists>err m'. fst (handleCoapsScheme tr m p (senv s)) = Some (err, m') \<and> err \<noteq> Some GoPanic) \<and>
    sessions_ok (tr_crypto tr) (senv (snd (step_task t s))) \<and>
    (\<forall>l. t \<noteq> Locked l \<longrightarrow> Locked l \<notin> set (fst (step_task t s)))"
proof (intro conjI)
  obtain r m' e' where o: "securityOutputLayer tr m addr (senv s) = (r, m', e')"
    by (cases "securityOutputLayer tr m addr (senv s)")
  show "fst (securityOutputLayer tr m addr (senv s)) \<noteq> Some GoPanic"
    using securityOutputLayer_ok [OF assms(2) o] o by simp
  obtain h e1 where h: "handleCoapsScheme tr m p (senv s) = (h, e1)" by fastforce
  show "\<exists>err m'. fst (handleCoapsScheme tr m p (senv s)) = Some (err, m') \<and> err \<noteq> Some GoPanic"
    using handleCoapsScheme_ok [OF assms(2) h] h by auto
qed (use Send_ok [OF assms(1,2)] step_task_ok_sessions [OF assms(1,3,4,2)] in blast)+

theorem session_pools_well_typed_witness:
  "sessions_ok toy_crypto (snd (Send sample_transport (SetSchemeCOAPS sample_non) sample_env)) \<and>
    sessions_ok toy_crypto (senv (snd (step_task (Arrived sample_transport sample_non) sample_server)))"
proof -
  have c: "tr_crypto sample_transport = toy_crypto" by (simp add: sample_transport_def)
  have ok: "sessions_ok (tr_crypto sample_transport) (senv sample_server)"
    using cache_ok_new [of SESSIONS_POOL_EXPIRATION, where 'a = SecuredSession]
      cache_abs_new [of SESSIONS_POOL_EXPIRATION, where 'a = SecuredSession]
    unfolding sample_server_simps sessions_ok_def by (simp add: sample_env_def)
  have h: "\<forall>ls \<in> set (heap sample_server). tr_crypto (ls_tr ls) = tr_crypto sample_transport"
    "tasks_ok [Arrived sample_transport sample_non] sample_server"
    by (simp_all add: sample_server_simps tasks_ok_def)
  have l: "crypto_laws (tr_crypto sample_transport)" unfolding c by (rule toy_crypto_laws)
  from session_pools_well_typed [OF l ok h, of "SetSchemeCOAPS sample_non"] show ?thesis
    unfolding c sample_server_simps by blast
qed

end
