(* ===== verification/Secure_Channel.thy ===== *)
theory Secure_Channel
  imports Session_Invariant
begin

text \<open>
  Both ends of a secured connection: the handshake of a client with a server through the
  datagrams they exchange, and a secured request from the \<open>Send\<close> of one endpoint to the
  security layer of the other. The layers below are those of \<open>Coap_Checksum\<close> (the wire),
  \<open>Secure_Session\<close> (the keys), \<open>Session_Store\<close> (the pools) and \<open>Secure_Message\<close>.
\<close>

subsection \<open>A datagram as its receiver reads it\<close>

lemma calculateChecksum_sorter:
  assumes "wire_msg m"
  shows "calculateChecksum pdq m = calculateChecksum pdq' m"
  by (simp add: calculateChecksum_def Serialize_bytes [OF wire_msg_clone [OF assms]])

lemma Serialize_sorter: "wire_msg m \<Longrightarrow> fst (Serialize pdq m) = fst (Serialize pdq' m)"
  by (simp add: Serialize_bytes)

lemma verifyChecksum_Sender: "verifyChecksum pdq (m\<lparr>Sender := a\<rparr>) = verifyChecksum pdq m"
proof -
  have "calculateChecksum pdq (m\<lparr>Sender := a\<rparr>) = calculateChecksum pdq m"
    by (simp add: calculateChecksum_def cloneForChecksum_def)
  then show ?thesis by (simp add: verifyChecksum_def GetOption_def split: option.split)
qed

lemma finish_message_wire:
  assumes "wire_msg x" "length (Options x) < 12" "list_all stable_option (Options x)"
  shows "wire_msg (finish_message tr x)" "list_all stable_option (Options (finish_message tr x))"
  using assms wire_msg_applyChecksum [OF assms] stable_applyChecksum [OF assms(3)]
  by (simp_all add: finish_message_def)

lemma GetOptions_finished:
  "c \<noteq> OptionChecksum \<Longrightarrow> GetOptions (finish_message tr x) c = GetOptions x c"
  by (simp add: finish_message_def applyChecksum_def Let_def GetOptions_AddOption GetOptions_RemoveOptions)

lemma finished_fields:
  "MType (finish_message tr x) = MType x" "MCode (finish_message tr x) = MCode x"
  "MessageID (finish_message tr x) = MessageID x" "Token (finish_message tr x) = Token x"
  "frame (finish_message tr x) = frame x"
  by (simp_all add: finish_message_def applyChecksum_def Let_def AddOption_def frame_def)

lemma received_fields:
  "MType (received_msg x) = MType x" "MCode (received_msg x) = MCode x"
  "MessageID (received_msg x) = MessageID x" "Token (received_msg x) = Token x"
  "frame (received_msg x) = frame x" "IsProxies (received_msg x) = False" "ProxyAddr (received_msg x) = []"
  by (simp_all add: received_msg_def frame_def zero_msg_def split: option.split)

lemma Deserialize_finished:
  assumes "wire_msg x" "length (Options x) < 12" "list_all stable_option (Options x)"
    and "GetOptions x OptionChecksum = []"
  shows "Deserialize pdq (fst (Serialize pdq' (finish_message tr x))) mt =
    ((Some (received_msg (finish_message tr x)), None), mt)"
proof (cases "AddChecksumOnSend x")
  case True
  let ?x = "applyChecksum (tr_sorter tr) x"
  note w = finish_message_wire [OF assms(1-3), of tr]
  have "calculateChecksum pdq ?x = calculateChecksum (tr_sorter tr) x"
    using calculateChecksum_sorter [of ?x pdq "tr_sorter tr"] w(1) True
    by (simp add: finish_message_def calculateChecksum_applyChecksum)
  then show ?thesis
    using Deserialize_checksummed [of ?x "calculateChecksum (tr_sorter tr) x" pdq mt] w True
      Serialize_sorter [of ?x pdq' pdq] GetOptions_applyChecksum [of "tr_sorter tr" x]
    by (simp add: finish_message_def)
next
  case False
  have "GetOption (received_msg x) OptionChecksum = None"
    using assms(4) by (simp add: GetOption_GetOptions GetOptions_received GetOptions_normalise decoded_options_def
        map_filter_simps)
  then show ?thesis
    using False by (simp add: finish_message_def Deserialize_def deserialize_Serialize [OF assms(1)] verifyChecksum_def)
qed

lemma accept_finished:
  assumes "wire_msg x" "length (Options x) < 12" "list_all stable_option (Options x)"
    and "GetOptions x OptionChecksum = []"
  shows "accept_datagram tr (fst (Serialize pdq (finish_message tr' x))) src e =
    (Inr ((received_msg (finish_message tr' x))\<lparr>Sender := Some src\<rparr>), inc MetricReceivedMessages e)"
proof -
  note d = Deserialize_finished [OF assms, of "tr_sorter tr" pdq tr']
  from d [of "met e"] have "verifyChecksum (tr_sorter tr) (received_msg (finish_message tr' x)) = None"
    by (auto simp: Deserialize_def Let_def split: prod.splits option.splits)
  then show ?thesis
    by (simp add: accept_datagram_def d verifyChecksum_Sender inc_def)
qed

lemma GetScheme_needs:
  "GetScheme m = (if GetOption m OptionURIScheme \<noteq> None \<and> \<not> needs_scheme m then COAPS_SCHEME else COAP_SCHEME)"
  by (auto simp: GetScheme_def needs_scheme_def split: option.split)

lemma GetScheme_received:
  assumes "list_all stable_option (Options m)"
  shows "GetScheme (received_msg m) = GetScheme m"
proof -
  have "GetOption (received_msg m) OptionURIScheme = None \<longleftrightarrow> GetOption m OptionURIScheme = None"
  proof (cases "GetOptions m OptionURIScheme")
    case Nil
    then show ?thesis
      by (simp add: GetOption_GetOptions GetOptions_received GetOptions_normalise needs_scheme_def
          decoded_options_def map_filter_simps)
  next
    case (Cons opt rest)
    then have "opt \<in> set (GetOptions m OptionURIScheme)" by simp
    then have "stable_option opt" using assms by (auto simp: GetOptions_def list_all_iff)
    then show ?thesis
      using Cons by (auto simp: GetOption_GetOptions GetOptions_received GetOptions_normalise decoded_options_def
          map_filter_simps stable_option_def stable_scheme_0 [unfolded option_defs scheme_defs] split: option.splits)
  qed
  then show ?thesis by (simp add: GetScheme_needs needs_scheme_received [OF assms])
qed

subsection \<open>What a secured request looks like on the wire\<close>

lemma AddOption_wire:
  assumes "wire_msg m" "list_all stable_option (Options m)" "length (Options m) \<le> n" "n < 12"
    and "wire_option (NewOption c v)" "stable_option (NewOption c v)"
  shows "wire_msg (AddOption m c v)" "list_all stable_option (Options (AddOption m c v))"
    "length (Options (AddOption m c v)) \<le> Suc n"
proof -
  have opts: "Options (AddOption m c v) = Options m @ [NewOption c v] \<or>
      Options (AddOption m c v) = opts_without c (Options m) @ [NewOption c v]"
    by (simp add: AddOption_opts opts_add_def Let_def)
  then show "list_all stable_option (Options (AddOption m c v))"
    using assms(2,6) by (auto simp: list_all_iff)
  show len: "length (Options (AddOption m c v)) \<le> Suc n"
    using opts assms(3) le_trans [OF length_filter_le assms(3), of "\<lambda>opt. OCode opt \<noteq> c"] by auto
  have "list_all wire_option (Options (AddOption m c v))"
    using opts assms(1,5) by (auto simp: list_all_iff wire_msg_def)
  then show "wire_msg (AddOption m c v)"
    using assms(1,4) len opts_unique_AddOption [of m c v] by (simp add: wire_msg_def AddOption_opts)
qed

lemma encrypt_wire:
  assumes "wire_msg m" "list_all stable_option (Options m)" "length (Options m) \<le> 10"
    and "length (sealed_uri m host a) < 65536"
  shows "wire_msg (encrypt m host a)" "list_all stable_option (Options (encrypt m host a))"
    "length (Options (encrypt m host a)) < 12"
proof -
  let ?r = "RemoveOptions (RemoveOptions m OptionURIPath) OptionURIQuery"
  let ?a = "AddOption ?r OptionCoapsUri (VString (sealed_uri m host a))"
  have opts: "Options (encrypt m host a) = Options ?a"
    by (simp add: encrypt_def encryptionOptions_def Let_def AddOption_opts RemoveOptions_def sealed_uri_def GetURI_fields
        split: option.split)
  have new: "stable_option (NewOption OptionCoapsUri (VString (sealed_uri m host a)))"
    "wire_option (NewOption OptionCoapsUri (VString (sealed_uri m host a)))"
    using assms(4) by (simp_all add: stable_option_def decoded_option_def decoded_value_def int_option_codes_def
      string_option_codes_def valueToBytes_def wire_option_def)
  have r: "wire_msg ?r" by (intro RemoveOptions_wire assms(1))
  have st: "list_all stable_option (Options ?r)" using assms(2) by (simp add: RemoveOptions_def list_all_iff)
  have len: "length (Options ?r) \<le> 10"
    using assms(3) by (auto simp: RemoveOptions_def intro: le_trans [OF length_filter_le])
  note w = AddOption_wire [OF r st len _ new(2,1)]
  show "list_all stable_option (Options (encrypt m host a))" "length (Options (encrypt m host a)) < 12"
    unfolding opts using w(2,3) by simp_all
  show "wire_msg (encrypt m host a)"
    using w(1) assms(1) by (simp add: wire_msg_def opts encrypt_fields)
qed

lemma GetURI_cong: "Options x = Options y \<Longrightarrow> GetURI x host = GetURI y host"
  by (simp add: GetURI_def GetURIPath_def GetURIQueryString_def GetSchemeString_def GetOption_def
      GetOptions_def GetOptionsAsString_def Let_def)

lemma getSession_cong:
  assumes "clock e = clock e'" "clock_pos e = clock_pos e'" "waited e = waited e'" "sessions e = sessions e'"
  shows "fst (getSessionForAddress a b p e) = fst (getSessionForAddress a b p e')"
  using assms by (simp add: getSessionForAddress_def tick_def split_beta Let_def split: option.split)

lemma getSession_hit:
  "fst (Session_Get a b p (next_now e) (sessions e)) = Some s \<Longrightarrow> fst (getSessionForAddress a b p e) = Some s"
  by (simp add: getSessionForAddress_def tick_def next_now_def split_beta Let_def split: option.split)

text \<open>A request that fits the wire once it is sealed, and goes to the peer directly.\<close>

definition direct_request :: "coap_msg \<Rightarrow> bytes \<Rightarrow> (bytes \<times> bytes) list \<Rightarrow> bool" where
  "direct_request m addr kvs \<longleftrightarrow> GetScheme m = COAPS_SCHEME \<and> plain_request m kvs \<and> plain_host addr \<and>
     MCode m \<le> 4 \<and> ProxyAddr m = [] \<and>
     GetOptions m OptionProxyURI = [] \<and> GetOptions m OptionHandshakeType = [] \<and> GetOptions m OptionChecksum = [] \<and>
     wire_msg m \<and> list_all stable_option (Options m) \<and> length (Options m) \<le> 10 \<and>
     length (GetURI m addr) < 65520"

lemma secured_datagram:
  assumes "direct_request m addr kvs" "aead_match a b"
    and "fst (getSessionForAddress (tr_local tr) addr [] e) = Some cl" "SAEAD cl = Some a"
    and "wres e (length (sent e)) = None"
  obtains x e' where "sendToSocketByAddress tr m addr e = (None, e')"
    "sent e' = sent e @ [(Some addr, fst (Serialize (tr_sorter tr) (finish_message tr x)))]"
    "wire_msg x" "length (Options x) < 12" "list_all stable_option (Options x)" "GetOptions x OptionChecksum = []"
    "frame x = frame (encrypt m addr a)" "MType x = MType m" "MCode x = MCode m" "MessageID x = MessageID m"
    "Token x = Token m" "\<forall>c. GetOptions x c = GetOptions (encrypt m addr a) c"
proof -
  obtain c g where c: "Clone m True (ids e) = (c, g)" by fastforce
  have cf: "Options c = Options m" "frame c = frame m" "MessageID c = MessageID m" "Token c = Token m"
    "MType c = MType m" "MCode c = MCode m" "ProxyAddr c = ProxyAddr m" "Payload c = Payload m"
    using c by (auto simp: Clone_def NewCoAPMessageId_def frame_def split_beta Let_def)
  have go: "GetOptions c d = GetOptions m d" for d by (simp add: GetOptions_def cf)
  note d = assms(1) [unfolded direct_request_def]
  have sch: "GetScheme c = COAPS_SCHEME" using d by (simp add: GetScheme_def GetOption_GetOptions go)
  have uri: "sealed_uri c addr a = sealed_uri m addr a" by (simp add: sealed_uri_def GetURI_cong [OF cf(1)] cf)
  have lens: "length (sealed_uri c addr a) < 65536"
    unfolding uri unfolding sealed_uri_def using d length_Seal [OF assms(2)] by simp
  have "wire_msg c" using d by (simp add: wire_msg_def cf)
  note x = encrypt_wire [OF this _ _ lens, unfolded cf(1)]
  let ?x = "encrypt c addr a" and ?e = "e\<lparr>ids := g\<rparr>"
  have e: "frame ?x = frame (encrypt m addr a)"
    by (simp add: frame_def encrypt_fields cf)
  obtain e1 where gs: "getSessionForAddress (tr_local tr) addr [] ?e = (Some cl, e1)"
    using assms(3) getSession_cong [of ?e e "tr_local tr" addr "[]"]
    by (cases "getSessionForAddress (tr_local tr) addr [] ?e") auto
  have "securityOutputLayer tr c addr ?e = (None, ?x, e1)"
    using d gs assms(4) sch by (simp add: securityOutputLayer_def setProxyIDIfNeed_def withProxyID_def
        GetOption_GetOptions go cf)
  then have p: "preparationSendingMessage tr m addr e =
      (Inr (fst (Serialize (tr_sorter tr) (finish_message tr ?x))), e1)"
    using c by (simp add: preparationSendingMessage_def with_ids_split finish_message_def)
  have q: "sent e1 = sent e" "wres e1 = wres e"
    using same_net_getSession [of ?e "tr_local tr" addr "[]"] gs by (simp_all add: same_net_def)
  show thesis
  proof (rule that [where x = ?x])
    show "sendToSocketByAddress tr m addr e =
        (None, snd (write_counted (Some addr) (fst (Serialize (tr_sorter tr) (finish_message tr ?x))) e1))"
      using p q assms(5) by (simp add: sendToSocketByAddress_def write_counted_def socket_write_def inc_def Let_def)
  qed (use d x e uri q assms(5) in \<open>simp_all add: write_counted_def socket_write_def inc_def Let_def cf encrypt_fields
      encrypt_options go\<close>)
qed

subsection \<open>What its receiver makes of it\<close>

lemma opened_message:
  fixes tr' :: transport
  assumes "direct_request m addr kvs" "aead_match a b" "\<forall>q. mset (tr_range tr q) = mset q"
    and "fst (getSessionForAddress (tr_local tr) src [] e) = Some sv" "SAEAD sv = Some b"
    and "list_all stable_option (Options x)"
    and "frame x = frame (encrypt m addr a)" "MCode x = MCode m" "MessageID x = MessageID m"
    and "\<forall>c. GetOptions x c = GetOptions (encrypt m addr a) c"
  defines "r \<equiv> (received_msg (finish_message tr' x))\<lparr>Sender := Some src\<rparr>"
  obtains m' e' where "localStateSecurityInputLayer tr r [] e = (Some (True, None, m'), e')"
    "frame m' = frame m" "MType m' = MType x" "MCode m' = MCode m" "MessageID m' = MessageID m"
    "Token m' = Token x" "GetURIPath m' = GetURIPath m" "\<forall>k. GetURIQuery m' k = GetURIQuery m k"
    "PeerPublicKey m' = PeerPublicKey' sv"
proof -
  note d = assms(1) [unfolded direct_request_def]
  let ?f = "finish_message tr' x"
  have rf: "MType r = MType x" "MCode r = MCode m" "MessageID r = MessageID m" "Token r = Token x"
    "IsProxies r = False" "sender r = src"
    using assms(8,9) by (simp_all add: r_def received_fields finished_fields sender_def)
  have "frame r = frame (received_msg ?f)" by (simp add: r_def frame_def)
  then have fr: "frame r = frame (encrypt m addr a)" using assms(7) by (simp add: received_fields finished_fields)
  have go: "GetOptions r c = decoded_options (GetOptions (encrypt m addr a) c)"
    if "c \<noteq> OptionChecksum" "c \<noteq> OptionURIScheme" for c
  proof -
    have "GetOptions r c = GetOptions (received_msg ?f) c" by (simp add: r_def GetOptions_def)
    then show ?thesis using that by (simp add: GetOptions_received GetOptions_normalise GetOptions_finished assms(10))
  qed
  have st: "list_all stable_option (Options ?f)"
    using assms(6) stable_applyChecksum by (simp add: finish_message_def)
  have "GetScheme r = GetScheme (received_msg ?f)" by (simp add: r_def GetScheme_def GetOption_def)
  also have "\<dots> = GetScheme m"
    unfolding GetScheme_received [OF st]
    by (rule GetScheme_cong) (simp add: GetOptions_finished assms(10) encrypt_options)
  finally have sch: "GetScheme r = COAPS_SCHEME" using d by simp
  have uri: "GetOptions r OptionCoapsUri = [NewOption OptionCoapsUri (VString (sealed_uri m addr a))]"
    by (simp add: go encrypt_options decoded_options_def map_filter_simps decoded_option_def decoded_value_def
        int_option_codes_def string_option_codes_def valueToBytes_def)
  have none: "GetOptions r OptionURIPath = []" "GetOptions r OptionURIQuery = []" "GetOptions r OptionHandshakeType = []"
    using d by (simp_all add: go encrypt_options decoded_options_def map_filter_simps)
  have plain: "plain_request m kvs" "plain_host addr" using d by simp_all
  obtain m1 where m1: "decrypt tr r b = (None, m1)" "frame m1 = frame m" "MType m1 = MType r" "MCode m1 = MCode r"
    "MessageID m1 = MessageID r" "Token m1 = Token r" "GetURIPath m1 = GetURIPath m" "\<forall>k. GetURIQuery m1 k = GetURIQuery m k"
    using decrypt_sealed [OF assms(2) plain assms(3) fr rf(3) uri _ none(1,2)] by (auto simp: StringValue_def)
  obtain e1 where gs: "getSessionForAddress (tr_local tr) src [] e = (Some sv, e1)"
    using assms(4) by (cases "getSessionForAddress (tr_local tr) src [] e") auto
  have "MCode m1 \<noteq> CoapCodeUnauthorized"
    using d rf(2) m1(4) by (auto simp: CoapCodeUnauthorized_def word_le_nat_alt)
  then have "handleCoapsScheme tr r [] e = (Some (None, m1\<lparr>PeerPublicKey := PeerPublicKey' sv\<rparr>), e1)"
    using sch rf(6) gs assms(5) m1(1) by (simp add: handleCoapsScheme_def received_error_def return_def)
  then have "localStateSecurityInputLayer tr r [] e = (Some (True, None, m1\<lparr>PeerPublicKey := PeerPublicKey' sv\<rparr>), e1)"
    using rf(5) none(3) by (simp add: localStateSecurityInputLayer_def withProxyID_def receiveHandshake_def
        GetOption_GetOptions return_def)
  then show thesis
    by (rule that) (use m1 rf in \<open>simp_all add: frame_def GetURIPath_def GetURIQuery_def GetURIQueryArray_def
        GetOptionsAsString_def GetOptions_def\<close>)
qed

text \<open>C2: A secured request goes through. Let the two endpoints hold sessions with matching keys
  for each other that have not expired. Then a request in the \<open>coaps\<close> scheme is written as
  one datagram, and the peer that receives this datagram accepts it, opens it and hands on
  a request with the payload, type, code, id, token, path and queries that were sent,
  marked with the public key of the session it came in.\<close>

theorem secure_channel:
  assumes "direct_request m addr kvs" "aead_match a b" "\<forall>q. mset (tr_range trS q) = mset q"
    and "fst (Session_Get (tr_local trC) addr [] (next_now eC) (sessions eC)) = Some cl" "SAEAD cl = Some a"
    and "fst (Session_Get (tr_local trS) src [] (next_now eS) (sessions eS)) = Some sv" "SAEAD sv = Some b"
    and "wres eC (length (sent eC)) = None"
  shows "\<exists>d eC' r eS' m' eS''. sendToSocketByAddress trC m addr eC = (None, eC') \<and>
    sent eC' = sent eC @ [(Some addr, d)] \<and>
    preparationReceivingBufferForStorageLocalStates trS d src eS = (Inr r, eS') \<and>
    localStateSecurityInputLayer trS r [] eS' = (Some (True, None, m'), eS'') \<and>
    frame m' = frame m \<and> MType m' = MType m \<and> MCode m' = MCode m \<and> MessageID m' = MessageID m \<and>
    Token m' = Token m \<and> GetURIPath m' = GetURIPath m \<and> (\<forall>k. GetURIQuery m' k = GetURIQuery m k) \<and>
    PeerPublicKey m' = PeerPublicKey' sv"
proof -
  obtain x eC' where x: "sendToSocketByAddress trC m addr eC = (None, eC')"
    "sent eC' = sent eC @ [(Some addr, fst (Serialize (tr_sorter trC) (finish_message trC x)))]"
    "wire_msg x" "length (Options x) < 12" "list_all stable_option (Options x)" "GetOptions x OptionChecksum = []"
    "frame x = frame (encrypt m addr a)" "MType x = MType m" "MCode x = MCode m" "MessageID x = MessageID m"
    "Token x = Token m" "\<forall>c. GetOptions x c = GetOptions (encrypt m addr a) c"
    using secured_datagram [OF assms(1,2) getSession_hit [OF assms(4)] assms(5,8)] by blast
  let ?r = "(received_msg (finish_message trC x))\<lparr>Sender := Some src\<rparr>" and ?e = "inc MetricReceivedMessages eS"
  have s: "fst (getSessionForAddress (tr_local trS) src [] ?e) = Some sv"
    using getSession_hit [OF assms(6)] getSession_cong [of ?e eS] by (simp add: inc_def)
  obtain m' e' where "localStateSecurityInputLayer trS ?r [] ?e = (Some (True, None, m'), e')"
    "frame m' = frame m" "MType m' = MType x" "MCode m' = MCode m" "MessageID m' = MessageID m"
    "Token m' = Token x" "GetURIPath m' = GetURIPath m" "\<forall>k. GetURIQuery m' k = GetURIQuery m k"
    "PeerPublicKey m' = PeerPublicKey' sv"
    using opened_message [OF assms(1-3) s assms(7) x(5,7,9,10,12)] by metis
  then show ?thesis
    using x accept_finished [OF x(3-6), of trS "tr_sorter trC" trC src eS]
    by (auto simp: preparationReceivingBufferForStorageLocalStates_def)
qed

subsection \<open>The handshake\<close>

text \<open>The time the clock showed when it was last read.\<close>

definition last_now :: "env \<Rightarrow> int" where
  "last_now e = clock e (clock_pos e - 1) + waited e"

lemma stored_session:
  fixes a b p :: bytes and s :: SecuredSession
  assumes "cache_ok (sessions e)"
  defines "e' \<equiv> storeSession s a b p e"
  shows "fst (Session_Get a b p t (sessions e')) = (if t \<le> last_now e' + ttl (sessions e') then Some s else None)"
proof -
  have "sessions (snd (tick e)) = sessions e" by (simp add: tick_def)
  moreover have "last_now e' = fst (tick e)"
    by (simp add: e'_def next_now_def storeSession_def last_now_def tick_def Let_def)
  ultimately show ?thesis
    using sc.get_set [of "sessions e" "session_key a b p" t s "fst (tick e)"] assms(1)
    by (simp add: e'_def storeSession_def Session_Get_def Session_Set_def split_beta Let_def sc.life_set)
qed

lemma last_now_inc: "last_now (inc c e) = last_now e" "sessions (inc c e) = sessions e"
  by (simp_all add: last_now_def inc_def)

lemma server_hello:
  fixes m :: coap_msg and pk :: bytes and g :: id_source
  assumes "GetOptions m OptionProxySecurityID = []"
  defines "h \<equiv> fst (newServerHelloMessage m pk g)"
  shows "Options h = [NewOption OptionHandshakeType (VInt CoapHandshakeTypePeerHello)]"
    "MType h = ACK" "MessageID h = MessageID m" "Token h = Token m" "Payload h = Some (BytesPayload pk)"
  using assms by (simp_all add: newServerHelloMessage_def Let_def split_beta AddOption_opts opts_add_def
      NewCoAPMessageId_fields)

lemma hello_sent:
  assumes "wres e (length (sent e)) = None" "GetOptions m OptionProxySecurityID = []" "length pk = 32"
  obtains x e' where "incomingHandshake tr pk m e = (Some None, e')"
    "sent e' = sent e @ [(Some (sender m), fst (Serialize (tr_sorter tr) (finish_message tr x)))]"
    "Options x = [NewOption OptionHandshakeType (VInt CoapHandshakeTypePeerHello)]"
    "MType x = ACK" "MessageID x = MessageID m" "Token x = Token m" "Payload x = Some (BytesPayload pk)"
proof -
  let ?h = "fst (newServerHelloMessage m pk (ids e))" and ?g = "snd (newServerHelloMessage m pk (ids e))"
  note h = server_hello [OF assms(2), of pk "ids e"]
  let ?x = "fst (Clone ?h True ?g)"
  have x: "Options ?x = Options ?h" "MType ?x = MType ?h" "MessageID ?x = MessageID ?h" "Token ?x = Token ?h"
    "Payload ?x = Payload ?h"
    by (simp_all add: Clone_def NewCoAPMessageId_def split_beta Let_def)
  have sch: "GetScheme ?x \<noteq> COAPS_SCHEME" using h(1) x(1) by (simp add: GetScheme_def GetOption_def)
  have "\<not> isBigPayload ?h" using h(5) assms(3) by (simp add: isBigPayload_def MAX_PAYLOAD_SIZE_def)
  then have "incomingHandshake tr pk m e =
      (let (r, e) = sendToSocketByAddress tr ?h (sender m) (e\<lparr>ids := ?g\<rparr>) in (Some r, e))"
    using h(2) by (simp add: incomingHandshake_def with_ids_split SendTo_def sendACKTo_def)
  moreover have "preparationSendingMessage tr ?h (sender m) (e\<lparr>ids := ?g\<rparr>) =
      (Inr (fst (Serialize (tr_sorter tr) (finish_message tr ?x))), e\<lparr>ids := snd (Clone ?h True ?g)\<rparr>)"
    using sch by (simp add: preparationSendingMessage_def with_ids_split securityOutputLayer_def finish_message_def)
  ultimately have "incomingHandshake tr pk m e = (Some None, (inc MetricSentMessages e)
      \<lparr>ids := snd (Clone ?h True ?g),
        sent := sent e @ [(Some (sender m), fst (Serialize (tr_sorter tr) (finish_message tr ?x)))]\<rparr>)"
    using assms(1) by (simp add: sendToSocketByAddress_def write_counted_def socket_write_def inc_def Let_def)
  then show thesis by (rule that [where x = ?x]) (use h x in simp_all)
qed

lemma answer_read:
  assumes "Options x = [NewOption OptionHandshakeType (VInt CoapHandshakeTypePeerHello)]"
    and "MType x = ACK" "length (Token x) \<le> 8" "Payload x = Some (BytesPayload pk)" "BreakConnectionOnPK orig = None"
  shows "\<exists>r. accept_datagram tr (fst (Serialize pdq (finish_message tr' x))) src e =
      (Inr r, inc MetricReceivedMessages e) \<and> peer_key_of orig (Some r) = Inr pk"
proof -
  have o: "stable_option (NewOption OptionHandshakeType (VInt CoapHandshakeTypePeerHello))"
    "wire_option (NewOption OptionHandshakeType (VInt CoapHandshakeTypePeerHello))" by code_simp+
  have w: "wire_msg x" "length (Options x) < 12" "list_all stable_option (Options x)" "GetOptions x OptionChecksum = []"
    using assms o by (simp_all add: wire_msg_def GetOptions_def opts_unique_def)
  have d: "decoded_options [NewOption OptionHandshakeType (VInt CoapHandshakeTypePeerHello)]
      = [NewOption OptionHandshakeType (VUint32 2)]" by code_simp
  have g: "GetOptions x OptionHandshakeType = [NewOption OptionHandshakeType (VInt CoapHandshakeTypePeerHello)]"
    using assms(1) by (simp add: GetOptions_def)
  let ?r = "(received_msg (finish_message tr' x))\<lparr>Sender := Some src\<rparr>"
  have "GetOptions ?r OptionHandshakeType = GetOptions (received_msg (finish_message tr' x)) OptionHandshakeType"
    by (simp add: GetOptions_def)
  also have "\<dots> = [NewOption OptionHandshakeType (VUint32 2)]"
    using d g by (simp add: GetOptions_received GetOptions_normalise GetOptions_finished)
  finally have o: "GetOption ?r OptionHandshakeType = Some (NewOption OptionHandshakeType (VUint32 2))"
    by (simp add: GetOption_GetOptions)
  have "Payload ?r = Some (BytesPayload pk)"
    using finished_fields(5) [of tr' x] assms(4) by (simp add: received_msg_def frame_def)
  then have "peer_key_of orig (Some ?r) = Inr pk"
    using o assms(5) by (simp add: peer_key_of_def IntValue_def)
  then show ?thesis using accept_finished [OF w] by blast
qed

lemma handshake_answered:
  assumes "crypto_laws cr" "tr_crypto tr = cr" "session_ok cr cl" "sessions_ok cr e"
    and "\<not> IsProxies m" "GetOption m OptionHandshakeType = Some opt" "IntValue opt = CoapHandshakeTypeClientHello"
    and "Payload m = Some (BytesPayload (publicKey (Curve cl)))" "GetOptions m OptionProxySecurityID = []"
    and "wres e (length (sent e)) = None" "tr_privateKey tr \<noteq> [] \<or> crand e (crand_pos e) \<noteq> None"
  obtains s x a b sig e3 where "session_ok cr s"
    "sent e3 = sent e @ [(Some (sender m), fst (Serialize (tr_sorter tr) (finish_message tr x)))]" "cache_ok (sessions e3)"
    "Options x = [NewOption OptionHandshakeType (VInt CoapHandshakeTypePeerHello)]"
    "MType x = ACK" "Token x = Token m" "Payload x = Some (BytesPayload (publicKey (Curve s)))"
    "GetSignature cr (cl\<lparr>PeerPublicKey' := publicKey (Curve s)\<rparr>) = Inr sig"
    "Verify cr (cl\<lparr>PeerPublicKey' := publicKey (Curve s)\<rparr>) sig
      = (None, cl\<lparr>PeerPublicKey' := publicKey (Curve s), SAEAD := Some a\<rparr>)" "aead_match a b"
    "receiveHandshake tr m px e = (Some (False, None), setSessionForAddress
      (s\<lparr>PeerPublicKey' := publicKey (Curve cl), SAEAD := Some b,
         UpdatedAt := next_now e3 div 1000000000\<rparr>)
      (tr_local tr) (sender m) px (snd (tick e3)))"
proof -
  obtain so e1 where 1: "getSessionForAddress (tr_local tr) (sender m) px e = (so, e1)" by fastforce
  have e1: "sent e1 = sent e" "wres e1 = wres e" "crand e1 = crand e" "crand_pos e1 = crand_pos e"
    using same_net_getSession [of e "tr_local tr" "sender m" px] 1
    by (auto simp: same_net_def getSessionForAddress_def tick_def Let_def split_beta split: option.splits)
  obtain ps e2 where 2: "(case so of Some s \<Rightarrow> (Inr s, e1) | None \<Rightarrow> fresh_session tr e1) = (ps, e2)" by fastforce
  have ok: "sessions_ok cr e2 \<and> (\<forall>s. ps = Inr s \<longrightarrow> session_ok cr s)"
    using sessions_ok_get [OF assms(4) 1] 2 fresh_session_ok [of tr cr e1] assms(1,2)
    by (cases so) (auto simp: stored_ok_def)
  have e2: "sent e2 = sent e" "wres e2 = wres e" using e1 2 by (auto simp: fresh_session_def split: option.splits if_splits)
  obtain s where s: "ps = Inr s"
    using 2 e1 assms(11) by (cases so) (auto simp: fresh_session_def NewSecuredSession_def NewCurve25519_def split: if_splits)
  let ?s = "s\<lparr>PeerPublicKey' := publicKey (Curve cl)\<rparr>" and ?cl = "cl\<lparr>PeerPublicKey' := publicKey (Curve s)\<rparr>"
  have sok: "session_ok cr s" "session_ok cr ?s" "session_ok cr ?cl" using ok s assms(3) by (simp_all add: session_ok_def)
  have len: "length (GetPublicKey (Curve s)) = 32" by (rule public_key_length [OF assms(1) sok(1)])
  obtain x e3 where x: "incomingHandshake tr (GetPublicKey (Curve s)) m e2 = (Some None, e3)"
    "sent e3 = sent e2 @ [(Some (sender m), fst (Serialize (tr_sorter tr) (finish_message tr x)))]"
    "Options x = [NewOption OptionHandshakeType (VInt CoapHandshakeTypePeerHello)]"
    "MType x = ACK" "Token x = Token m" "Payload x = Some (BytesPayload (GetPublicKey (Curve s)))"
    using hello_sent [OF _ assms(9) len, of e2] assms(10) e2 by metis
  obtain sig a b where m: "GetSignature cr ?cl = Inr sig" "GetSignature cr ?s = Inr sig"
    "Verify cr ?cl sig = (None, ?cl\<lparr>SAEAD := Some a\<rparr>)" "PeerVerify cr ?s sig = (None, ?s\<lparr>SAEAD := Some b\<rparr>)" "aead_match a b"
    using sessions_match [OF assms(1) sok(3,2)] by auto
  let ?e3 = "inc MetricSuccessfulHandhshakes e3"
  have "sessions_ok cr e3" using incomingHandshake_ok [OF _ len x(1)] ok by simp
  then have c: "cache_ok (sessions ?e3)" by (simp add: sessions_ok_def inc_def)
  have r: "receiveHandshake tr m px e = (Some (False, None), setSessionForAddress
      (?s\<lparr>SAEAD := Some b, UpdatedAt := next_now ?e3 div 1000000000\<rparr>) (tr_local tr) (sender m) px (snd (tick ?e3)))"
    using assms(2,5-8) 1 2 s x(1) m(2,4)
    by (simp add: receiveHandshake_def return_def and_then_def Let_def split_beta)
  show thesis
    by (rule that [of s ?e3 x sig a b]) (use sok(1) x c e2 m r in \<open>simp_all add: GetPublicKey_def inc_def\<close>)
qed

text \<open>C3: A handshake ends with matching sessions on both sides. A server that receives the hello of
  a client, and can write to its socket, answers with one datagram; a client that receives
  this datagram accepts it, takes the key of the server from it and finishes its
  handshake. Each side then holds, for its session lifetime, a session with the key of the
  other, and what one side seals the other opens.\<close>

theorem handshake_agreement:
  assumes "crypto_laws cr" "tr_crypto trS = cr" "tr_crypto trC = cr" "session_ok cr cl" "sessions_ok cr eS"
    and "\<not> IsProxies m" "GetOption m OptionHandshakeType = Some opt" "IntValue opt = CoapHandshakeTypeClientHello"
    and "Payload m = Some (BytesPayload (publicKey (Curve cl)))" "GetOptions m OptionProxySecurityID = []"
    and "length (Token m) \<le> 8" "BreakConnectionOnPK orig = None" "cache_ok (sessions eC)"
    and "wres eS (length (sent eS)) = None" "tr_privateKey trS \<noteq> [] \<or> crand eS (crand_pos eS) \<noteq> None"
  shows "\<exists>eS' sv b d r pk eC' cl' a.
    receiveHandshake trS m px eS = (Some (False, None), eS') \<and> sent eS' = sent eS @ [(Some (sender m), d)] \<and>
    accept_datagram trC d addr eC = (Inr r, inc MetricReceivedMessages eC) \<and> peer_key_of orig (Some r) = Inr pk \<and>
    finish_handshake trC cl addr pc pk (inc MetricReceivedMessages eC) = (None, eC') \<and>
    (\<forall>t. fst (Session_Get (tr_local trS) (sender m) px t (sessions eS')) = (if t \<le> last_now eS' + ttl (sessions eS') then Some sv else None)) \<and>
    (\<forall>t. fst (Session_Get (tr_local trC) addr pc t (sessions eC')) = (if t \<le> last_now eC' + ttl (sessions eC') then Some cl' else None)) \<and>
    SAEAD sv = Some b \<and> SAEAD cl' = Some a \<and> aead_match a b \<and>
    PeerPublicKey' sv = publicKey (Curve cl) \<and> PeerPublicKey' cl' = publicKey (Curve sv)"
proof -
  obtain s x a b sig e3 where h: "session_ok cr s"
    "sent e3 = sent eS @ [(Some (sender m), fst (Serialize (tr_sorter trS) (finish_message trS x)))]" "cache_ok (sessions e3)"
    "Options x = [NewOption OptionHandshakeType (VInt CoapHandshakeTypePeerHello)]"
    "MType x = ACK" "Token x = Token m" "Payload x = Some (BytesPayload (publicKey (Curve s)))"
    "GetSignature cr (cl\<lparr>PeerPublicKey' := publicKey (Curve s)\<rparr>) = Inr sig"
    "Verify cr (cl\<lparr>PeerPublicKey' := publicKey (Curve s)\<rparr>) sig
      = (None, cl\<lparr>PeerPublicKey' := publicKey (Curve s), SAEAD := Some a\<rparr>)" "aead_match a b"
    "receiveHandshake trS m px eS = (Some (False, None), setSessionForAddress
      (s\<lparr>PeerPublicKey' := publicKey (Curve cl), SAEAD := Some b,
         UpdatedAt := next_now e3 div 1000000000\<rparr>)
      (tr_local trS) (sender m) px (snd (tick e3)))"
    by (rule handshake_answered [OF assms(1,2,4-10,14,15)])
  let ?pk = "publicKey (Curve s)" and ?d = "fst (Serialize (tr_sorter trS) (finish_message trS x))"
  let ?cl' = "cl\<lparr>PeerPublicKey' := ?pk, SAEAD := Some a\<rparr>"
    and ?sv = "s\<lparr>PeerPublicKey' := publicKey (Curve cl), SAEAD := Some b, UpdatedAt := next_now e3 div 1000000000\<rparr>"
  let ?eS' = "setSessionForAddress ?sv (tr_local trS) (sender m) px (snd (tick e3))"
  let ?eC = "inc MetricReceivedMessages eC"
  let ?eC' = "inc MetricSuccessfulHandhshakes (storeSession ?cl' (tr_local trC) addr pc ?eC)"
  obtain r where r: "accept_datagram trC ?d addr eC = (Inr r, ?eC)" "peer_key_of orig (Some r) = Inr ?pk"
    using answer_read [OF h(4,5) _ h(7) assms(12)] h(6) assms(11) by metis
  have tS: "\<forall>t. fst (Session_Get (tr_local trS) (sender m) px t (sessions ?eS')) =
      (if t \<le> last_now ?eS' + ttl (sessions ?eS') then Some ?sv else None)"
    using stored_session [of "snd (tick e3)" "tr_local trS" "sender m" px _ ?sv] h(3)
    by (simp add: setSessionForAddress_def last_now_inc tick_def)
  have tC: "\<forall>t. fst (Session_Get (tr_local trC) addr pc t (sessions ?eC')) =
      (if t \<le> last_now ?eC' + ttl (sessions ?eC') then Some ?cl' else None)"
    using stored_session [of ?eC "tr_local trC" addr pc _ ?cl'] assms(13) by (simp add: last_now_inc)
  have f: "finish_handshake trC cl addr pc ?pk ?eC = (None, ?eC')"
    using h(8,9) assms(3) by (simp add: finish_handshake_def)
  have sent: "sent ?eS' = sent eS @ [(Some (sender m), ?d)]"
    using h(2) by (simp add: setSessionForAddress_def storeSession_def tick_def inc_def Let_def)
  show ?thesis
    by (rule exI [of _ ?eS'], rule exI [of _ ?sv], rule exI [of _ b], rule exI [of _ ?d], rule exI [of _ r],
        rule exI [of _ ?pk], rule exI [of _ ?eC'], rule exI [of _ ?cl'], rule exI [of _ a])
      (use h(10,11) sent r f tS tC in \<open>simp add: last_now_inc\<close>)
qed

subsection \<open>Witnesses\<close>

definition sample_hello :: coap_msg where
  "sample_hello = zero_msg\<lparr>MCode := GET, MessageID := 7, Token := [1, 2, 3, 4, 5, 6],
     Options := [NewOption OptionHandshakeType (VInt 1)],
     Payload := Some (BytesPayload (publicKey (Curve (toy_session 2 1)))),
     Sender := Some (lit ''10.0.0.7:5000'')\<rparr>"

definition sample_client :: transport where
  "sample_client = sample_transport\<lparr>tr_local := lit ''10.0.0.7:5000''\<rparr>"

lemma sample_sessions_ok: "sessions_ok toy_crypto sample_env"
proof -
  have "cache_abs (newShardedCache t :: SecuredSession shardedCache) k = None" for t k
    by (simp add: cache_abs_def newShardedCache_def shard_def shard_index_less)
  then show ?thesis by (simp add: sessions_ok_def sample_env_def cache_ok_new)
qed

theorem handshake_agreement_witness:
  "\<exists>eS' d r pk. receiveHandshake sample_transport sample_hello [] sample_env = (Some (False, None), eS') \<and>
    sent eS' = [(Some (lit ''10.0.0.7:5000''), d)] \<and>
    fst (accept_datagram sample_client d (lit ''127.0.0.1:4000'') sample_env) = Inr r \<and>
    peer_key_of zero_msg (Some r) = Inr pk"
proof -
  have h: "\<not> IsProxies sample_hello" "GetOption sample_hello OptionHandshakeType = Some (NewOption OptionHandshakeType (VInt 1))"
    "IntValue (NewOption OptionHandshakeType (VInt 1)) = CoapHandshakeTypeClientHello"
    "Payload sample_hello = Some (BytesPayload (publicKey (Curve (toy_session 2 1))))"
    "GetOptions sample_hello OptionProxySecurityID = []" "length (Token sample_hello) \<le> 8"
    "BreakConnectionOnPK zero_msg = None" "sender sample_hello = lit ''10.0.0.7:5000''"
    by (simp_all add: sample_hello_def zero_msg_def GetOption_def GetOptions_def IntValue_def sender_def)
  have t: "tr_crypto sample_transport = toy_crypto" "tr_crypto sample_client = toy_crypto"
    by (simp_all add: sample_transport_def sample_client_def)
  have e: "cache_ok (sessions sample_env)" "wres sample_env (length (sent sample_env)) = None"
    "tr_privateKey sample_transport \<noteq> [] \<or> crand sample_env (crand_pos sample_env) \<noteq> None" "sent sample_env = []"
    by (simp_all add: sample_env_def cache_ok_new)
  from handshake_agreement [OF toy_crypto_laws t toy_session_ok sample_sessions_ok h(1-7) e(1-3), of "[]" "lit ''127.0.0.1:4000''" "[]"]
  show ?thesis using h(8) e(4) by auto
qed

definition sample_session :: "AEAD \<Rightarrow> SecuredSession" where
  "sample_session a = (toy_session 2 1)\<lparr>SAEAD := Some a\<rparr>"

text \<open>The sample state of an endpoint that holds a session with a peer.\<close>

definition sample_env_with :: "AEAD \<Rightarrow> transport \<Rightarrow> bytes \<Rightarrow> env" where
  "sample_env_with a tr peer = storeSession (sample_session a) (tr_local tr) peer [] sample_env"

lemma sample_stored:
  "fst (Session_Get (tr_local tr) peer [] (next_now (sample_env_with a tr peer)) (sessions (sample_env_with a tr peer)))
    = Some (sample_session a)"
proof -
  have "cache_ok (sessions sample_env)" by (simp add: sample_env_def cache_ok_new)
  moreover have "next_now (sample_env_with a tr peer) \<le> last_now (sample_env_with a tr peer) + ttl (sessions (sample_env_with a tr peer))"
    by (simp add: sample_env_with_def storeSession_def next_now_def last_now_def tick_def sample_env_def Let_def
      Session_Set_def sc.life_set newShardedCache_def limit_defs)
  ultimately show ?thesis
    using stored_session unfolding sample_env_with_def by simp
qed

lemma sample_direct:
  "direct_request sample_request (lit ''127.0.0.1:5683'') [(lit ''room'', lit ''a b''), (lit ''q'', lit ''x&y=z'')]"
proof -
  have "GetScheme sample_request = COAPS_SCHEME" "MCode sample_request \<le> 4" "ProxyAddr sample_request = []"
    "GetOptions sample_request OptionProxyURI = []" "GetOptions sample_request OptionHandshakeType = []"
    "GetOptions sample_request OptionChecksum = []" "list_all stable_option (Options sample_request)"
    "length (Options sample_request) \<le> 10"
    by code_simp+
  moreover have "length (GetURI sample_request (lit ''127.0.0.1:5683'')) < 100" by code_simp
  moreover have "wire_msg sample_request" by code_simp
  ultimately show ?thesis using sample_plain by (simp add: direct_request_def)
qed

theorem secure_channel_witness:
  "\<exists>d r m' e' e''. snd (last (sent (snd (sendToSocketByAddress sample_client sample_request (lit ''127.0.0.1:5683'')
      (sample_env_with (toy_aead 1 2) sample_client (lit ''127.0.0.1:5683'')))))) = d \<and>
    preparationReceivingBufferForStorageLocalStates sample_transport d (lit ''10.0.0.7:5000'')
      (sample_env_with (toy_aead 2 1) sample_transport (lit ''10.0.0.7:5000'')) = (Inr r, e') \<and>
    localStateSecurityInputLayer sample_transport r [] e' = (Some (True, None, m'), e'') \<and>
    frame m' = lit ''on'' \<and> GetURIQuery m' (lit ''q'') = lit ''x&y=z''"
proof -
  have r: "\<forall>q. mset (tr_range sample_transport q) = mset q" by (simp add: sample_transport_def)
  have s: "SAEAD (sample_session a) = Some a" for a by (simp add: sample_session_def)
  have w: "wres (sample_env_with a tr p) n = None" for a tr p n
    by (simp add: sample_env_with_def storeSession_def tick_def sample_env_def Let_def)
  have f: "GetURIQuery sample_request (lit ''q'') = lit ''x&y=z''" "frame sample_request = lit ''on''" by code_simp+
  from secure_channel [OF sample_direct toy_aead_match r sample_stored s sample_stored s w, of sample_client 1 2 "lit ''10.0.0.7:5000''"]
  show ?thesis using f by fastforce
qed

subsection \<open>Nothing secured leaves in clear\<close>

lemma GetURI_read:
  assumes "\<And>c. c \<in> {OptionURIScheme, OptionURIPath, OptionURIQuery} \<Longrightarrow> GetOptions m c = GetOptions m' c"
  shows "GetURI m host = GetURI m' host"
  using assms by (simp add: GetURI_def GetSchemeString_def GetURIPath_def GetURIQueryString_def
      GetOption_GetOptions GetOptionsAsString_def Let_def)

text \<open>The proxy part under which the session of a message is looked up: its proxy address, followed
  by the proxy id if there is one.\<close>

definition proxy_part :: "bytes \<Rightarrow> bytes \<Rightarrow> bool" where
  "proxy_part proxyAddr px \<longleftrightarrow> px = proxyAddr \<or> proxyAddr \<noteq> [] \<and> (\<exists>n. px = proxyAddr @ decimal n)"

text \<open>What the security layer gives for a coaps message: the message sealed by the session that
  was found in the pool for this peer, at a clock reading of the call.\<close>

lemma secured_output:
  assumes "GetScheme c = COAPS_SCHEME" "securityOutputLayer tr c addr e = (None, c', e')"
  obtains m1 px n ses a where
    "fst (Session_Get (tr_local tr) addr px (clock e n + waited e) (sessions e)) = Some ses" "clock_pos e \<le> n"
    "proxy_part (ProxyAddr c) px" "SAEAD ses = Some a" "c' = encrypt m1 addr a" "frame m1 = frame c"
    "MessageID m1 = MessageID c" "Token m1 = Token c" "\<forall>d. d \<noteq> OptionProxySecurityID \<longrightarrow> GetOptions m1 d = GetOptions c d"
proof -
  obtain v m1 e1 where p: "setProxyIDIfNeed c (tr_local tr) e = (v, m1, e1)"
    by (cases "setProxyIDIfNeed c (tr_local tr) e")
  obtain px e2 where w: "withProxyID (ProxyAddr m1) (tr_local tr) e1 = (px, e2)" by fastforce
  obtain so e3 where gs: "getSessionForAddress (tr_local tr) addr px e2 = (so, e3)" by fastforce
  have e1: "sessions e1 = sessions e" "clock e1 = clock e" "waited e1 = waited e" "clock_pos e \<le> clock_pos e1"
    "ProxyAddr m1 = ProxyAddr c"
    using p by (auto simp: setProxyIDIfNeed_def tick_def Let_def split_beta split: option.splits if_splits)
  have e2: "sessions e2 = sessions e" "clock e2 = clock e" "waited e2 = waited e" "clock_pos e \<le> clock_pos e2"
    "proxy_part (ProxyAddr c) px"
    using w e1 by (auto simp: withProxyID_def getProxyIDIfNeed_def tick_def Let_def split_beta proxy_part_def
        split: option.splits if_splits)
  obtain s a where s: "so = Some s" "SAEAD s = Some a" "c' = encrypt m1 addr a"
    using assms p w gs by (auto simp: securityOutputLayer_def split: option.splits)
  then have "fst (Session_Get (tr_local tr) addr px (clock e (clock_pos e2) + waited e) (sessions e)) = Some s"
    using gs e2 by (auto simp: getSessionForAddress_def tick_def Let_def split_beta split: option.splits)
  then show thesis
    using that s e2(4,5) setProxyID_frame [where c = c and loc = "tr_local tr" and e = e] p by auto
qed

text \<open>C11: A message of the coaps scheme never leaves in clear: either the send fails because there
  is no session for the peer and nothing is written, or one datagram is written, of a message
  without path and query, whose payload and whose URI are the sealed ones of the message, under
  the cipher of the session that the pool holds for this peer at that time; besides these and
  a checksum and proxy id it has the options of the message and no others.\<close>

theorem coaps_never_in_clear:
  assumes "GetScheme m = COAPS_SCHEME" "sendToSocketByAddress tr m addr e = (r, e')"
  shows "(r \<noteq> None \<and> sent e' = sent e) \<or>
    (\<exists>x px n ses a nonce.
      fst (Session_Get (tr_local tr) addr px (clock e n + waited e) (sessions e)) = Some ses \<and> clock_pos e \<le> n \<and>
      proxy_part (ProxyAddr m) px \<and> SAEAD ses = Some a \<and> nonce = makeNonce (MyIV a) (MessageID m) \<and>
      sent e' = sent e @ [(Some addr, fst (Serialize (tr_sorter tr) x))] \<and>
      GetOptions x OptionURIPath = [] \<and> GetOptions x OptionURIQuery = [] \<and>
      GetOptions x OptionCoapsUri =
        [NewOption OptionCoapsUri (VString (gcmSeal (encrypter a) nonce (GetURI m addr) []))] \<and>
      frame x = (if frame m = [] then [] else gcmSeal (encrypter a) nonce (frame m) []) \<and>
      MessageID x = MessageID m \<and> Token x = Token m \<and>
      (\<forall>c. c \<notin> {OptionURIPath, OptionURIQuery, OptionCoapsUri, OptionChecksum, OptionProxySecurityID} \<longrightarrow>
        GetOptions x c = GetOptions m c))"
proof -
  obtain c g where c: "Clone m True (ids e) = (c, g)" by fastforce
  note cf = Clone_copies [where m = m and g = "ids e", unfolded c fst_conv]
  have pa: "ProxyAddr c = ProxyAddr m"
    using c by (auto simp: Clone_def NewCoAPMessageId_def split_beta Let_def)
  let ?e = "e\<lparr>ids := g\<rparr>"
  obtain r' c' e3 where o: "securityOutputLayer tr c addr ?e = (r', c', e3)"
    by (cases "securityOutputLayer tr c addr ?e")
  have q: "sent e3 = sent e" using same_net_outputLayer [of ?e tr c addr] o by (simp add: same_net_def)
  show ?thesis
  proof (cases r')
    case (Some err)
    then have "r \<noteq> None \<and> e' = e3"
      using assms(2) o c by (auto simp: sendToSocketByAddress_def preparationSendingMessage_def with_ids_split)
    then show ?thesis using q by simp
  next
    case None
    let ?x = "finish_message tr c'"
    let ?buf = "fst (Serialize (tr_sorter tr) ?x)"
    have "preparationSendingMessage tr m addr e = (Inr ?buf, e3)"
      using o c None by (simp add: preparationSendingMessage_def with_ids_split finish_message_def)
    then have "e' = snd (write_counted (Some addr) ?buf e3)"
      using assms(2) by (simp add: sendToSocketByAddress_def)
    then have sent: "sent e' = sent e @ [(Some addr, ?buf)]"
      using q by (auto simp: write_counted_def socket_write_def Let_def split: option.splits)
    obtain m1 px n ses a where
      s: "fst (Session_Get (tr_local tr) addr px (clock ?e n + waited ?e) (sessions ?e)) = Some ses" "clock_pos ?e \<le> n"
        "proxy_part (ProxyAddr c) px" "SAEAD ses = Some a" "c' = encrypt m1 addr a" "frame m1 = frame c"
        "MessageID m1 = MessageID c" "Token m1 = Token c" "\<forall>d. d \<noteq> OptionProxySecurityID \<longrightarrow> GetOptions m1 d = GetOptions c d"
      using secured_output [OF _ o [unfolded None]] assms(1) cf(5) by metis
    have uri: "GetURI m1 addr = GetURI m addr" using s(9) cf(1) by (intro GetURI_read) auto
    have x: "GetOptions ?x d = GetOptions (encrypt m1 addr a) d" if "d \<noteq> OptionChecksum" for d
      using GetOptions_finished [OF that] s(5) by simp
    have "frame ?x = (if frame m = [] then [] else gcmSeal (encrypter a) (makeNonce (MyIV a) (MessageID m)) (frame m) [])"
      "MessageID ?x = MessageID m" "Token ?x = Token m"
      using s(5-8) cf(2-4) by (simp_all add: finished_fields encrypt_fields encrypt_hides Seal_def)
    then show ?thesis
      using s(1-4) sent pa uri s(7,9) cf(1,3)
      by (intro disjI2 exI [of _ ?x] exI [of _ px] exI [of _ n] exI [of _ ses] exI [of _ a]
          exI [of _ "makeNonce (MyIV a) (MessageID m)"])
        (simp add: x encrypt_options sealed_uri_def Seal_def)
  qed
qed

theorem coaps_never_in_clear_witness:
  "\<exists>x (ses :: SecuredSession) a nonce. sent (snd (sendToSocketByAddress sample_client sample_request (lit ''127.0.0.1:5683'')
      (sample_env_with (toy_aead 1 2) sample_client (lit ''127.0.0.1:5683''))))
        = [(Some (lit ''127.0.0.1:5683''), fst (Serialize id x))] \<and>
    SAEAD ses = Some a \<and> GetOptions x OptionURIPath = [] \<and> frame x = gcmSeal (encrypter a) nonce (lit ''on'') []"
proof -
  let ?p = "lit ''127.0.0.1:5683''" and ?e = "sample_env_with (toy_aead 1 2) sample_client (lit ''127.0.0.1:5683'')"
  have e: "wres ?e n = None" "sent ?e = []" for n
    by (simp_all add: sample_env_with_def storeSession_def tick_def sample_env_def Let_def)
  have c: "SAEAD (sample_session (toy_aead 1 2)) = Some (toy_aead 1 2)" by (simp add: sample_session_def)
  obtain e' x where w: "sendToSocketByAddress sample_client sample_request ?p ?e = (None, e')"
    by (rule secured_datagram [OF sample_direct toy_aead_match getSession_hit [OF sample_stored] c e(1)])
  have f: "GetScheme sample_request = COAPS_SCHEME" "frame sample_request = lit ''on''" "lit ''on'' \<noteq> []" by code_simp+
  have t: "tr_sorter sample_client = id" by (simp add: sample_client_def sample_transport_def)
  obtain x a nonce and ses :: SecuredSession where x: "SAEAD ses = Some a" "GetOptions x OptionURIPath = []"
    "sent e' = sent ?e @ [(Some ?p, fst (Serialize (tr_sorter sample_client) x))]"
    "frame x = (if frame sample_request = [] then [] else gcmSeal (encrypter a) nonce (frame sample_request) [])"
    using coaps_never_in_clear [OF f(1) w] by blast
  have "frame x = gcmSeal (encrypter a) nonce (lit ''on'') []" using x(4) f(2,3) by simp
  moreover have "sent (snd (sendToSocketByAddress sample_client sample_request ?p ?e)) = [(Some ?p, fst (Serialize id x))]"
    unfolding w snd_conv x(3) e(2) t by simp
  ultimately show ?thesis using x(1,2) by blast
qed

end
