(* ===== verification/Server.thy ===== *)
theory Server
  imports Local_State Client_Send Tcp_Framing
begin

text \<open>
  \<open>server.go\<close>: the server with its sockets, its proxy table and its requests to others. The
  state shared with the handlers is that of \<open>Local_State\<close>.
\<close>

subsection \<open>State\<close>

record proxyNote =
  note_addr :: bytes
  note_tr :: transport

text \<open>
  What is not the server's: the primitives its transports share, the cache of the package
  \<open>go-cache\<close>, the resolver, and the calls of the network that open and close sockets (a
  socket is named by its local address).
\<close>

record 'c platform =
  pf_base :: transport
  pf_get :: "bytes \<Rightarrow> int \<Rightarrow> 'c \<Rightarrow> proxyNote option"
  pf_set :: "bytes \<Rightarrow> proxyNote \<Rightarrow> int \<Rightarrow> 'c \<Rightarrow> 'c"
  pf_count :: "'c \<Rightarrow> int"
  pf_empty :: 'c
  pf_resolve :: "bytes \<Rightarrow> bytes option"
  pf_listen :: "bytes \<Rightarrow> err + bytes"
  pf_listenTCP :: "bytes \<Rightarrow> err + bytes"
  pf_close :: "bytes \<Rightarrow> err option"

text \<open>\<open>cache.New(time.Minute, ...)\<close>: an entry is found for a minute, and the keys are independent.\<close>

definition note_life :: int where "note_life = 60 * second"

definition cache_laws :: "'c platform \<Rightarrow> bool" where
  "cache_laws pf \<longleftrightarrow>
    (\<forall>k v t now c. now \<le> t + note_life \<longrightarrow> pf_get pf k now (pf_set pf k v t c) = Some v) \<and>
    (\<forall>j k v t now c. j \<noteq> k \<longrightarrow> pf_get pf j now (pf_set pf k v t c) = pf_get pf j now c)"

text \<open>
  \<open>tcpConns\<close> is the process-wide \<open>connStorage\<close>, \<open>closed_sockets\<close> lists the calls of \<open>Close\<close>;
  \<open>crashed\<close> tells that a goroutine without \<open>recover\<close> panicked, which ends the process.
\<close>

record 'c Server =
  shared :: server_state
  proxyEnable :: bool
  sr :: "transport option"
  server_key :: bytes
  saddr :: bytes
  connectionType :: "8 word"
  proxyCache :: 'c
  tcpConns :: "dialed shardedCache"
  tcpLn :: "bytes option"
  closeOnce :: bool
  closeErr :: "err option"
  closed_sockets :: "bytes list"
  crashed :: bool

abbreviation sv_env :: "'c Server \<Rightarrow> env" where
  "sv_env s \<equiv> senv (shared s)"

definition set_env :: "env \<Rightarrow> 'c Server \<Rightarrow> 'c Server" where
  "set_env e s = s\<lparr>shared := (shared s)\<lparr>senv := e\<rparr>\<rparr>"

definition set_bq :: "backwardStorage \<Rightarrow> 'c Server \<Rightarrow> 'c Server" where
  "set_bq b s = s\<lparr>shared := (shared s)\<lparr>bq := b\<rparr>\<rparr>"

definition tick_sv :: "'c Server \<Rightarrow> int \<times> 'c Server" where
  "tick_sv s = (let (now, e) = tick (sv_env s) in (now, set_env e s))"

definition ConnectionTypeUDP :: "8 word" where "ConnectionTypeUDP = 1"

definition ConnectionTypeTCP :: "8 word" where "ConnectionTypeTCP = 2"

definition NewServer :: "'c platform \<Rightarrow> Opt list \<Rightarrow> server_state \<Rightarrow> dialed shardedCache \<Rightarrow> 'c Server" where
  "NewServer pf opts sh conns =
    \<lparr>shared = sh\<lparr>resources := [], senv := (senv sh)\<lparr>sessions := newShardedCache SESSIONS_POOL_EXPIRATION\<rparr>\<rparr>,
     proxyEnable = False, sr = None, server_key = privatekey (read_opts opts), saddr = [], connectionType = 0,
     proxyCache = pf_empty pf, tcpConns = conns, tcpLn = None, closeOnce = False, closeErr = None, closed_sockets = [],
     crashed = False\<rparr>"

text \<open>The transport of a connection: it has no private key.\<close>

definition newServerTransport :: "'c platform \<Rightarrow> dialed \<Rightarrow> transport" where
  "newServerTransport pf d = (pf_base pf)\<lparr>tr_privateKey := [], tr_local := d_local d, tr_remote := d_remote d\<rparr>"

subsection \<open>Starting, refreshing, closing\<close>

text \<open>The transport of the UDP socket bound to a local address.\<close>

definition listener_transport :: "'c platform \<Rightarrow> bytes \<Rightarrow> 'c Server \<Rightarrow> transport" where
  "listener_transport pf a s = (newServerTransport pf \<lparr>d_local = a, d_remote = []\<rparr>)\<lparr>tr_privateKey := server_key s\<rparr>"

definition Listen :: "'c platform \<Rightarrow> bytes \<Rightarrow> 'c Server \<Rightarrow> err option \<times> 'c Server" where
  "Listen pf addr s =
    (let s = s\<lparr>saddr := addr, connectionType := connectionType s OR ConnectionTypeUDP\<rparr>
     in case pf_listen pf addr of
          Inl err \<Rightarrow> (Some err, s)
        | Inr a \<Rightarrow> (None, s\<lparr>sr := Some (listener_transport pf a s)\<rparr>))"

definition listenTCP :: "'c platform \<Rightarrow> bytes \<Rightarrow> 'c Server \<Rightarrow> err option \<times> 'c Server" where
  "listenTCP pf addr s =
    (case pf_listenTCP pf addr of Inl err \<Rightarrow> (Some err, s) | Inr a \<Rightarrow> (None, s\<lparr>tcpLn := Some a\<rparr>))"

definition ListenTCP :: "'c platform \<Rightarrow> bytes \<Rightarrow> 'c Server \<Rightarrow> err option \<times> 'c Server" where
  "ListenTCP pf addr s =
    listenTCP pf addr (s\<lparr>saddr := addr, connectionType := connectionType s OR ConnectionTypeTCP\<rparr>)"

definition Serve :: "'c platform \<Rightarrow> bytes \<Rightarrow> 'c Server \<Rightarrow> 'c Server" where
  "Serve pf a s = s\<lparr>sr := Some (listener_transport pf a s)\<rparr>"

definition GetConnectionType :: "'c Server \<Rightarrow> 8 word" where
  "GetConnectionType s = connectionType s"

definition IsTCP :: "'c Server \<Rightarrow> bool" where
  "IsTCP s \<longleftrightarrow> connectionType s AND ConnectionTypeTCP \<noteq> 0"

definition IsUDP :: "'c Server \<Rightarrow> bool" where
  "IsUDP s \<longleftrightarrow> connectionType s AND ConnectionTypeUDP \<noteq> 0"

definition close_socket :: "'c platform \<Rightarrow> bytes \<Rightarrow> 'c Server \<Rightarrow> err option \<times> 'c Server" where
  "close_socket pf a s = (pf_close pf a, s\<lparr>closed_sockets := closed_sockets s @ [a]\<rparr>)"

definition Refresh :: "'c platform \<Rightarrow> 'c Server \<Rightarrow> err option \<times> 'c Server" where
  "Refresh pf s =
    (if saddr s = [] then (Some ErrAddressNotSet, s)
     else let s = (case sr s of Some tr \<Rightarrow> snd (close_socket pf (tr_local tr) s) | None \<Rightarrow> s)
       in case (if IsTCP s then pf_listenTCP pf (saddr s) else pf_listen pf (saddr s)) of
            Inl err \<Rightarrow> (Some err, s)
          | Inr a \<Rightarrow> (None, s\<lparr>sr := Some (listener_transport pf a s)\<rparr>))"

definition Close :: "'c platform \<Rightarrow> 'c Server \<Rightarrow> err option \<times> 'c Server" where
  "Close pf s =
    (if closeOnce s then (closeErr s, s)
     else let s = s\<lparr>closeOnce := True\<rparr>;
              s = (case sr s of
                     Some tr \<Rightarrow> (let (r, s) = close_socket pf (tr_local tr) s in s\<lparr>closeErr := r\<rparr>)
                   | None \<Rightarrow> s);
              s = (case tcpLn s of
                     Some a \<Rightarrow> (let (r, s) = close_socket pf a s
                                in if r \<noteq> None \<and> closeErr s = None then s\<lparr>closeErr := r\<rparr> else s)
                   | None \<Rightarrow> s)
       in (closeErr s, s))"

definition Proxy :: "bool \<Rightarrow> 'c Server \<Rightarrow> 'c Server" where
  "Proxy flag s = s\<lparr>proxyEnable := flag\<rparr>"

definition SetPrivateKey :: "bytes \<Rightarrow> 'c Server \<Rightarrow> 'c Server" where
  "SetPrivateKey k s = s\<lparr>server_key := k\<rparr>"

definition GetPrivateKey :: "'c Server \<Rightarrow> bytes" where
  "GetPrivateKey s = server_key s"

subsection \<open>Sending\<close>

text \<open>A TCP connection of the peer is preferred to the UDP socket. A server without socket has
  a nil transport, whose use is a panic.\<close>

definition transport_to :: "'c platform \<Rightarrow> bytes \<Rightarrow> 'c Server \<Rightarrow> transport option \<times> 'c Server" where
  "transport_to pf addr s =
    (let (now, s) = tick_sv s;
         (conn, c) = GetTCP addr now (tcpConns s);
         s = s\<lparr>tcpConns := c\<rparr>
     in (case conn of Some d \<Rightarrow> Some (newServerTransport pf d) | None \<Rightarrow> sr s, s))"

definition write_to :: "bytes \<Rightarrow> bytes \<Rightarrow> 'c Server \<Rightarrow> err option \<times> 'c Server" where
  "write_to data addr s = (let (r, e) = socket_write (Some addr) data (sv_env s) in (r, set_env e s))"

definition sendMultyProxy :: "'c platform \<Rightarrow> coap_msg \<Rightarrow> bytes \<Rightarrow> 'c Server \<Rightarrow> err option \<times> 'c Server" where
  "sendMultyProxy pf m addr s =
    (if \<not> proxyEnable s then (Some ErrProxyDisabled, s)
     else let (tr, s) = transport_to pf addr s
       in case tr of
            None \<Rightarrow> (Some GoPanic, s)
          | Some tr \<Rightarrow> write_to (fst (Serialize (tr_sorter tr) m)) addr s)"

definition sendTo :: "'c platform \<Rightarrow> coap_msg \<Rightarrow> bytes \<Rightarrow> 'c Server \<Rightarrow> err option \<times> 'c Server" where
  "sendTo pf m addr s =
    (let (tr, s) = transport_to pf addr s
     in case tr of
          None \<Rightarrow> (Some GoPanic, s)
        | Some tr \<Rightarrow> (case preparationSendingMessage tr m addr (sv_env s) of
            (Inl err, e) \<Rightarrow> (Some err, set_env e s)
          | (Inr data, e) \<Rightarrow> write_to data addr (set_env e s)))"

text \<open>What the \<open>select\<close> of \<open>send\<close> takes: a message from its channel, the nil of a closed channel,
  or the timer.\<close>

datatype wait_event = WaitMessage coap_msg | WaitClosed | WaitTimeout

definition begin_wait :: "nat \<Rightarrow> 'c Server \<Rightarrow> 'c Server" where
  "begin_wait ch s = (let b = bq (shared s) in set_bq (b\<lparr>waiting := ch # waiting b\<rparr>) s)"

text \<open>The rounds of \<open>send\<close>; \<open>None\<close> while it waits. A round that ends leaves no receiver behind. After the last timeout it still sends once
  more.\<close>

fun send_rounds ::
    "'c platform \<Rightarrow> coap_msg \<Rightarrow> bytes \<Rightarrow> nat \<Rightarrow> nat \<Rightarrow> wait_event list \<Rightarrow> 'c Server
      \<Rightarrow> (err + coap_msg option) option \<times> wait_event list \<times> 'c Server" where
  "send_rounds pf m addr ch 0 evs s = (Some (Inl ErrTimeout), evs, s)"
| "send_rounds pf m addr ch (Suc n) [] s = (None, [], begin_wait ch s)"
| "send_rounds pf m addr ch (Suc n) (WaitMessage r # evs) s = (Some (Inr (Some r)), evs, s)"
| "send_rounds pf m addr ch (Suc n) (WaitClosed # evs) s = (Some (Inr None), evs, s)"
| "send_rounds pf m addr ch (Suc n) (WaitTimeout # evs) s =
     (let s = set_env (wait_for (Timeout m) (sv_env s)) s
      in case sendTo pf m addr s of
           (Some err, s) \<Rightarrow> (Some (Inl err), evs, s)
         | (None, s) \<Rightarrow> send_rounds pf m addr ch n evs s)"

definition resolved_key :: "'c platform \<Rightarrow> coap_msg \<Rightarrow> bytes \<Rightarrow> bytes" where
  "resolved_key pf m addr =
    GetTokenString m @ (case pf_resolve pf addr of Some a \<Rightarrow> a | None \<Rightarrow> lit ''<nil>'')"

definition default_timeout :: "coap_msg \<Rightarrow> coap_msg" where
  "default_timeout m = (if Timeout m = 0 then m\<lparr>Timeout := second\<rparr> else m)"

definition send :: "'c platform \<Rightarrow> int \<Rightarrow> coap_msg \<Rightarrow> bytes \<Rightarrow> wait_event list \<Rightarrow> 'c Server
      \<Rightarrow> (err + coap_msg option) option \<times> wait_event list \<times> 'c Server" where
  "send pf retries m addr evs s =
    (let m = default_timeout m
     in case sendTo pf m addr s of
          (Some err, s) \<Rightarrow> (Some (Inl err), evs, s)
        | (None, s) \<Rightarrow>
            let key = resolved_key pf m addr;
                (ch, b) = bq_Get key (bq (shared s));
                (r, evs, s) = send_rounds pf m addr ch (nat (retries + 1)) evs (set_bq b s)
            in if r = None then (None, evs, s)
               else let (d, b) = bq_Delete key (bq (shared s))
                 in (if d = BqPanic then Some (Inl GoPanic) else r, evs, set_bq b s))"

text \<open>The options of a call: \<open>WithRetries\<close> sets the number of retries, the last one wins.\<close>

fun read_retries :: "int list \<Rightarrow> int" where
  "read_retries [] = 0"
| "read_retries (r # rs) = (if rs = [] then r else read_retries rs)"

subsection \<open>Requests of the server\<close>

text \<open>The hello message has no scheme option, so \<open>Send\<close> passes it to \<open>send\<close>.\<close>

definition sendHelloFromServer ::
    "'c platform \<Rightarrow> coap_msg \<Rightarrow> bytes \<Rightarrow> bytes \<Rightarrow> wait_event list \<Rightarrow> 'c Server
      \<Rightarrow> (err + bytes) option \<times> wait_event list \<times> 'c Server" where
  "sendHelloFromServer pf orig pk addr evs s =
    (let (m, e) = with_ids (newClientHelloMessage orig pk) (sv_env s);
         (r, evs, s) = send pf 0 m addr evs (set_env e s)
     in (case r of
           None \<Rightarrow> None
         | Some (Inl err) \<Rightarrow> Some (Inl err)
         | Some (Inr resp) \<Rightarrow> Some (peer_key_of orig resp), evs, s))"

definition serverHandshake ::
    "'c platform \<Rightarrow> transport \<Rightarrow> coap_msg \<Rightarrow> bytes \<Rightarrow> bytes \<Rightarrow> wait_event list \<Rightarrow> 'c Server
      \<Rightarrow> err option option \<times> wait_event list \<times> 'c Server" where
  "serverHandshake pf tr m address proxyAddr evs s =
    (let (ses, e) = getSessionForAddress (tr_local tr) address proxyAddr (sv_env s);
         s = set_env e s
     in case ses of
          Some _ \<Rightarrow> (Some None, evs, s)
        | None \<Rightarrow> (case fresh_session tr (sv_env s) of
            (Inl err, e) \<Rightarrow> (Some (Some err), evs, set_env e s)
          | (Inr ses, e) \<Rightarrow>
              let (r, evs, s) = sendHelloFromServer pf m (GetPublicKey (Curve ses)) address evs (set_env e s)
              in case r of
                   None \<Rightarrow> (None, evs, s)
                 | Some (Inl err) \<Rightarrow> (Some (Some err), evs, s)
                 | Some (Inr pk) \<Rightarrow>
                     let (r, e) = finish_handshake tr ses address proxyAddr pk (sv_env s)
                     in (Some r, evs, set_env e s)))"

text \<open>The second attempt, after a session error; only that one has the retries of the caller.\<close>

definition Send_again ::
    "'c platform \<Rightarrow> int list \<Rightarrow> transport \<Rightarrow> coap_msg \<Rightarrow> bytes \<Rightarrow> bytes \<Rightarrow> wait_event list \<Rightarrow> 'c Server
      \<Rightarrow> (err + coap_msg option) option \<times> wait_event list \<times> 'c Server" where
  "Send_again pf opts tr m addr proxyAddr evs s =
    (case serverHandshake pf tr m addr proxyAddr evs s of
       (None, evs, s) \<Rightarrow> (None, evs, s)
     | (Some (Some err), evs, s) \<Rightarrow> (Some (Inl err), evs, s)
     | (Some None, evs, s) \<Rightarrow> send pf (read_retries opts) m addr evs s)"

definition Server_Send ::
    "'c platform \<Rightarrow> int list \<Rightarrow> coap_msg \<Rightarrow> bytes \<Rightarrow> wait_event list \<Rightarrow> 'c Server
      \<Rightarrow> (err + coap_msg option) option \<times> wait_event list \<times> 'c Server" where
  "Server_Send pf opts m addr evs s =
    (if GetScheme m \<noteq> COAPS_SCHEME then send pf (read_retries opts) m addr evs s
     else case transport_to pf addr s of
       (None, s) \<Rightarrow> (Some (Inl GoPanic), evs, s)
     | (Some tr, s) \<Rightarrow>
         let (proxyAddr, m, e) = proxy_session tr m (sv_env s)
         in case serverHandshake pf tr m addr proxyAddr evs (set_env e s) of
              (None, evs, s) \<Rightarrow> (None, evs, s)
            | (Some (Some err), evs, s) \<Rightarrow> (Some (Inl err), evs, s)
            | (Some None, evs, s) \<Rightarrow>
                let m = m\<lparr>Timeout := second\<rparr>
                in case send pf 0 m addr evs s of
                     (Some (Inl err), evs, s) \<Rightarrow>
                       if is_session_error err then Send_again pf opts tr m addr proxyAddr evs s
                       else (Some (Inl err), evs, s)
                   | r \<Rightarrow> r)"

subsection \<open>One datagram, one frame\<close>

text \<open>The goroutines a server starts: the handling of a message, and the forwarding of one that
  names a proxy target, with its sender and the transport it came by.\<close>

datatype goroutine = Local task | Proxying coap_msg bytes transport

definition note_key :: "coap_msg \<Rightarrow> bytes \<Rightarrow> bytes" where
  "note_key m addr = GetTokenString m @ addr"

text \<open>An answer to a forwarded message is passed on as it came, and its note renewed.\<close>

definition forward_answer :: "'c platform \<Rightarrow> coap_msg \<Rightarrow> bytes \<Rightarrow> bytes \<Rightarrow> 'c Server \<Rightarrow> bool \<times> 'c Server" where
  "forward_answer pf m addr data s =
    (let (now, s) = tick_sv s
     in case pf_get pf (note_key m addr) now (proxyCache s) of
          None \<Rightarrow> (False, s)
        | Some note \<Rightarrow>
            let (now, s) = tick_sv s;
                s = s\<lparr>proxyCache := pf_set pf (note_key m addr) note now (proxyCache s)\<rparr>;
                (_, s) = write_to data (note_addr note) s
            in (True, s))"

definition is_peer_hello :: "coap_msg \<Rightarrow> bool" where
  "is_peer_hello m \<longleftrightarrow>
    (case GetOption m OptionHandshakeType of Some opt \<Rightarrow> IntValue opt = CoapHandshakeTypePeerHello | None \<Rightarrow> False)"

text \<open>The body of the goroutine that forwards; the flag is \<open>False\<close> when it returns early.\<close>

definition proxy_run :: "'c platform \<Rightarrow> coap_msg \<Rightarrow> bytes \<Rightarrow> transport \<Rightarrow> 'c Server \<Rightarrow> bool \<times> 'c Server" where
  "proxy_run pf m senderAddr tr s =
    (case url_Parse (GetOptionProxyURIasString m) of
       None \<Rightarrow> (False, s)
     | Some parsedURL \<Rightarrow>
         let m = RemoveOptions m OptionProxyScheme;
             m = RemoveOptions m OptionProxyURI
         in case sendMultyProxy pf m (Host parsedURL) s of
              (Some err, s) \<Rightarrow> (False, if err = GoPanic then s\<lparr>crashed := True\<rparr> else s)
            | (None, s) \<Rightarrow>
                let (now, s) = tick_sv s;
                    s = s\<lparr>proxyCache := pf_set pf (note_key m (Host parsedURL))
                          \<lparr>note_addr = senderAddr, note_tr = tr\<rparr> now (proxyCache s)\<rparr>;
                    e = (sv_env s)\<lparr>met := Set_counter MetricProxySessions (pf_count pf (proxyCache s)) (met (sv_env s))\<rparr>
                in (True, set_env (inc MetricProxySessionsRate e) s))"

definition proxy_forward :: "'c platform \<Rightarrow> coap_msg \<Rightarrow> bytes \<Rightarrow> transport \<Rightarrow> 'c Server \<Rightarrow> 'c Server" where
  "proxy_forward pf m senderAddr tr s = snd (proxy_run pf m senderAddr tr s)"

text \<open>
  One round of \<open>listenLoop\<close>, for a socket that is listening, in two parts. The first ends where
  the loop takes a slot of the semaphore, and gives the message with which it goes on there,
  if any. The read buffer holds \<open>MTU + 1\<close> bytes, a new one for every datagram.
\<close>

definition listen_receive ::
    "'c platform \<Rightarrow> transport \<Rightarrow> bytes \<Rightarrow> bytes \<Rightarrow> 'c Server \<Rightarrow> coap_msg option \<times> 'c Server" where
  "listen_receive pf tr data senderAddr s =
    (let data = take (MTU + 1) data
     in if data = [] then (None, s)
        else if length data > MTU then (None, set_env (inc MetricMaxMTU (sv_env s)) s)
        else case preparationReceivingBufferForStorageLocalStates tr data senderAddr (sv_env s) of
          (Inl _, e) \<Rightarrow> (None, set_env e s)
        | (Inr m, e) \<Rightarrow> (case forward_answer pf m senderAddr data (set_env e s) of
            (True, s) \<Rightarrow> (None, s)
          | (False, s) \<Rightarrow> (Some m, s)))"

text \<open>The second starts the goroutine of the message, or hands it to a waiting request.\<close>

definition listen_dispatch :: "transport \<Rightarrow> coap_msg \<Rightarrow> bytes \<Rightarrow> 'c Server \<Rightarrow> goroutine list \<times> 'c Server" where
  "listen_dispatch tr m senderAddr s =
    (if GetOptionProxyURIasString m \<noteq> [] then ([Proxying m senderAddr tr], s)
     else if is_peer_hello m \<and> bq_Has m (bq (shared s)) then
       ([], set_bq (snd (bq_Write m (bq (shared s)))) s)
     else ([Local (Arrived tr m)], s))"

text \<open>The round when a slot is free; the second component tells whether it took one.\<close>

definition listen_step :: "'c platform \<Rightarrow> transport \<Rightarrow> bytes \<Rightarrow> bytes \<Rightarrow> 'c Server \<Rightarrow> (goroutine list \<times> bool) \<times> 'c Server" where
  "listen_step pf tr data senderAddr s =
    (case listen_receive pf tr data senderAddr s of
       (None, s) \<Rightarrow> (([], False), s)
     | (Some m, s) \<Rightarrow> (case listen_dispatch tr m senderAddr s of (gs, s) \<Rightarrow> ((gs, True), s)))"

subsection \<open>The semaphore of the listening loop\<close>

text \<open>
  The loop with its goroutines. \<open>slots\<close> is the number of tokens in the channel \<open>semaphore\<close>,
  \<open>held\<close> the message the loop has received and not yet dispatched, and \<open>running\<close> the goroutines
  that have not ended, with who started them: the loop, or the rest of the program.
\<close>

datatype origin = ByLoop | ByOthers

record 'c listener =
  sv :: "'c Server"
  slots :: nat
  held :: "(coap_msg \<times> bytes \<times> transport) option"
  running :: "(origin \<times> goroutine) list"

definition new_listener :: "'c Server \<Rightarrow> 'c listener" where
  "new_listener s = \<lparr>sv = s, slots = 0, held = None, running = []\<rparr>"

text \<open>Putting a token into the channel blocks when it is full, taking one when it is empty.\<close>

definition acquire :: "'c listener \<Rightarrow> 'c listener option" where
  "acquire l = (if slots l < maxParallel then Some (l\<lparr>slots := slots l + 1\<rparr>) else None)"

definition release :: "'c listener \<Rightarrow> 'c listener option" where
  "release l = (if slots l > 0 then Some (l\<lparr>slots := slots l - 1\<rparr>) else None)"

definition loop_receive :: "'c platform \<Rightarrow> transport \<Rightarrow> bytes \<Rightarrow> bytes \<Rightarrow> 'c listener \<Rightarrow> 'c listener" where
  "loop_receive pf tr data senderAddr l =
    (case listen_receive pf tr data senderAddr (sv l) of
       (m, s) \<Rightarrow> l\<lparr>sv := s, held := map_option (\<lambda>m. (m, senderAddr, tr)) m\<rparr>)"

text \<open>From the semaphore to the end of the round; \<open>None\<close> while the loop blocks.\<close>

definition loop_dispatch :: "'c listener \<Rightarrow> 'c listener option" where
  "loop_dispatch l =
    (case held l of
       None \<Rightarrow> None
     | Some (m, senderAddr, tr) \<Rightarrow> (case acquire l of
         None \<Rightarrow> None
       | Some l \<Rightarrow> (case listen_dispatch tr m senderAddr (sv l) of
           (gs, s) \<Rightarrow>
             let l = l\<lparr>sv := s, held := None\<rparr>
             in if gs = [] then release l else Some (l\<lparr>running := map (Pair ByLoop) gs @ running l\<rparr>))))"

text \<open>The program points of \<open>processLocalState\<close>; the handler it starts is another goroutine.\<close>

fun of_listener :: "goroutine \<Rightarrow> bool" where
  "of_listener (Local (Arrived tr m)) = True"
| "of_listener (Local (Checked tr m)) = True"
| "of_listener (Local (Bound l m)) = True"
| "of_listener (Local (Locked l)) = True"
| "of_listener (Proxying m a tr) = True"
| "of_listener _ = False"

text \<open>
  A step of the goroutine with number \<open>i\<close>. The function a goroutine of the loop runs defers the
  release of its slot, so that the slot is given back when the function returns, early or not.
\<close>

definition goroutine_step :: "'c platform \<Rightarrow> nat \<Rightarrow> 'c listener \<Rightarrow> 'c listener option" where
  "goroutine_step pf i l =
    (case running l ! i of
       (by, Proxying m a tr) \<Rightarrow>
         (let (complete, s) = proxy_run pf m a tr (sv l);
              l = l\<lparr>sv := s, running := take i (running l) @ drop (Suc i) (running l)\<rparr>
          in if by = ByLoop then release l else Some l)
     | (by, Local t) \<Rightarrow>
         (let (ts, sh) = step_task t (shared (sv l));
              (own, started) = partition (\<lambda>t. of_listener (Local t)) ts;
              l = l\<lparr>sv := (sv l)\<lparr>shared := sh\<rparr>, running := take i (running l) @
                    map (\<lambda>t. (by, Local t)) own @ map (\<lambda>t. (ByOthers, Local t)) started @ drop (Suc i) (running l)\<rparr>
          in if by = ByLoop \<and> own = [] then release l else Some l))"

text \<open>
  The runs: a datagram arrives, the loop goes on at the semaphore, a goroutine makes a step;
  the rest of the program starts goroutines and changes the server in any way.
\<close>

inductive listening :: "'c platform \<Rightarrow> 'c listener \<Rightarrow> bool" for pf where
  Start: "listening pf (new_listener s)"
| Receive: "listening pf l \<Longrightarrow> sr (sv l) = Some tr \<Longrightarrow> held l = None \<Longrightarrow> listening pf (loop_receive pf tr data a l)"
| Dispatch: "listening pf l \<Longrightarrow> loop_dispatch l = Some l' \<Longrightarrow> listening pf l'"
| Run: "listening pf l \<Longrightarrow> i < length (running l) \<Longrightarrow> goroutine_step pf i l = Some l' \<Longrightarrow> listening pf l'"
| Others: "listening pf l \<Longrightarrow> listening pf (l\<lparr>sv := s, running := map (Pair ByOthers) gs @ running l\<rparr>)"

subsection \<open>Messages from elsewhere\<close>

text \<open>Without a socket the goroutine of \<open>ServeMessage\<close> panics on the nil transport and recovers.\<close>

definition ServeMessage :: "coap_msg \<Rightarrow> 'c Server \<Rightarrow> goroutine list" where
  "ServeMessage m s = (case sr s of Some tr \<Rightarrow> [Local (Arrived tr m)] | None \<Rightarrow> [])"

definition set_tcp :: "dialed \<Rightarrow> 'c Server \<Rightarrow> 'c Server" where
  "set_tcp d s = (let (now, s) = tick_sv s in s\<lparr>tcpConns := SetTCP (d_remote d) d now (tcpConns s)\<rparr>)"

text \<open>
  \<open>HandleTCPConn\<close> reads every frame into one buffer, and the token and the payload of a message are
  slices of it. \<open>fill\<close> copies bytes to its front; \<open>filled_by\<close> are the bytes a read copies, also
  when the frame is cut off. \<open>aliased\<close> is a message of a frame of \<open>n\<close> bytes as it reads while the
  buffer holds \<open>arr\<close>: the fields that are values, with the slices as they are then.
\<close>

definition fill :: "bytes \<Rightarrow> bytes \<Rightarrow> bytes" where
  "fill x arr = x @ drop (length x) arr"

definition filled_by :: "bytes \<Rightarrow> bytes" where
  "filled_by r = (case decodeLength r of
      (Inl _, r) \<Rightarrow> []
    | (Inr l, r) \<Rightarrow> if l > 65536 then [] else take (nat l) r)"

definition aliased :: "bytes \<Rightarrow> nat \<Rightarrow> coap_msg \<Rightarrow> coap_msg" where
  "aliased arr n m = m\<lparr>Token := take (length (Token m)) (drop 4 arr),
     Payload := (case Payload m of
         Some (BytesPayload p) \<Rightarrow> Some (BytesPayload (take (length p) (drop (n - length p) arr)))
       | p \<Rightarrow> p)\<rparr>"

text \<open>A goroutine with the length of its frame, and how it sees its message at a time.\<close>

fun seen :: "bytes \<Rightarrow> goroutine \<times> nat \<Rightarrow> goroutine" where
  "seen arr (Local (Arrived tr m), n) = Local (Arrived tr (aliased arr n m))"
| "seen arr (Proxying m a tr, n) = Proxying (aliased arr n m) a tr"
| "seen arr (g, n) = g"

text \<open>What \<open>HandleTCPConn\<close> does with the frame in the first \<open>n\<close> bytes of its buffer.\<close>

definition tcp_message :: "'c platform \<Rightarrow> dialed \<Rightarrow> nat \<Rightarrow> bytes \<Rightarrow> 'c Server \<Rightarrow> goroutine list \<times> 'c Server" where
  "tcp_message pf d n arr s =
    (let tr = newServerTransport pf d;
         s = set_tcp d s;
         (r, mt) = Deserialize (tr_sorter tr) (take n arr) (met (sv_env s));
         s = set_env ((sv_env s)\<lparr>met := mt\<rparr>) s
     in case r of
          (Some m, None) \<Rightarrow>
            let m = m\<lparr>Sender := Some (d_remote d)\<rparr>
            in if GetOptionProxyURIasString m = [] then
                 (case forward_answer pf m (d_remote d) (take n arr) s of
                    (True, s) \<Rightarrow> ([], s)
                  | (False, s) \<Rightarrow>
                      if is_peer_hello m \<and> bq_Has m (bq (shared s)) then
                        ([], set_bq (snd (bq_Write m (bq (shared s)))) s)
                      else ([Local (Arrived tr m)], s))
               else ([Proxying m (d_remote d) tr], s)
        | _ \<Rightarrow> ([], s))"

text \<open>The loop of \<open>HandleTCPConn\<close> over the bytes the connection delivers. It returns the goroutines
  it started, each with the length of its frame, and the buffer they read their messages from.\<close>

function tcp_loop ::
    "'c platform \<Rightarrow> dialed \<Rightarrow> bytes \<Rightarrow> bytes \<Rightarrow> 'c Server \<Rightarrow> (goroutine \<times> nat) list \<times> bytes \<times> 'c Server" where
  "tcp_loop pf d r arr s =
    (let arr = fill (filled_by r) arr
     in case ReadTcpFrame 65536 r of
       (Inl _, r) \<Rightarrow> ([], arr, s)
     | (Inr data, r) \<Rightarrow>
         let n = length data;
             (gs, s) = tcp_message pf d n arr s;
             (gs', arr, s) = tcp_loop pf d r arr s
         in (map (\<lambda>g. (g, n)) gs @ gs', arr, s))"
  by pat_completeness auto

termination
  by (relation "measure (\<lambda>(pf, d, r, arr, s). length r)") (auto dest!: ReadTcpFrame_length [OF sym])

declare tcp_loop.simps [simp del]

text \<open>At the end, with an error, the connection is closed and taken out of the table.\<close>

definition HandleTCPConn ::
    "'c platform \<Rightarrow> dialed \<Rightarrow> bytes \<Rightarrow> 'c Server \<Rightarrow> (goroutine \<times> nat) list \<times> bytes \<times> 'c Server" where
  "HandleTCPConn pf d r s =
    (let (gs, arr, s) = tcp_loop pf d r (replicate 65536 0) (set_tcp d s)
     in (gs, arr, s\<lparr>tcpConns := DeleteTCP (d_remote d) (tcpConns s), closed_sockets := closed_sockets s @ [d_local d]\<rparr>))"

end
