(* ===== verification/Client_Correct.thy ===== *)
theory Client_Correct
  imports Client_Send
begin

text \<open>
  Correctness of the client operations: what a request that is answered, or never answered,
  does to the socket, which message is returned as its response, and what happens to the
  connections of the pool.
\<close>

subsection \<open>The response is the one asked for\<close>

lemma receive_from_token: "receive_from tr m rs e = (Some (Inr x), e') \<Longrightarrow> Token x = Token m"
proof (induction rs arbitrary: m e)
  case (Cons ev rs)
  let ?m = "m\<lparr>Timeout := timeWait\<rparr>"
  have rec: "Token x = Token m" if "receive_from tr ?m rs e1 = (Some (Inr x), e')" for e1
    using Cons.IH [OF that] by simp
  show ?case
  proof (cases ev)
    case (ReadData d)
    let ?e = "e\<lparr>reads := rs\<rparr>"
    obtain r1 e1 where p: "preparationReceivingBuffer tr d (tr_remote tr) (ProxyAddr m) ?e = (r1, e1)" by fastforce
    show ?thesis
    proof (cases "length d > MTU")
      case True
      with Cons.prems ReadData rec show ?thesis by (simp add: Let_def)
    next
      case False
      with Cons.prems ReadData p rec [of e1] show ?thesis
        by (cases r1) (auto simp: Let_def return_def split: sum.splits if_splits)
    qed
  qed (use Cons.prems in \<open>auto simp: return_def\<close>)
qed simp

lemma receiveMessage_token: "receiveMessage tr m e = (Some (Inr x), e') \<Longrightarrow> Token x = Token m"
  unfolding receiveMessage_def by (rule receive_from_token)

lemma Token_deadline [simp]: "Token (deadline m) = Token m"
  by (simp add: deadline_def)

lemma block2_receive_token: "block2_receive tr m n bb e = (Some (Inr x), e') \<Longrightarrow> Token x = Token m"
proof (induction tr m n bb e rule: block2_receive.induct)
  case (1 tr m n bb e)
  obtain r e1 where r: "receiveMessage tr m e = (r, e1)" by fastforce
  show ?case
  proof (cases r)
    case (Some y)
    show ?thesis
    proof (cases y)
      case (Inl err)
      with 1 r Some show ?thesis
        by (auto simp: block2_receive.simps [of tr m n bb e] split: if_splits)
    next
      case (Inr y)
      then have t: "Token y = Token m" using receiveMessage_token r Some by blast
      show ?thesis
        using 1(5) r Some Inr t 1(2-4)
        by (subst (asm) block2_receive.simps)
          (auto simp: Let_def split: option.splits if_splits prod.splits)
    qed
  qed (use 1 r in \<open>simp add: block2_receive.simps [of tr m n bb e]\<close>)
qed

lemma receiveARQBlock2_token:
  assumes "receiveARQBlock2 tr m inp e = (Some (Inr x), e')" "\<forall>y. inp = Some y \<longrightarrow> Token y = Token m"
  shows "Token x = Token m"
  using assms block2_receive_token
  by (auto simp: receiveARQBlock2_def Let_def split: option.splits if_splits prod.splits)

lemma block1_step_token:
  assumes "block1_step tr m r s e = (Some (Some (Inr x), e'), s', e'')" "\<forall>y. r = Inr y \<longrightarrow> Token y = Token m"
  shows "Token x = Token m"
  using assms receiveARQBlock2_token [of tr "deadline m" _ e x e']
  by (auto simp: block1_step_def Let_def split: sum.splits if_splits option.splits prod.splits)

lemma block1_loop_token: "block1_loop tr m s e = (Some (Inr x), e') \<Longrightarrow> Token x = Token m"
proof (induction tr m s e rule: block1_loop.induct)
  case (1 tr m s e)
  obtain r e1 where r: "receiveMessage tr m e = (r, e1)" by fastforce
  show ?case
  proof (cases r)
    case (Some y)
    obtain q s2 e2 where st: "block1_step tr m y s e1 = (q, s2, e2)" by (cases "block1_step tr m y s e1")
    have t: "\<forall>z. y = Inr z \<longrightarrow> Token z = Token m" using receiveMessage_token r Some by blast
    show ?thesis
    proof (cases q)
      case None
      then show ?thesis using 1 r Some st by (simp add: block1_loop.simps [of tr m s e])
    next
      case (Some res)
      then show ?thesis
        using block1_step_token [of tr m y s e1 x e' s2 e2] t 1(2) r \<open>r = Some y\<close> st
        by (simp add: block1_loop.simps [of tr m s e])
    qed
  qed (use 1 r in \<open>simp add: block1_loop.simps [of tr m s e]\<close>)
qed

lemma sendCON_loop_token: "sendCON_loop tr m d n e = (Some (Inr x), e') \<Longrightarrow> Token x = Token m"
proof (induction tr m d n e rule: sendCON_loop.induct)
  case (1 tr m d n e)
  let ?e0 = "if n > 0 then inc MetricRetransmitMessages e else e"
  obtain w e1 where w: "write_counted None d ?e0 = (w, e1)" by fastforce
  obtain r e2 where r: "receiveMessage tr m e1 = (r, e2)" by fastforce
  have rec: "Token x = Token m" if "r = Some (Inl ErrMaxAttempts)" "w = None" "n + 1 \<noteq> int maxSendAttempts"
    "sendCON_loop tr (deadline m) d (n + 1) e2 = (Some (Inr x), e')"
    using 1(1) [of ?e0 "n + 1" w e1 r e2] that w r by simp
  note b2 = receiveARQBlock2_token [of tr "deadline m" _ e2 x e']
  have t: "Token y = Token m" if "r = Some (Inr y)" for y
    using receiveMessage_token r that by blast
  have step: "sendCON_loop tr m d n e =
      (case w of Some err \<Rightarrow> (Some (Inl err), e1)
       | None \<Rightarrow> (case r of
           None \<Rightarrow> (None, e2)
         | Some (Inl err) \<Rightarrow>
             if err = ErrMaxAttempts then
               if n + 1 = int maxSendAttempts then (Some (Inl err), inc MetricExpiredMessages e2)
               else sendCON_loop tr (deadline m) d (n + 1) e2
             else (Some (Inl err), e2)
         | Some (Inr resp) \<Rightarrow>
             if isPingACK resp then (Some (Inr resp), e2)
             else if MType resp = ACK \<and> MCode resp = CoapCodeEmpty then receiveARQBlock2 tr (deadline m) None e2
             else if GetBlock2 resp \<noteq> None then receiveARQBlock2 tr (deadline m) (Some resp) e2
             else (Some (Inr resp), e2)))"
    using w r by (subst sendCON_loop.simps) (simp add: Let_def split: option.split sum.split)
  show ?case
  proof (cases w)
    case None
    show ?thesis
    proof (cases r)
      case (Some y)
      then show ?thesis
        using 1(2) None rec t b2 unfolding step by (cases y) (auto split: if_splits)
    qed (use 1(2) None in \<open>simp add: step\<close>)
  qed (use 1(2) in \<open>simp add: step\<close>)
qed

lemma sendCON_token: "sendCON tr m e = (Some (Inr x), e') \<Longrightarrow> Token x = Token m"
  by (auto simp: sendCON_def sendARQBlock1CON_def Let_def split: if_splits option.splits prod.splits sum.splits
      dest: block1_loop_token sendCON_loop_token)

lemma ensure_session_token:
  assumes "ensure_session hs tr m e = (Some (r, m'), e')"
  shows "Token m' = Token m \<and> MType m' = MType m \<and> GetScheme m' = GetScheme m"
proof -
  have p: "Token m' = Token m \<and> MType m' = MType m \<and> GetScheme m' = GetScheme m"
    if q: "proxy_session tr m e = (a, m', e1)" for a m' e1
  proof -
    have "m' = m \<or> (\<exists>v. m' = AddOption m OptionProxySecurityID (VUint32 v))"
      using q setProxyID_message [of m "tr_local tr" e] by (auto simp: proxy_session_def Let_def split_beta split: if_splits)
    then show ?thesis
      by (auto simp: GetOptions_AddOption intro!: GetScheme_cong)
  qed
  obtain a m1 e1 where q: "proxy_session tr m e = (a, m1, e1)" by (cases "proxy_session tr m e")
  obtain h e2 where h: "hs m1 a e1 = (h, e2)" by fastforce
  show ?thesis
    using assms p [OF q] q h by (cases h) (auto simp: ensure_session_def return_def split: if_splits)
qed

subsection \<open>A silent peer\<close>

lemma receive_timeout:
  "reads e = ReadTimeout # rs \<Longrightarrow>
    receiveMessage tr m e = (Some (Inl ErrMaxAttempts), (wait_for (Timeout m) e)\<lparr>reads := rs\<rparr>)"
  by (simp add: receiveMessage_def return_def)

lemma write_counted_ok:
  "\<forall>n. wres e n = None \<Longrightarrow> write_counted a d e = (None, (inc MetricSentMessages e)\<lparr>sent := sent e @ [(a, d)]\<rparr>)"
  by (simp add: write_counted_def socket_write_def Let_def inc_def)

lemma sendCON_loop_silent:
  assumes "reads e = replicate k ReadTimeout @ rs" "n = int maxSendAttempts - int k" "0 < k" "\<forall>n. wres e n = None"
  shows "\<exists>e'. sendCON_loop tr m d n e = (Some (Inl ErrMaxAttempts), e') \<and>
    sent e' = sent e @ replicate k (None, d) \<and> reads e' = rs \<and> clock e' = clock e \<and>
    waited e' = waited e + Timeout m + (int k - 1) * timeWait"
  using assms
proof (induction k arbitrary: n e m)
  case (Suc k)
  let ?e0 = "if n > 0 then inc MetricRetransmitMessages e else e"
  let ?e1 = "(inc MetricSentMessages ?e0)\<lparr>sent := sent e @ [(None, d)]\<rparr>"
  let ?e2 = "(wait_for (Timeout m) ?e1)\<lparr>reads := replicate k ReadTimeout @ rs\<rparr>"
  have w: "write_counted None d ?e0 = (None, ?e1)"
    using write_counted_ok [of ?e0 None d] Suc.prems(4) by simp
  have r: "receiveMessage tr m ?e1 = (Some (Inl ErrMaxAttempts), ?e2)"
    using Suc.prems(1) by (intro receive_timeout) simp
  have e2: "sent ?e2 = sent e @ [(None, d)]" "reads ?e2 = replicate k ReadTimeout @ rs" "clock ?e2 = clock e"
    "waited ?e2 = waited e + Timeout m" "\<forall>n. wres ?e2 n = None"
    using Suc.prems(4) by (simp_all add: wait_for_def)
  have step: "sendCON_loop tr m d n e = (if n + 1 = int maxSendAttempts
      then (Some (Inl ErrMaxAttempts), inc MetricExpiredMessages ?e2)
      else sendCON_loop tr (deadline m) d (n + 1) ?e2)"
    using w r by (subst sendCON_loop.simps) (simp add: Let_def)
  show ?case
  proof (cases "k = 0")
    case True
    then show ?thesis using Suc.prems(2) step e2 by simp
  next
    case False
    have "n + 1 = int maxSendAttempts - int k" using Suc.prems(2) by simp
    from Suc.IH [OF e2(2) this _ e2(5), of "deadline m"] obtain e' where
      "sendCON_loop tr (deadline m) d (n + 1) ?e2 = (Some (Inl ErrMaxAttempts), e')"
      "sent e' = sent e @ (None, d) # replicate k (None, d)" "reads e' = rs" "clock e' = clock e"
      "waited e' = waited e + Timeout m + timeWait + (int k - 1) * timeWait"
      using False e2 by (auto simp: deadline_def)
    moreover have "n + 1 \<noteq> int maxSendAttempts" using Suc.prems(2) False by simp
    ultimately show ?thesis
      using step by (intro exI [of _ e']) (simp add: algebra_simps)
  qed
qed simp

subsection \<open>The pool and the request message\<close>

lemma with_connection_balanced:
  "with_connection c addr f p e = (Some r, p', e') \<Longrightarrow> p' = p"
  by (auto simp: with_connection_def Dial_def newDialer_def Close_connection_def
      split: if_splits option.splits prod.splits sum.splits)

lemma sendCONMessage_balanced: "sendCONMessage c m p e = (Some r, p', e') \<Longrightarrow> p' = p"
  unfolding sendCONMessage_def by (auto dest: with_connection_balanced split: option.splits)

lemma request_balanced: "request c code uri opts data p e = (Some r, p', e') \<Longrightarrow> p' = p"
  unfolding request_def by (auto dest: sendCONMessage_balanced split: sum.splits prod.splits simp: Let_def)

lemma add_queries_set: "list_all (\<lambda>(k, v). v \<noteq> []) qs \<Longrightarrow> add_queries m qs = set_queries m qs"
  by (induction m qs rule: add_queries.induct) auto

subsection \<open>Samples\<close>

lemma plain_preparation:
  assumes "GetScheme m \<noteq> COAPS_SCHEME"
  shows "\<exists>buf g. preparationSendingMessage tr m addr e = (Inr buf, e\<lparr>ids := g\<rparr>)"
proof -
  have "GetScheme (fst (Clone m True (ids e))) \<noteq> COAPS_SCHEME"
    using assms by (simp add: Clone_def NewCoAPMessageId_def GetScheme_def GetOption_def split_beta Let_def)
  then show ?thesis
    by (auto simp: preparationSendingMessage_def securityOutputLayer_def with_ids_split Let_def)
qed

definition sample_ping :: coap_msg where
  "sample_ping = zero_msg\<lparr>Timeout := timeWait\<rparr>"

definition sample_client :: Client where
  "sample_client = fst (NewClient sample_transport
     (\<lambda>addr. Inr \<lparr>d_local = lit ''127.0.0.1:4000'', d_remote = addr\<rparr>) Some [])"

lemma sample_ping_simps:
  "GetScheme sample_ping \<noteq> COAPS_SCHEME" "\<not> isBigPayload sample_ping" "MType sample_ping = CON"
  "Token sample_ping = []" "Timeout sample_ping = timeWait" "ProxyAddr sample_ping = []"
  by code_simp+

lemma sample_env_simps: "wres sample_env n = None" "reads sample_env = []" "sent sample_env = []" "waited sample_env = 0"
  by (simp_all add: sample_env_def)

text \<open>The datagram of a reset message without token, the answer to a ping.\<close>

definition sample_reset :: bytes where
  "sample_reset = [112, 0, 0, 0]"

lemma sample_reset_parsed:
  obtains m where "deserialize sample_reset = (Some m, None)" "isPingACK m" "Token m = []" "Options m = []"
    "IsProxies m = False" "MCode m = CoapCodeEmpty"
proof -
  have "case fst (deserialize sample_reset) of None \<Rightarrow> False
      | Some m \<Rightarrow> isPingACK m \<and> Token m = [] \<and> Options m = [] \<and> \<not> IsProxies m \<and> MCode m = CoapCodeEmpty"
    "snd (deserialize sample_reset) = None"
    by code_simp+
  then show thesis
    using that by (cases "deserialize sample_reset") (auto split: option.splits)
qed

lemma sample_reset_accepted:
  obtains m where "accept_datagram tr sample_reset src e = (Inr m, inc MetricReceivedMessages (e\<lparr>met := met e\<rparr>))"
    "isPingACK m" "Token m = []" "Options m = []" "IsProxies m = False" "MCode m = CoapCodeEmpty"
proof -
  obtain m where m: "deserialize sample_reset = (Some m, None)" "isPingACK m" "Token m = []" "Options m = []"
    "IsProxies m = False" "MCode m = CoapCodeEmpty"
    by (rule sample_reset_parsed)
  let ?m = "m\<lparr>Sender := Some src\<rparr>"
  have v: "verifyChecksum p m = None" "verifyChecksum p ?m = None" for p
    using m(4) by (simp_all add: verifyChecksum_def GetOption_def)
  then have "Deserialize (tr_sorter tr) sample_reset (met e) = ((Some m, None), met e)"
    using m(1) by (simp add: Deserialize_def)
  then have "accept_datagram tr sample_reset src e = (Inr ?m, inc MetricReceivedMessages (e\<lparr>met := met e\<rparr>))"
    using v by (simp add: accept_datagram_def Let_def)
  with m show thesis by (intro that [of ?m]) (simp_all add: isPingACK_def)
qed

lemma sample_reset_received:
  "\<exists>m e'. preparationReceivingBuffer tr sample_reset src [] e = (Some (Inr m), e') \<and>
    isPingACK m \<and> Token m = []"
proof -
  obtain m where m: "accept_datagram tr sample_reset src e = (Inr m, inc MetricReceivedMessages (e\<lparr>met := met e\<rparr>))"
    "isPingACK m" "Token m = []" "Options m = []" "IsProxies m = False" "MCode m = CoapCodeEmpty"
    by (rule sample_reset_accepted)
  moreover have "securityInputLayer tr m [] e' = return (None, m) e'" for e'
    using m by (simp add: securityInputLayer_def withProxyID_def receiveHandshake_def handleCoapsScheme_def
        received_error_def GetScheme_def GetOption_def)
  ultimately show ?thesis by (simp add: preparationReceivingBuffer_def return_def)
qed

subsection \<open>Properties\<close>

text \<open>C10: The response to a request is one that carries its token, whether it comes as one message
  or in blocks, and whatever else arrives on the connection.\<close>

theorem response_has_token:
  assumes "Send tr m e = (Some (Inr (Some resp)), e')"
  shows "Token resp = Token m"
proof -
  let ?hs = "\<lambda>m p. handshake tr m (tr_remote tr) p"
  have con: "MType m = CON"
    using assms by (auto simp: Send_def Send_with_def return_def split: if_splits option.splits prod.splits)
  obtain a e1 where a: "ensure_session ?hs tr m e = (a, e1)" by fastforce
  with assms con obtain r1 m1 where a1: "a = Some (r1, m1)"
    by (cases a) (auto simp: Send_def Send_with_def)
  have t1: "Token m1 = Token m" using ensure_session_token a a1 by blast
  have r1: "r1 = None" using assms con a a1 by (cases r1) (auto simp: Send_def Send_with_def return_def)
  obtain b e2 where b: "sendCON tr m1 e1 = (b, e2)" by fastforce
  show ?thesis
  proof (cases "\<exists>x. b = Some (Inr x)")
    case True
    then show ?thesis
      using assms con a a1 r1 b sendCON_token t1 by (auto simp: Send_def Send_with_def return_def)
  next
    case False
    then obtain err where err: "b = Some (Inl err)" "is_session_error err"
      using assms con a a1 r1 b
      by (cases b; cases "the b") (auto simp: Send_def Send_with_def return_def split: if_splits)
    let ?m = "if reads e2 = reads e1 then m1 else deadline m1"
    obtain c e3 where c: "ensure_session ?hs tr ?m e2 = (c, e3)" by fastforce
    have S: "Send tr m e = and_then (c, e3) (\<lambda>(r, m) e3. case r of
        Some err \<Rightarrow> return (Inl err) e3
      | None \<Rightarrow> and_then (sendCON tr m e3) (\<lambda>resp. return (map_sum id Some resp)))"
      using con a a1 r1 b err c by (simp add: Send_def Send_with_def)
    with assms obtain r2 m2 where c1: "c = Some (r2, m2)" by (cases c) auto
    have t2: "Token m2 = Token m" using ensure_session_token c c1 t1 by fastforce
    have r2: "r2 = None" using assms S c1 by (cases r2) (auto simp: return_def)
    obtain d e4 where d: "sendCON tr m2 e3 = (d, e4)" by fastforce
    then have "d = Some (Inr resp)"
      using assms S c1 r2 by (cases d; cases "the d") (auto simp: return_def)
    with d have "sendCON tr m2 e3 = (Some (Inr resp), e4)" by simp
    from sendCON_token [OF this] t2 show ?thesis by simp
  qed
qed

theorem response_has_token_witness:
  "\<exists>resp e'. Send sample_transport sample_ping (sample_env\<lparr>reads := [ReadData sample_reset]\<rparr>) = (Some (Inr (Some resp)), e') \<and>
    Token resp = []"
proof -
  let ?e = "sample_env\<lparr>reads := [ReadData sample_reset]\<rparr>"
  obtain d g where d: "preparationSendingMessage sample_transport sample_ping (tr_remote sample_transport) ?e = (Inr d, ?e\<lparr>ids := g\<rparr>)"
    using plain_preparation [OF sample_ping_simps(1)] by blast
  let ?e1 = "(inc MetricSentMessages (?e\<lparr>ids := g\<rparr>))\<lparr>sent := [(None, d)]\<rparr>"
  have w: "write_counted None d (?e\<lparr>ids := g\<rparr>) = (None, ?e1)"
    using write_counted_ok [of "?e\<lparr>ids := g\<rparr>" None d] by (simp add: sample_env_simps)
  obtain m e' where m: "preparationReceivingBuffer sample_transport sample_reset (tr_remote sample_transport) [] (?e1\<lparr>reads := []\<rparr>)
      = (Some (Inr m), e')" "isPingACK m" "Token m = []"
    using sample_reset_received by blast
  have "receiveMessage sample_transport sample_ping ?e1 = (Some (Inr m), e')"
    using m by (simp add: receiveMessage_def sample_ping_simps Let_def return_def)
      (simp add: sample_reset_def limit_defs)
  then have "sendCON sample_transport sample_ping ?e = (Some (Inr m), e')"
    using d w m(2) by (simp add: sendCON_def sample_ping_simps) (subst sendCON_loop.simps, simp)
  then have s: "Send sample_transport sample_ping ?e = (Some (Inr (Some m)), e')"
    using sample_ping_simps by (simp add: Send_def Send_with_def ensure_session_plain return_def)
  show ?thesis
    using s response_has_token [OF s] by (simp add: sample_ping_simps)
qed

text \<open>C26: A small confirmable request to a silent peer ends: it is transmitted exactly six times, the
  same datagram each time, with one deadline between two transmissions, and then fails with
  ErrMaxAttempts.\<close>

theorem silent_request_gives_up:
  assumes "\<not> isBigPayload m" "preparationSendingMessage tr m (tr_remote tr) e = (Inr d, e1)"
    and "reads e = replicate maxSendAttempts ReadTimeout @ rs" "\<forall>n. wres e n = None"
  shows "\<exists>e'. sendCON tr m e = (Some (Inl ErrMaxAttempts), e') \<and>
    sent e' = sent e @ replicate 6 (None, d) \<and> reads e' = rs \<and>
    waited e' = waited e + Timeout m + 5 * timeWait"
proof -
  have q: "same_net e e1" using same_net_preparation [of e tr m "tr_remote tr"] assms(2) by simp
  then have "reads e1 = replicate maxSendAttempts ReadTimeout @ rs" "\<forall>n. wres e1 n = None"
    using assms(3,4) by (simp_all add: same_net_def)
  from sendCON_loop_silent [OF this(1) _ _ this(2), of 0 tr m d]
  show ?thesis
    using q assms(1,2) by (auto simp: sendCON_def maxSendAttempts_def same_net_def eval_nat_numeral)
qed

theorem silent_request_gives_up_witness:
  "\<exists>d e'. sendCON sample_transport sample_ping (sample_env\<lparr>reads := replicate 6 ReadTimeout\<rparr>)
      = (Some (Inl ErrMaxAttempts), e') \<and> sent e' = replicate 6 (None, d) \<and> waited e' = 6 * timeWait"
proof -
  let ?e = "sample_env\<lparr>reads := replicate 6 ReadTimeout\<rparr>"
  obtain d g where d: "preparationSendingMessage sample_transport sample_ping (tr_remote sample_transport) ?e = (Inr d, ?e\<lparr>ids := g\<rparr>)"
    using plain_preparation [OF sample_ping_simps(1)] by blast
  have "reads ?e = replicate maxSendAttempts ReadTimeout @ []" "\<forall>n. wres ?e n = None"
    by (simp_all add: sample_env_simps maxSendAttempts_def)
  from silent_request_gives_up [OF sample_ping_simps(2) d this]
  show ?thesis by (auto simp: sample_env_simps sample_ping_simps)
qed

text \<open>C27: No operation of the client leaks a connection: when it returns, on whatever path, the pool
  has as many connections in use as before.\<close>

theorem pool_balanced:
  "(\<forall>r p' e'. Client_Send c m addr opts p e = (Some r, p', e') \<longrightarrow> p' = p) \<and>
   (\<forall>r p' e'. Client_GET c uri opts p e = (Some r, p', e') \<longrightarrow> p' = p) \<and>
   (\<forall>r p' e'. Client_POST c data uri opts p e = (Some r, p', e') \<longrightarrow> p' = p) \<and>
   (\<forall>r p' e'. Client_DELETE c data uri opts p e = (Some r, p', e') \<longrightarrow> p' = p)"
  unfolding Client_Send_def Client_GET_def Client_POST_def Client_DELETE_def Let_def
  by (auto dest: with_connection_balanced request_balanced)

theorem pool_balanced_witness:
  "\<exists>r e'. Client_Send sample_client (sample_ping\<lparr>MType := NON\<rparr>) (lit ''p:1'') [] (newConnpool False) sample_env
     = (Some r, newConnpool False, e')"
proof -
  let ?m = "sample_ping\<lparr>MType := NON\<rparr>"
  have m: "GetScheme ?m \<noteq> COAPS_SCHEME" "MType ?m = NON" "MType ?m \<noteq> CON" by code_simp+
  let ?d = "\<lparr>d_local = lit ''127.0.0.1:4000'', d_remote = lit ''p:1''\<rparr>"
  obtain r1 e1 where r1: "sendToSocket (client_transport sample_client ?d) ?m sample_env = (r1, e1)" by fastforce
  have net: "c_net sample_client (lit ''p:1'') = Inr ?d" by (simp add: sample_client_def NewClient_def)
  then have "Dial (c_net sample_client) (lit ''p:1'') (newConnpool False) = (Some (Inr ?d), (newConnpool False)\<lparr>balance := 1\<rparr>)"
    by (simp add: Dial_def newDialer_def newConnpool_def NumberConnections_def)
  moreover have "fst (Send (client_transport sample_client ?d) ?m sample_env) \<noteq> None"
    using r1 m by (cases r1) (simp_all add: Send_def Send_with_def return_def)
  ultimately have "fst (Client_Send sample_client ?m (lit ''p:1'') [] (newConnpool False) sample_env) \<noteq> None"
    by (cases "Send (client_transport sample_client ?d) ?m sample_env")
      (auto simp: Client_Send_def with_connection_def return_def Let_def)
  then obtain r p' e' where "Client_Send sample_client ?m (lit ''p:1'') [] (newConnpool False) sample_env = (Some r, p', e')"
    by (cases "Client_Send sample_client ?m (lit ''p:1'') [] (newConnpool False) sample_env") auto
  moreover from this have "p' = newConnpool False"
    using pool_balanced [of sample_client ?m "lit ''p:1''" "[]" "newConnpool False" sample_env] by blast
  ultimately show ?thesis by blast
qed

lemma scheme_options:
  fixes m :: coap_msg and code :: coap_code and g :: id_source
  defines "s \<equiv> if GetScheme m = COAPS_SCHEME then SetSchemeCOAPS (fst (NewCoAPMessage CON code g))
    else SetSchemeCOAP (fst (NewCoAPMessage CON code g))"
  shows "MType s = CON" "MCode s = code" "GetScheme s = GetScheme m"
    and "c \<noteq> OptionURIScheme \<Longrightarrow> GetOptions s c = []"
proof -
  have new: "GetOptions (fst (NewCoAPMessage t code g)) d = []" for t d
    by (simp add: GetOptions_def NewCoAPMessage_fields)
  have opts: "GetOptions s d = (if d = OptionURIScheme then [NewOption OptionURIScheme
      (VInt (if GetScheme m = COAPS_SCHEME then COAPS_SCHEME else COAP_SCHEME))] else [])" for d
    by (simp add: s_def SetSchemeCOAPS_def SetSchemeCOAP_def GetOptions_AddOption new)
  show "MType s = CON" "MCode s = code"
    by (simp_all add: s_def SetSchemeCOAPS_def SetSchemeCOAP_def NewCoAPMessage_fields)
  show "GetScheme s = GetScheme m"
    using GetScheme_cases [of m] by (auto simp: GetScheme_def GetOption_GetOptions opts IntValue_def)
  show "c \<noteq> OptionURIScheme \<Longrightarrow> GetOptions s c = []" by (simp add: opts)
qed

text \<open>
  \<open>GetURI\<close> does not escape the path: a question mark ends the path of the message that is made of
  the URI and starts its query, a percent sign that begins no escape makes the URI invalid.
\<close>

lemma path_not_escaped:
  "GetURIPath (SetURIPath zero_msg (lit ''/a?b'')) = lit ''/a?b''"
  "map_option Path (url_Parse (GetURI (SetURIPath zero_msg (lit ''/a?b'')) (lit ''h''))) = Some (lit ''/a'')"
  "url_Parse (GetURI (SetURIPath zero_msg (lit ''/50%'')) (lit ''h'')) = None"
  by code_simp+

text \<open>C28: The message made of the URI of a request is that request again, when the segments of its
  path are non-empty and without slash, percent sign, question mark, hash and control bytes,
  and the keys of its query are non-empty, distinct and without equals sign: the URI it prints with \<open>GetURI\<close> is parsed by \<open>constructMessage\<close> to a confirmable
  message of the same scheme, path and query values, for the resolved address. For other
  paths it can fail (\<open>path_not_escaped\<close>).\<close>

theorem constructMessage_roundtrip:
  assumes "plain_request m kvs" "plain_host host" "\<forall>q. mset (tr_range (c_base c) q) = mset q"
  shows "\<exists>m' g' addr. constructMessage c code (GetURI m host) g = (Inr m', g') \<and>
    MType m' = CON \<and> MCode m' = code \<and> Recipient m' = Some addr \<and> GetScheme m' = GetScheme m \<and>
    GetURIPath m' = GetURIPath m \<and> (\<forall>k. GetURIQuery m' k = GetURIQuery m k)"
proof -
  obtain u where u: "url_Parse (GetURI m host) = Some u" "Scheme u = GetSchemeString m"
    "Path u = GetURIPath m" "url_ParseQuery (RawQuery u) = Some (map (\<lambda>(k, v). (k, [v])) kvs)"
    using url_Parse_GetURI [OF assms(1,2)] by blast
  obtain kvs' where kvs': "tr_range (c_base c) (map (\<lambda>(k, v). (k, [v])) kvs) = map (\<lambda>(k, v). (k, [v])) kvs'"
    "mset kvs' = mset kvs"
    by (rule perm_pairs [OF assms(3) [rule_format, of "map (\<lambda>(k, v). (k, [v])) kvs"]])
  let ?n = "fst (NewCoAPMessage CON code g)"
  define s where "s = (if GetScheme m = COAPS_SCHEME then SetSchemeCOAPS ?n else SetSchemeCOAP ?n)"
  define q where "q = set_queries (SetURIPath s (GetURIPath m)) (map (\<lambda>(k, v). (k, [v])) kvs')"
  let ?addr = "case c_resolve c (Host u) of Some a \<Rightarrow> a | None \<Rightarrow> lit ''<nil>''"
  have l: "lit ''coaps'' \<noteq> lit ''coap''" "lit ''coaps'' \<noteq> lit ''coap+tcp''" by (simp_all add: lit_def)
  have sch: "GetSchemeString m = (if GetScheme m = COAPS_SCHEME then lit ''coaps'' else lit ''coap'')"
    by (auto simp: GetSchemeString_def GetScheme_def split: option.split)
  have "add_queries x (map (\<lambda>(k, v). (k, [v])) kvs') = set_queries x (map (\<lambda>(k, v). (k, [v])) kvs')" for x
    by (rule add_queries_set) (auto simp: list_all_iff)
  then have c: "constructMessage c code (GetURI m host) g
      = (Inr (q\<lparr>Recipient := Some ?addr\<rparr>), snd (NewCoAPMessage CON code g))"
    using u kvs'(1) l by (simp add: constructMessage_def parseURI_def sch split_beta Let_def s_def q_def)
  note opts = scheme_options [where m = m and code = code and g = g, folded s_def]
  have none: "GetOptions s OptionURIPath = []" "GetOptions s OptionURIQuery = []" by (simp_all add: opts(4))
  note q = rebuilt_options [OF assms(1) kvs'(2) none, folded q_def]
  have "GetScheme q = GetScheme m"
    using GetScheme_cong [of q s] q(3) opts(3) by simp
  moreover have "MType q = CON" "MCode q = code" by (simp_all add: q_def set_queries_fields opts)
  ultimately show ?thesis
    using c q(1,2) by (intro exI [of _ "q\<lparr>Recipient := Some ?addr\<rparr>"] exI [of _ "snd (NewCoAPMessage CON code g)"] exI [of _ ?addr])
      (simp add: GetURIPath_def GetURIQuery_def GetURIQueryArray_def
        GetOptionsAsString_def GetScheme_def GetOption_GetOptions)
qed

theorem constructMessage_roundtrip_witness:
  "\<exists>m' g'. constructMessage sample_client POST (GetURI sample_request (lit ''127.0.0.1:5683'')) (ids sample_env) = (Inr m', g') \<and>
    GetURIPath m' = lit ''/lamp/1'' \<and> GetURIQuery m' (lit ''q'') = lit ''x&y=z'' \<and> GetScheme m' = COAPS_SCHEME"
proof -
  have "\<forall>q. mset (tr_range (c_base sample_client) q) = mset q"
    by (simp add: sample_client_def NewClient_def sample_transport_def)
  from constructMessage_roundtrip [OF sample_plain this, of POST "ids sample_env"]
  obtain m' g' where "constructMessage sample_client POST (GetURI sample_request (lit ''127.0.0.1:5683'')) (ids sample_env) = (Inr m', g')"
    "GetScheme m' = GetScheme sample_request" "GetURIPath m' = GetURIPath sample_request"
    "\<forall>k. GetURIQuery m' k = GetURIQuery sample_request k"
    by blast
  moreover have "GetURIPath sample_request = lit ''/lamp/1''" "GetURIQuery sample_request (lit ''q'') = lit ''x&y=z''"
    "GetScheme sample_request = COAPS_SCHEME"
    by code_simp+
  ultimately show ?thesis by metis
qed

end
