(* ===== verification/Server_Correct.thy ===== *)
theory Server_Correct
  imports Server Client_Correct
begin

text \<open>
  Correctness of the server: the proxy, the requests it sends, its TCP connections, the
  semaphore of its listening loop, and its closing.
\<close>

subsection \<open>Facts on the helpers\<close>

lemma set_env_fields [simp]:
  "sv_env (set_env e s) = e" "proxyEnable (set_env e s) = proxyEnable s" "proxyCache (set_env e s) = proxyCache s"
  "sr (set_env e s) = sr s" "tcpConns (set_env e s) = tcpConns s" "bq (shared (set_env e s)) = bq (shared s)"
  by (simp_all add: set_env_def)

lemma tick_sv_eq: "tick_sv s = (next_now (sv_env s), set_env (snd (tick (sv_env s))) s)"
  by (simp add: tick_sv_def next_now_def tick_def Let_def)

lemma write_to_eq: "write_to data addr s =
    (wres (sv_env s) (length (sent (sv_env s))), set_env ((sv_env s)\<lparr>sent := sent (sv_env s) @ [(Some addr, data)]\<rparr>) s)"
  by (simp add: write_to_def socket_write_def)

subsection \<open>A sample server\<close>

text \<open>The cache of the notes as a list of entries.\<close>

type_synonym sample_cache = "(bytes \<times> proxyNote \<times> int) list"

definition sample_platform :: "sample_cache platform" where
  "sample_platform = \<lparr>pf_base = sample_transport,
     pf_get = (\<lambda>k now c. case map_of c k of Some (v, t) \<Rightarrow> if now \<le> t + note_life then Some v else None | None \<Rightarrow> None),
     pf_set = (\<lambda>k v t c. (k, v, t) # c), pf_count = (\<lambda>c. int (length c)), pf_empty = [],
     pf_resolve = Some, pf_listen = Inr, pf_listenTCP = Inr, pf_close = (\<lambda>_. None)\<rparr>"

lemma sample_cache_laws: "cache_laws sample_platform"
  by (simp add: cache_laws_def sample_platform_def)

definition sample_sv :: "sample_cache Server" where
  "sample_sv = snd (Listen sample_platform (lit ''127.0.0.1:5683'') (Proxy True
     (NewServer sample_platform [] sample_server (newShardedCache SESSIONS_POOL_EXPIRATION))))"

definition sample_proxied :: coap_msg where
  "sample_proxied = AddOption (zero_msg\<lparr>MCode := GET\<rparr>) OptionProxyURI (VString (lit ''coap://127.0.0.1:9''))"

lemma sample_sv_simps:
  "proxyEnable sample_sv" "sr sample_sv \<noteq> None" "wres (sv_env sample_sv) = (\<lambda>_. None)"
  "bq (shared sample_sv) = new_backward" "clock (sv_env sample_sv) = int" "waited (sv_env sample_sv) = 0"
  "clock_pos (sv_env sample_sv) = 0" "sent (sv_env sample_sv) = []"
  by (simp_all add: sample_sv_def NewServer_def Proxy_def Listen_def sample_platform_def sample_server_simps
      sample_env_def Let_def)

subsection \<open>The proxy\<close>

text \<open>A server that is not a proxy forwards nothing: the goroutine of a message with a proxy
  target leaves the whole state of the server as it is, its sockets included.\<close>

theorem proxy_disabled:
  assumes "\<not> proxyEnable s"
  shows "proxy_forward pf m senderAddr tr s = s"
  using assms by (simp add: proxy_forward_def proxy_run_def sendMultyProxy_def split: option.split)

theorem proxy_disabled_witness:
  "proxy_forward sample_platform sample_proxied (lit ''127.0.0.1:7'') sample_transport (Proxy False sample_sv) = Proxy False sample_sv"
  by (rule proxy_disabled) (simp add: Proxy_def)

lemma transport_to_fields:
  "proxyEnable (snd (transport_to pf a s)) = proxyEnable s" "proxyCache (snd (transport_to pf a s)) = proxyCache s"
  "sr (snd (transport_to pf a s)) = sr s" "same_net (sv_env s) (sv_env (snd (transport_to pf a s)))"
  "bq (shared (snd (transport_to pf a s))) = bq (shared s)"
  by (simp_all add: transport_to_def tick_sv_eq Let_def split_beta same_net_tick)

lemma transport_to_some: "sr s \<noteq> None \<Longrightarrow> \<exists>tr s1. transport_to pf addr s = (Some tr, s1)"
  by (cases "fst (GetTCP addr (next_now (sv_env s)) (tcpConns s))")
    (auto simp: transport_to_def tick_sv_eq Let_def split_beta)

text \<open>C33: A proxied exchange: a forwarded message leaves without its proxy options for the host of
  its proxy URI, and for a minute a datagram of that host with the same token is passed on,
  byte for byte, to the sender of the message, and to nobody else.\<close>

theorem proxy_roundtrip:
  assumes "cache_laws pf" "url_Parse (GetOptionProxyURIasString m) = Some u"
    and "sendMultyProxy pf (RemoveOptions (RemoveOptions m OptionProxyScheme) OptionProxyURI) (Host u) s = (None, s1)"
    and "proxyCache s2 = proxyCache (proxy_forward pf m senderAddr tr s)"
    and "data \<noteq> []" "length data \<le> MTU"
    and "preparationReceivingBufferForStorageLocalStates tr2 data (Host u) (sv_env s2) = (Inr r, e2)" "Token r = Token m"
    and "next_now e2 \<le> next_now (sv_env s1) + note_life"
  shows "(\<exists>tr' :: transport. sent (sv_env (proxy_forward pf m senderAddr tr s)) = sent (sv_env s) @
        [(Some (Host u), fst (Serialize (tr_sorter tr') (RemoveOptions (RemoveOptions m OptionProxyScheme) OptionProxyURI)))]) \<and>
    (\<exists>s3. listen_step pf tr2 data (Host u) s2 = (([], False), s3) \<and>
       sent (sv_env s3) = sent (sv_env s2) @ [(Some senderAddr, data)])"
proof -
  let ?m = "RemoveOptions (RemoveOptions m OptionProxyScheme) OptionProxyURI"
  let ?note = "\<lparr>note_addr = senderAddr, note_tr = tr\<rparr>"
  let ?k = "note_key m (Host u)"
  let ?f = "proxy_forward pf m senderAddr tr s"
  have k: "note_key ?m (Host u) = ?k" "note_key r (Host u) = ?k"
    using assms(8) by (simp_all add: note_key_def GetTokenString_def RemoveOptions_def)
  have f: "proxyCache ?f = pf_set pf ?k ?note (next_now (sv_env s1)) (proxyCache s1)" "sent (sv_env ?f) = sent (sv_env s1)"
    unfolding proxy_forward_def proxy_run_def assms(2) option.case assms(3) [unfolded option_defs] k(1) [symmetric]
    by (simp_all add: assms(3) [unfolded option_defs] tick_sv_eq inc_def Let_def)
  obtain tr' s0 where t: "transport_to pf (Host u) s = (Some tr', s0)"
    "write_to (fst (Serialize (tr_sorter tr') ?m)) (Host u) s0 = (None, s1)"
    using assms(3) by (auto simp: sendMultyProxy_def split: if_splits prod.splits option.splits)
  have "sent (sv_env s0) = sent (sv_env s)"
    using transport_to_fields(4) [of s pf "Host u"] t(1) by (simp add: same_net_def)
  then have w: "sent (sv_env s1) = sent (sv_env s) @ [(Some (Host u), fst (Serialize (tr_sorter tr') ?m))]"
    using t(2) unfolding write_to_eq by auto
  have take: "take (MTU + 1) data = data" "\<not> length data > MTU" using assms(6) by simp_all
  have sent2: "sent e2 = sent (sv_env s2)"
    using assms(7) by (auto simp: preparationReceivingBufferForStorageLocalStates_def accept_datagram_def Let_def inc_def
        split: prod.splits option.splits)
  have "pf_get pf ?k (next_now e2) (proxyCache s2) = Some ?note"
    unfolding assms(4) f(1) using assms(1,9) by (simp add: cache_laws_def)
  then obtain s3 where s3: "forward_answer pf r (Host u) data (set_env e2 s2) = (True, s3)"
    "sent (sv_env s3) = sent e2 @ [(Some senderAddr, data)]"
    by (simp add: forward_answer_def tick_sv_eq k(2) write_to_eq Let_def)
  have "listen_step pf tr2 data (Host u) s2 = (([], False), s3)"
    using assms(5,7) s3(1) take by (simp add: listen_step_def listen_receive_def)
  moreover have "sent (sv_env ?f) = sent (sv_env s) @ [(Some (Host u), fst (Serialize (tr_sorter tr') ?m))]"
    using f(2) w by simp
  ultimately show ?thesis using s3(2) sent2 by (intro conjI exI [of _ tr'] exI [of _ s3]) simp_all
qed

lemma sendMultyProxy_ok:
  assumes "proxyEnable s" "sr s \<noteq> None" "wres (sv_env s) = (\<lambda>_. None)"
  shows "\<exists>s1. sendMultyProxy pf m addr s = (None, s1) \<and> clock (sv_env s1) = clock (sv_env s)"
proof -
  obtain tr s1 where t: "transport_to pf addr s = (Some tr, s1)"
    using transport_to_some [OF assms(2)] by metis
  note q = transport_to_fields(4) [where pf = pf and a = addr and s = s, unfolded t snd_conv]
  have "wres (sv_env s1) = (\<lambda>_. None)" "clock (sv_env s1) = clock (sv_env s)"
    using q assms(3) by (simp_all add: same_net_def)
  then show ?thesis using t assms(1) by (simp add: sendMultyProxy_def write_to_eq)
qed

theorem proxy_roundtrip_witness:
  "\<exists>s3. listen_step sample_platform sample_transport sample_reset (lit ''127.0.0.1:9'')
      (proxy_forward sample_platform sample_proxied (lit ''127.0.0.1:7'') sample_transport sample_sv) = (([], False), s3) \<and>
    last (sent (sv_env s3)) = (Some (lit ''127.0.0.1:7''), sample_reset)"
proof -
  let ?h = "lit ''127.0.0.1:9''" and ?pf = sample_platform
  let ?m = "RemoveOptions (RemoveOptions sample_proxied OptionProxyScheme) OptionProxyURI"
  let ?f = "proxy_forward ?pf sample_proxied (lit ''127.0.0.1:7'') sample_transport sample_sv"
  obtain u where u: "url_Parse (GetOptionProxyURIasString sample_proxied) = Some u" "Host u = ?h"
  proof -
    have "case url_Parse (GetOptionProxyURIasString sample_proxied) of Some u \<Rightarrow> Host u = ?h | None \<Rightarrow> False" by code_simp
    then show thesis using that by (auto split: option.splits)
  qed
  obtain s1 where s1: "sendMultyProxy ?pf ?m (Host u) sample_sv = (None, s1)" "clock (sv_env s1) = int"
    using sendMultyProxy_ok [OF sample_sv_simps(1-3), of ?pf ?m "Host u"] sample_sv_simps(5) by metis
  have f: "sv_env ?f = inc MetricProxySessionsRate ((snd (tick (sv_env s1)))\<lparr>met :=
      Set_counter MetricProxySessions (pf_count ?pf (proxyCache ?f)) (met (snd (tick (sv_env s1))))\<rparr>)"
    unfolding proxy_forward_def proxy_run_def u(1) option.case s1(1) [unfolded option_defs]
    by (simp add: s1(1) [unfolded option_defs] tick_sv_eq Let_def)
  obtain r where r: "accept_datagram sample_transport sample_reset ?h (sv_env ?f) =
      (Inr r, inc MetricReceivedMessages ((sv_env ?f)\<lparr>met := met (sv_env ?f)\<rparr>))" "Token r = []"
    by (rule sample_reset_accepted)
  let ?e2 = "inc MetricReceivedMessages ((sv_env ?f)\<lparr>met := met (sv_env ?f)\<rparr>)"
  have t: "next_now ?e2 \<le> next_now (sv_env s1) + note_life"
    using s1(2) unfolding f by (simp add: next_now_def inc_def note_life_def second_def)
  have p: "preparationReceivingBufferForStorageLocalStates sample_transport sample_reset (Host u) (sv_env ?f) = (Inr r, ?e2)"
    unfolding u(2) using r(1) by (simp add: preparationReceivingBufferForStorageLocalStates_def)
  have m: "Token r = Token sample_proxied" using r(2) by (simp add: sample_proxied_def zero_msg_def)
  have d: "sample_reset \<noteq> []" "length sample_reset \<le> MTU" by (simp_all add: sample_reset_def MTU_def)
  from proxy_roundtrip [OF sample_cache_laws u(1) s1(1) refl d p m t]
  show ?thesis unfolding u(2) by auto
qed

subsection \<open>Requests of the server\<close>

lemma sendTo_plain:
  assumes "GetScheme m \<noteq> COAPS_SCHEME" "sr s \<noteq> None" "wres (sv_env s) = (\<lambda>_. None)"
  obtains data s' where "sendTo pf m addr s = (None, s')" "sent (sv_env s') = sent (sv_env s) @ [(Some addr, data)]"
    "bq (shared s') = bq (shared s)" "sr s' = sr s" "wres (sv_env s') = wres (sv_env s)"
    "waited (sv_env s') = waited (sv_env s)"
proof -
  obtain tr s1 where t: "transport_to pf addr s = (Some tr, s1)"
    using transport_to_some [OF assms(2)] by metis
  note q = transport_to_fields [where pf = pf and a = addr and s = s, unfolded t snd_conv]
  obtain data g where p: "preparationSendingMessage tr m addr (sv_env s1) = (Inr data, (sv_env s1)\<lparr>ids := g\<rparr>)"
    using plain_preparation [OF assms(1)] by blast
  have w: "wres (sv_env s1) = (\<lambda>_. None)" "sent (sv_env s1) = sent (sv_env s)" "waited (sv_env s1) = waited (sv_env s)"
    using q(4) assms(3) by (simp_all add: same_net_def)
  show ?thesis
    by (rule that [of "snd (sendTo pf m addr s)" data]) (use t p w q assms(3) in \<open>simp_all add: sendTo_def write_to_eq\<close>)
qed

text \<open>Timeouts only: each round waits and sends again.\<close>

lemma send_rounds_silent:
  assumes "GetScheme m \<noteq> COAPS_SCHEME" "sr s \<noteq> None" "wres (sv_env s) = (\<lambda>_. None)"
  shows "\<exists>ds s'. send_rounds pf m addr ch n (replicate n WaitTimeout @ evs) s = (Some (Inl ErrTimeout), evs, s') \<and>
    sent (sv_env s') = sent (sv_env s) @ map (Pair (Some addr)) ds \<and> length ds = n \<and>
    waited (sv_env s') = waited (sv_env s) + int n * Timeout m \<and> bq (shared s') = bq (shared s)"
  using assms
proof (induction n arbitrary: s)
  case 0
  then show ?case by simp
next
  case (Suc n)
  let ?s = "set_env (wait_for (Timeout m) (sv_env s)) s"
  have p: "sr ?s \<noteq> None" "wres (sv_env ?s) = (\<lambda>_. None)" "sent (sv_env ?s) = sent (sv_env s)"
    "waited (sv_env ?s) = waited (sv_env s) + Timeout m" "bq (shared ?s) = bq (shared s)"
    using Suc.prems by (simp_all add: wait_for_def)
  obtain d s1 where 1: "sendTo pf m addr ?s = (None, s1)" "sent (sv_env s1) = sent (sv_env ?s) @ [(Some addr, d)]"
    "bq (shared s1) = bq (shared ?s)" "sr s1 = sr ?s" "wres (sv_env s1) = wres (sv_env ?s)"
    "waited (sv_env s1) = waited (sv_env ?s)"
    using sendTo_plain [OF Suc.prems(1) p(1,2)] by metis
  obtain ds s' where 2: "send_rounds pf m addr ch n (replicate n WaitTimeout @ evs) s1 = (Some (Inl ErrTimeout), evs, s')"
    "sent (sv_env s') = sent (sv_env s1) @ map (Pair (Some addr)) ds" "length ds = n"
    "waited (sv_env s') = waited (sv_env s1) + int n * Timeout m" "bq (shared s') = bq (shared s1)"
    using Suc.IH [of s1] Suc.prems(1) p(1,2) 1(4,5) by auto
  have "send_rounds pf m addr ch (Suc n) (replicate (Suc n) WaitTimeout @ evs) s = (Some (Inl ErrTimeout), evs, s')"
    using 1(1) 2(1) by simp
  then show ?case
    using 1 2 p by (intro exI [of _ "d # ds"] exI [of _ s']) (simp add: algebra_simps)
qed

lemma delete_update_new: "k \<notin> fst ` set m \<Longrightarrow> AList.delete k (AList.update k v m) = m"
proof (induction m)
  case (Cons a m)
  then show ?case by (cases a) auto
qed simp

text \<open>C34: A request of the server without the coaps scheme to a silent peer ends: with \<open>WithRetries(r)\<close>
  the code sends it \<open>r + 2\<close> times, which is one more than the \<open>r\<close> additional times of the README,
  the last time without waiting for an answer; it waits \<open>r + 1\<close> times the timeout of the
  message and returns the timeout error, and its channel is closed and no longer registered.\<close>

theorem server_request_gives_up:
  assumes "GetScheme m \<noteq> COAPS_SCHEME" "sr s \<noteq> None" "wres (sv_env s) = (\<lambda>_. None)" "0 \<le> r" "Timeout m \<noteq> 0"
    and "bq_ok (bq (shared s))" "map_of (channels (bq (shared s))) (resolved_key pf m addr) = None"
  shows "\<exists>ds s'. Server_Send pf [r] m addr (replicate (nat (r + 1)) WaitTimeout @ evs) s = (Some (Inl ErrTimeout), evs, s') \<and>
    sent (sv_env s') = sent (sv_env s) @ map (Pair (Some addr)) ds \<and> length ds = nat (r + 2) \<and>
    waited (sv_env s') = waited (sv_env s) + (r + 1) * Timeout m \<and>
    channels (bq (shared s')) = channels (bq (shared s)) \<and> made (bq (shared s)) \<in> set (closed (bq (shared s')))"
proof -
  let ?k = "resolved_key pf m addr" and ?b = "bq (shared s)" and ?n = "nat (r + 1)"
  obtain d s1 where 1: "sendTo pf m addr s = (None, s1)" "sent (sv_env s1) = sent (sv_env s) @ [(Some addr, d)]"
    "bq (shared s1) = ?b" "sr s1 = sr s" "wres (sv_env s1) = wres (sv_env s)" "waited (sv_env s1) = waited (sv_env s)"
    using sendTo_plain [OF assms(1-3)] by metis
  let ?b1 = "?b\<lparr>channels := AList.update ?k (made ?b) (channels ?b), made := Suc (made ?b)\<rparr>"
  have g: "bq_Get ?k ?b = (made ?b, ?b1)" using assms(7) by (simp add: bq_Get_def)
  let ?s1 = "set_bq ?b1 s1"
  have p: "sr ?s1 \<noteq> None" "wres (sv_env ?s1) = (\<lambda>_. None)" using 1(4,5) assms(2,3) by (simp_all add: set_bq_def)
  obtain ds s2 where 2: "send_rounds pf m addr (made ?b) ?n (replicate ?n WaitTimeout @ evs) ?s1 = (Some (Inl ErrTimeout), evs, s2)"
    "sent (sv_env s2) = sent (sv_env ?s1) @ map (Pair (Some addr)) ds" "length ds = ?n"
    "waited (sv_env s2) = waited (sv_env ?s1) + int ?n * Timeout m" "bq (shared s2) = bq (shared ?s1)"
    using send_rounds_silent [OF assms(1) p, of pf addr "made ?b" ?n evs] by metis
  have f: "made ?b \<notin> set (closed ?b)" "?k \<notin> fst ` set (channels ?b)"
    using assms(6,7) by (auto simp: bq_ok_def map_of_eq_None_iff)
  let ?b2 = "?b1\<lparr>channels := channels ?b, closed := made ?b # closed ?b, waiting := removeAll (made ?b) (waiting ?b)\<rparr>"
  have "AList.delete ?k (AList.update ?k (made ?b) (channels ?b)) = channels ?b"
    using f(2) by (rule delete_update_new)
  then have d: "bq_Delete ?k ?b1 = (BqDone, ?b2)"
    using f(1) by (simp add: bq_Delete_def close_channel_def update_conv')
  have t: "default_timeout m = m" using assms(5) by (simp add: default_timeout_def)
  have "Server_Send pf [r] m addr (replicate ?n WaitTimeout @ evs) s = (Some (Inl ErrTimeout), evs, set_bq ?b2 s2)"
    using assms(1) 1(1,3) 2(1,5) g d by (simp add: Server_Send_def send_def t set_bq_def)
  then show ?thesis
    using 1 2 assms(4) by (intro exI [of _ "d # ds"] exI [of _ "set_bq ?b2 s2"]) (simp add: set_bq_def)
qed

theorem server_request_gives_up_witness:
  "\<exists>ds s'. Server_Send sample_platform [2] sample_ping (lit ''127.0.0.1:9'') (replicate 3 WaitTimeout) sample_sv =
      (Some (Inl ErrTimeout), [], s') \<and> length (sent (sv_env s')) = 4 \<and> waited (sv_env s') = 3 * timeWait"
proof -
  have b: "bq_ok (bq (shared sample_sv))" "map_of (channels (bq (shared sample_sv))) (resolved_key sample_platform sample_ping (lit ''127.0.0.1:9'')) = None"
    unfolding sample_sv_simps by (simp_all add: bq_ok_def new_backward_def open_channels_def)
  have t: "Timeout sample_ping \<noteq> 0" "(0 :: int) \<le> 2" by (simp_all add: sample_ping_simps timeWait_def second_def)
  from server_request_gives_up [OF sample_ping_simps(1) sample_sv_simps(2,3) t(2,1) b, of "[]"]
  show ?thesis by (auto simp: sample_sv_simps sample_ping_simps)
qed

subsection \<open>TCP connections\<close>

text \<open>The frames of a connection handled one by one, each from bytes of its own.\<close>

fun tcp_messages :: "'c platform \<Rightarrow> dialed \<Rightarrow> bytes list \<Rightarrow> 'c Server \<Rightarrow> (goroutine \<times> nat) list \<times> 'c Server" where
  "tcp_messages pf d [] s = ([], s)"
| "tcp_messages pf d (x # xs) s =
    (let (gs, s) = tcp_message pf d (length x) x s; (gs', s) = tcp_messages pf d xs s
     in (map (\<lambda>g. (g, length x)) gs @ gs', s))"

lemma take_fill [simp]: "take (length x) (fill x arr) = x"
  by (simp add: fill_def)

lemma tcp_message_filled: "tcp_message pf d (length x) (fill x arr) s = tcp_message pf d (length x) x s"
  by (simp only: tcp_message_def take_fill take_all order.refl)

lemma filled_by_frame:
  assumes "ReadTcpFrame 65536 r = (Inr x, r')"
  shows "filled_by r = x"
  using assms by (auto simp: ReadTcpFrame_def filled_by_def ReadFull_def split: prod.splits sum.splits if_splits)

lemma tcp_loop_frames:
  assumes "list_all (\<lambda>x. length x \<le> 65536) xs" "ReadTcpFrame 65536 r = (Inl err, r')"
  shows "\<exists>arr'. tcp_loop pf d (concat (map tcp_frame xs) @ r) arr s =
    (fst (tcp_messages pf d xs s), arr', snd (tcp_messages pf d xs s))"
  using assms(1)
proof (induction xs arbitrary: arr s)
  case Nil
  then show ?case using assms(2) by (simp add: tcp_loop.simps [of pf d r] Let_def)
next
  case (Cons x xs)
  let ?r = "concat (map tcp_frame xs) @ r"
  have f: "ReadTcpFrame 65536 (tcp_frame x @ ?r) = (Inr x, ?r)"
    using Cons.prems by (intro ReadTcpFrame_frame) simp_all
  obtain gs s1 where m: "tcp_message pf d (length x) x s = (gs, s1)" by fastforce
  obtain arr' where "tcp_loop pf d ?r (fill x arr) s1 = (fst (tcp_messages pf d xs s1), arr', snd (tcp_messages pf d xs s1))"
    using Cons by fastforce
  then show ?case
    using f m by (simp add: tcp_loop.simps [of pf d "tcp_frame x @ ?r"] filled_by_frame [OF f] tcp_message_filled
        Let_def split_beta)
qed

text \<open>What a frame starts comes from the other end of the connection and is answered on it.\<close>

definition from_connection :: "'c platform \<Rightarrow> dialed \<Rightarrow> goroutine \<Rightarrow> bool" where
  "from_connection pf d g \<longleftrightarrow>
    (case g of
       Local (Arrived tr m) \<Rightarrow> tr = newServerTransport pf d \<and> Sender m = Some (d_remote d)
     | Proxying m a tr \<Rightarrow> tr = newServerTransport pf d \<and> a = d_remote d
     | _ \<Rightarrow> False)"

lemma tcp_message_from:
  "list_all (from_connection pf d) (fst (tcp_message pf d n x s)) \<and> length (fst (tcp_message pf d n x s)) \<le> 1"
  by (auto simp: tcp_message_def Let_def from_connection_def split: prod.split option.split bool.split)

lemma tcp_messages_from:
  "list_all (from_connection pf d \<circ> fst) (fst (tcp_messages pf d xs s)) \<and> length (fst (tcp_messages pf d xs s)) \<le> length xs"
proof (induction xs arbitrary: s)
  case (Cons x xs)
  show ?case
    using Cons.IH [of "snd (tcp_message pf d (length x) x s)"] tcp_message_from [of pf d "length x" x s]
    by (auto simp add: split_beta Let_def list_all_iff)
qed simp

text \<open>The slices of a message of a frame, while the buffer still begins with the frame.\<close>

lemma aliased_fresh:
  assumes "fst (Deserialize pdq x mt) = (Some m, None)"
  shows "aliased (fill x arr) (length x) (m\<lparr>Sender := a\<rparr>) = m\<lparr>Sender := a\<rparr>"
proof -
  have d: "deserialize_body x = Ret (Some m, None)"
    using assms by (cases x rule: deserialize_cases) (auto simp: Deserialize_def split: option.splits)
  have "\<exists>k. Token m = take k (drop 4 x) \<and> 4 + k \<le> length x"
    using d by (auto simp: deserialize_body_def Let_def split: if_splits loop_result.splits option.splits)
  then obtain k where t: "Token m = take k (drop 4 x)" "4 + k \<le> length x" by blast
  obtain pre p where p: "Payload m = Some (BytesPayload p)" "x = pre @ p"
    using deserialize_body_ok [OF d] by blast
  have "take (length (Token m)) (drop 4 (fill x arr)) = Token m" using t by (simp add: fill_def)
  moreover have "take (length p) (drop (length x - length p) (fill x arr)) = p"
    using p(2) by (simp add: fill_def)
  ultimately show ?thesis using p(1) by (simp add: aliased_def)
qed

lemma seen_fresh: "list_all (\<lambda>g. seen (fill x arr) (g, length x) = g) (fst (tcp_message pf d (length x) x s))"
proof -
  let ?s = "set_tcp d s" and ?tr = "newServerTransport pf d"
  have "aliased (fill x arr) (length x) (m\<lparr>Sender := a\<rparr>) = m\<lparr>Sender := a\<rparr>"
    if "Deserialize (tr_sorter ?tr) x (met (sv_env ?s)) = ((Some m, None), mt)" for m a mt
    using that by (intro aliased_fresh [of "tr_sorter ?tr" x "met (sv_env ?s)"]) simp
  then show ?thesis
    by (auto simp: tcp_message_def Let_def split: prod.split option.split bool.split)
qed

text \<open>C35: A TCP connection is served frame by frame: whatever frames its bytes hold are handled in
  order, up to the first incomplete one, and each starts at most one goroutine, for the
  message of that frame and from and to the other end of the connection. A goroutine sees
  that message as long as the buffer still begins with its frame; once the loop has read the
  next frame it no longer need (\<open>token_overwritten\<close>). At the end the connection is closed and
  taken out of the table.\<close>

theorem tcp_connection_served:
  assumes "list_all (\<lambda>x. length x \<le> 65536) (xs @ [x])" "n < length (tcp_frame x)"
    and "HandleTCPConn pf d (concat (map tcp_frame xs) @ take n (tcp_frame x)) s = (gs, arr, s')"
  shows "(\<exists>s1. tcp_messages pf d xs (set_tcp d s) = (gs, s1) \<and>
      s' = s1\<lparr>tcpConns := DeleteTCP (d_remote d) (tcpConns s1), closed_sockets := closed_sockets s1 @ [d_local d]\<rparr>) \<and>
    length gs \<le> length xs \<and> list_all (from_connection pf d \<circ> fst) gs \<and>
    (\<forall>y arr' t. list_all (\<lambda>g. seen (fill y arr') (g, length y) = g) (fst (tcp_message pf d (length y) y t)))"
proof -
  have "length x < 2 ^ 32 + 65805" "length x \<le> 65536" using assms(1) by simp_all
  then obtain err where "ReadTcpFrame 65536 (take n (tcp_frame x)) = (Inl err, [])"
    using ReadTcpFrame_truncated [OF assms(2)] by blast
  then obtain arr' where "tcp_loop pf d (concat (map tcp_frame xs) @ take n (tcp_frame x)) (replicate 65536 0) (set_tcp d s)
      = (fst (tcp_messages pf d xs (set_tcp d s)), arr', snd (tcp_messages pf d xs (set_tcp d s)))"
    using tcp_loop_frames [of xs] assms(1) by fastforce
  then have "gs = fst (tcp_messages pf d xs (set_tcp d s))"
    "s' = (snd (tcp_messages pf d xs (set_tcp d s)))\<lparr>
       tcpConns := DeleteTCP (d_remote d) (tcpConns (snd (tcp_messages pf d xs (set_tcp d s)))),
       closed_sockets := closed_sockets (snd (tcp_messages pf d xs (set_tcp d s))) @ [d_local d]\<rparr>"
    using assms(3) by (simp_all add: HandleTCPConn_def)
  then show ?thesis
    using tcp_messages_from [of pf d xs "set_tcp d s"] seen_fresh [where pf = pf and d = d]
    by (intro conjI exI [of _ "snd (tcp_messages pf d xs (set_tcp d s))"]) simp_all
qed

theorem tcp_connection_served_witness:
  "length (fst (HandleTCPConn sample_platform \<lparr>d_local = lit ''a:1'', d_remote = lit ''b:2''\<rparr>
      (tcp_frame sample_reset @ [2]) sample_sv)) \<le> 1"
proof -
  have "list_all (\<lambda>x. length x \<le> 65536) ([sample_reset] @ [[1, 2]])" "1 < length (tcp_frame [1, 2 :: byte])"
    by (simp_all add: sample_reset_def tcp_frame_def encodeLength_def)
  moreover obtain gs arr s' where h: "HandleTCPConn sample_platform \<lparr>d_local = lit ''a:1'', d_remote = lit ''b:2''\<rparr>
      (concat (map tcp_frame [sample_reset]) @ take 1 (tcp_frame [1, 2])) sample_sv = (gs, arr, s')"
    by (metis prod_cases3)
  ultimately have "length gs \<le> length [sample_reset]" using tcp_connection_served by blast
  then show ?thesis using h by (simp add: tcp_frame_def encodeLength_def)
qed

text \<open>
  A goroutine that reads its message after a later frame \<open>y\<close> was read into the buffer sees the
  token of that frame as its own: the answer to one request is sent with the token of another.
\<close>

lemma token_overwritten:
  assumes "4 + length (Token m) \<le> length y"
  shows "Token (aliased (fill y arr) n m) = take (length (Token m)) (drop 4 y)"
  using assms by (simp add: aliased_def fill_def)

subsection \<open>The semaphore of the listening loop\<close>

abbreviation loop_slots :: "'c listener \<Rightarrow> nat" where
  "loop_slots l \<equiv> length (filter (\<lambda>(by, g). by = ByLoop) (running l))"

text \<open>The invariant: as many slots in use as goroutines of the loop that have not ended.\<close>

definition slots_ok :: "'c listener \<Rightarrow> bool" where
  "slots_ok l \<longleftrightarrow> slots l = loop_slots l \<and> slots l \<le> maxParallel \<and>
     (\<forall>g. (ByLoop, g) \<in> set (running l) \<longrightarrow> of_listener g)"

lemma listen_dispatch_one: "listen_dispatch tr m a s = (gs, s') \<Longrightarrow> gs = [] \<or> (\<exists>g. gs = [g] \<and> of_listener g)"
  by (auto simp: listen_dispatch_def split: if_splits)

lemma step_task_single: "length (fst (step_task t s)) \<le> 1"
  by (cases t) (auto simp: Let_def split: prod.split option.split ls_action.split)

lemma loop_dispatch_ok:
  assumes "slots_ok l" "loop_dispatch l = Some l'"
  shows "slots_ok l'"
proof -
  obtain m a tr where h: "held l = Some (m, a, tr)" using assms(2) by (auto simp: loop_dispatch_def split: option.splits)
  obtain gs s where g: "listen_dispatch tr m a (sv l) = (gs, s)" by fastforce
  show ?thesis
    using assms h g listen_dispatch_one [OF g]
    by (auto simp: loop_dispatch_def acquire_def release_def slots_ok_def Let_def split: if_splits)
qed

text \<open>The goroutine with number \<open>i\<close> and the others.\<close>

lemma running_split:
  assumes "i < length (running l)" "running l ! i = (by, g)"
  shows "loop_slots l = length (filter (\<lambda>(by, g). by = ByLoop) (take i (running l) @ drop (Suc i) (running l))) +
      (if by = ByLoop then 1 else 0)"
    "set (take i (running l) @ drop (Suc i) (running l)) \<subseteq> set (running l)"
proof -
  have r: "running l = take i (running l) @ (by, g) # drop (Suc i) (running l)"
    using assms id_take_nth_drop by metis
  show "loop_slots l = length (filter (\<lambda>(by, g). by = ByLoop) (take i (running l) @ drop (Suc i) (running l))) +
      (if by = ByLoop then 1 else 0)"
    by (subst (1) r) simp
  show "set (take i (running l) @ drop (Suc i) (running l)) \<subseteq> set (running l)"
    using set_take_subset set_drop_subset by fastforce
qed

lemma goroutine_step_ok:
  assumes ok: "slots_ok l" and i: "i < length (running l)"
  shows "\<exists>l'. goroutine_step pf i l = Some l' \<and> slots_ok l'"
proof -
  obtain "by" g where g: "running l ! i = (by, g)" by fastforce
  note r = running_split [OF i g]
  have og: "by = ByLoop \<longrightarrow> of_listener g" using ok i g by (metis nth_mem slots_ok_def)
  show ?thesis
  proof (cases g)
    case (Proxying m a tr)
    obtain c s where p: "proxy_run pf m a tr (sv l) = (c, s)" by fastforce
    then show ?thesis
      using ok g r Proxying by (auto simp: goroutine_step_def release_def slots_ok_def Let_def)
  next
    case (Local t)
    obtain ts sh where t: "step_task t (shared (sv l)) = (ts, sh)" by fastforce
    then consider "ts = []" | u where "ts = [u]" using step_task_single [of t "shared (sv l)"] by (cases ts) auto
    then show ?thesis
    proof cases
      case 1
      then show ?thesis using ok g r Local t by (auto simp: goroutine_step_def release_def slots_ok_def Let_def)
    next
      case (2 u)
      then show ?thesis using ok g r Local t by (auto simp: goroutine_step_def release_def slots_ok_def Let_def)
    qed
  qed
qed

text \<open>C36: The slots in use are those of the goroutines of the loop that have not ended, at most
  \<open>maxParallel\<close>; a handler holds none. A goroutine gives its slot back on every path and never
  blocks in doing so, and the loop waits with a message exactly when all slots are in use.\<close>

theorem slots_accounted:
  assumes "listening pf l"
  shows "slots l = length (filter (\<lambda>(by, g). by = ByLoop) (running l)) \<and> slots l \<le> maxParallel \<and>
    (\<forall>g. (ByLoop, g) \<in> set (running l) \<longrightarrow> of_listener g) \<and>
    (\<forall>i < length (running l). goroutine_step pf i l \<noteq> None) \<and>
    (held l \<noteq> None \<longrightarrow> (loop_dispatch l = None \<longleftrightarrow> slots l = maxParallel))"
proof -
  have ok: "slots_ok l"
    using assms
  proof (induction rule: listening.induct)
    case (Receive l tr data a)
    then show ?case by (simp add: slots_ok_def loop_receive_def split: prod.split)
  next
    case (Dispatch l l')
    then show ?case using loop_dispatch_ok by blast
  next
    case (Run l i l')
    then show ?case using goroutine_step_ok [of l i pf] by auto
  qed (auto simp: slots_ok_def new_listener_def filter_map comp_def)
  have "loop_dispatch l = None \<longleftrightarrow> slots l = maxParallel" if h: "held l \<noteq> None"
    using h ok by (auto simp: loop_dispatch_def acquire_def release_def slots_ok_def Let_def
        split: option.splits prod.splits if_splits)
  then show ?thesis using ok goroutine_step_ok [OF ok, of _ pf] unfolding slots_ok_def by fastforce
qed

lemma sample_datagram:
  "\<exists>m s'. listen_receive sample_platform tr sample_reset (lit ''b:2'') sample_sv = (Some m, s') \<and>
     listen_dispatch tr m a s' = ([Local (Arrived tr m)], s')"
proof -
  obtain m where m: "accept_datagram tr sample_reset (lit ''b:2'') (sv_env sample_sv) =
      (Inr m, inc MetricReceivedMessages ((sv_env sample_sv)\<lparr>met := met (sv_env sample_sv)\<rparr>))" "Options m = []"
    by (rule sample_reset_accepted)
  let ?e = "inc MetricReceivedMessages ((sv_env sample_sv)\<lparr>met := met (sv_env sample_sv)\<rparr>)"
  have "proxyCache sample_sv = []"
    by (simp add: sample_sv_def NewServer_def Proxy_def Listen_def sample_platform_def Let_def)
  then obtain s' where f: "forward_answer sample_platform m (lit ''b:2'') sample_reset (set_env ?e sample_sv) = (False, s')"
    by (simp add: forward_answer_def tick_sv_eq sample_platform_def)
  have t: "take (MTU + 1) sample_reset = sample_reset" "\<not> length sample_reset > MTU" "sample_reset \<noteq> []"
    by (simp_all add: sample_reset_def MTU_def)
  have o: "GetOptionProxyURIasString m = []" "\<not> is_peer_hello m"
    using m(2) by (simp_all add: GetOptionProxyURIasString_def GetOptionAsString_def is_peer_hello_def GetOption_def)
  have "listen_receive sample_platform tr sample_reset (lit ''b:2'') sample_sv = (Some m, s')"
    unfolding listen_receive_def preparationReceivingBufferForStorageLocalStates_def t(1) Let_def m(1) sum.case prod.case f
    using t(2,3) by simp
  then show ?thesis using o by (auto simp: listen_dispatch_def)
qed

text \<open>A datagram is received and dispatched: one slot is in use, and its goroutine can step.\<close>

theorem slots_accounted_witness:
  "\<exists>l. listening sample_platform l \<and> slots l = 1 \<and> length (running l) = 1 \<and> goroutine_step sample_platform 0 l \<noteq> None"
proof -
  obtain tr where tr: "sr sample_sv = Some tr" using sample_sv_simps(2) by blast
  obtain m s' where m: "listen_receive sample_platform tr sample_reset (lit ''b:2'') sample_sv = (Some m, s')"
    "listen_dispatch tr m (lit ''b:2'') s' = ([Local (Arrived tr m)], s')"
    using sample_datagram by blast
  have "listening sample_platform (loop_receive sample_platform tr sample_reset (lit ''b:2'') (new_listener sample_sv))"
    by (rule listening.Receive [OF listening.Start]) (simp_all add: new_listener_def tr)
  then have h: "listening sample_platform \<lparr>sv = s', slots = 0, held = Some (m, lit ''b:2'', tr), running = []\<rparr>"
    by (simp add: loop_receive_def new_listener_def m(1))
  have "listening sample_platform \<lparr>sv = s', slots = 1, held = None, running = [(ByLoop, Local (Arrived tr m))]\<rparr>"
    by (rule listening.Dispatch [OF h]) (simp add: loop_dispatch_def acquire_def m(2) maxParallel_def)
  from this slots_accounted [OF this] show ?thesis by fastforce
qed

subsection \<open>Closing\<close>

text \<open>The first \<open>Close\<close> closes both listeners; every later one, also after a \<open>Refresh\<close>, closes
  nothing and returns the same.\<close>

lemma Close_once:
  assumes "\<not> closeOnce s" "Close pf s = (r, s1)"
  shows "closed_sockets s1 = closed_sockets s @
      (case sr s of Some tr \<Rightarrow> [tr_local tr] | None \<Rightarrow> []) @ (case tcpLn s of Some a \<Rightarrow> [a] | None \<Rightarrow> [])"
    and "closeOnce s1" "closeErr s1 = r"
  using assms by (auto simp: Close_def close_socket_def Let_def split: option.splits if_splits)

lemma Close_again: "closeOnce s \<Longrightarrow> Close pf s = (closeErr s, s)"
  by (simp add: Close_def)

lemma Refresh_closeOnce: "closeOnce (snd (Refresh pf s)) = closeOnce s \<and> closeErr (snd (Refresh pf s)) = closeErr s"
  by (auto simp: Refresh_def close_socket_def Let_def split: option.split sum.split)

end
