(* ===== verification/Spec2Isabelle.thy ===== *)
theory Spec2Isabelle
  imports Coap_Cli Connections Secure_Channel Server_Correct
begin

text \<open>
  A verification library for coalago, a CoAP library in Go with block-wise transfer by
  selective repeat, an encrypted scheme of its own (\<open>coaps\<close>), TCP framing and a proxy mode.

  \<^bold>\<open>The program.\<close> A message (\<open>message.go\<close>, \<open>options.go\<close>) is serialised with a checksum option.
  A client (\<open>client.go\<close>) builds one from a URI, takes a connection from a pool and sends it by
  a transport (\<open>transport.go\<close>): small requests are repeated until answered, large ones are cut
  into blocks and sent in a window; responses are received whole or in blocks. Under the
  scheme coaps a handshake (\<open>security.go\<close>) agrees on keys by Curve25519 and HKDF, and messages
  are sealed with AES-GCM (\<open>session/\<close>, \<open>encryption.go\<close>); sessions live in a cache with expiry
  (\<open>storage.go\<close>). A server (\<open>server.go\<close>) reads datagrams or TCP frames, forwards those for or
  from a proxied peer, hands answers to its own waiting requests (\<open>backward_storage.go\<close>) and
  gives the rest to a local state per sender and token (\<open>localstate.go\<close>), which collects the
  blocks of a request, and whose handler calls the resource (\<open>layerRequest.go\<close>, \<open>resource.go\<close>).

  \<^bold>\<open>The theories\<close>, each importing the ones it uses.

    \<^item> \<open>Coala_Prelude\<close>: bytes, literals, Go integers, big-endian words. \<open>Go_Map\<close>: the interface of a
      map (locale, interpreted by association lists). \<open>Go_Url\<close>: \<open>strings\<close> and \<open>net/url\<close>.
    \<^item> \<open>Coap_Constants\<close>, \<open>Coap_Metrics\<close>, \<open>Coap_Options\<close>, \<open>Coap_Message\<close>, \<open>Coap_Uri\<close>: \<open>constants.go\<close>,
      \<open>metrics.go\<close>, \<open>options.go\<close> and the data of \<open>message.go\<close> and \<open>common.go\<close>.
    \<^item> \<open>Coap_Wire\<close> (serialising and parsing), \<open>Coap_Codec\<close> and \<open>Coap_Roundtrip\<close> (lemmas),
      \<open>Coap_Checksum\<close>: the round trip of the format, what the parser accepts, the checksum.
    \<^item> \<open>Coap_Block\<close>: \<open>block.go\<close> and the segmentation of \<open>common.go\<close> and \<open>transport.go\<close>.
    \<^item> \<open>Sharded_Cache\<close>: the cache of \<open>storage.go\<close> refines one map; \<open>Session_Store\<close>: the stores built on
      it through the locale \<open>ttl_store\<close>.
    \<^item> \<open>Secure_Session\<close>: \<open>session/*.go\<close>; \<open>Coala_Env\<close>: the environment, the session functions of
      \<open>security.go\<close> and \<open>encryption.go\<close>; \<open>Secure_Message\<close>: secured messages are read back, hide
      what they should and are sealed with a nonce of their own.
    \<^item> \<open>Transport_Send\<close> and \<open>Arq_Sender\<close>: sending, the rounds of the loops and what they keep of the
      window, bounds on datagrams and time; \<open>Transport_Receive\<close>: the security input layer and reception;
      \<open>Block_Assembly\<close>: reassembly, shared by both sides; \<open>Arq_Receiver\<close>: receiving blocks, sending
      large requests, \<open>sendCON\<close>, and the invariant of the window between any two rounds of both
      sending loops; \<open>Client_Send\<close>: handshake, \<open>Send\<close>, pool and \<open>client.go\<close>;
      \<open>Client_Correct\<close>: what a client may rely on.
    \<^item> \<open>Tcp_Framing\<close>: the framing of \<open>connections_tcp.go\<close>; \<open>Connections\<close>: the UDP connection, the
      cache of resolved addresses (through \<open>ttl_store\<close>) and the wrapper of a TCP listener;
      \<open>Backward_Storage\<close>: \<open>backward_storage.go\<close> under every interleaving.
    \<^item> \<open>Coap_Resource\<close>, \<open>Layer_Request\<close>: the registry and the answers; \<open>Local_State\<close>: local states, the
      goroutines of a server as tasks, and their interleavings; \<open>Server\<close>: \<open>server.go\<close>, with
      the listening loop, its semaphore and its goroutines as steps; \<open>Server_Correct\<close>: proxy, requests of the server, TCP connections, semaphore, closing.
    \<^item> \<open>Session_Invariant\<close>: the invariant of the session pools over all operations of client and
      server; \<open>Secure_Channel\<close>: both ends together, the handshake between a client and a server
      and a secured request from the call of the sender to the local state of the receiver.
    \<^item> \<open>Coap_Show\<close>: \<open>ToReadableString\<close>, payload texts and the keys made from tokens and ids;
      \<open>Coap_Cli\<close>: \<open>cmd/coap-cli/main.go\<close>; its flags are parsed by the package \<open>flag\<close> of the standard
      library, of which \<open>parse_flags\<close> and its helpers model what the client uses.

  \<^bold>\<open>State and effects.\<close> Messages are values; the process-wide state and the environment of a call are
  one record \<open>env\<close>: metrics, id source, proxy ids, session pool, and as streams read in order the
  clock, the random sources, the datagrams a socket delivers and the errors its writes return;
  \<open>sent\<close> records what was written. A fallible function returns a sum, a nil dereference or an
  index out of range is the error \<open>GoPanic\<close>. A call that waits for an event that does not come
  returns \<open>None\<close>. Integers that wrap on the wire are words; Go's \<open>int\<close> is \<open>int\<close>, with \<open>go_int\<close>
  where it can overflow. Loops over received events end because each round uses up an
  event, so no fuel is used; the two loops that may not end are partial functions: the
  segmentation, proved to return for every message, and \<open>SetUDPRecvBuf\<close>, which returns exactly
  when the kernel accepts one of the sizes it tries. Goroutines are tasks whose steps are the code
  between two accesses to shared state (\<open>Local_State.serving\<close>, \<open>Server.listening\<close>,
  \<open>Backward_Storage.bq_runs\<close>); every interleaving of steps is a run.

  \<^bold>\<open>Parameters\<close>, code that is not in the repository, with the laws that are assumed of it where a
  property needs one: the primitives of \<open>crypto\<close> (\<open>crypto_laws\<close>), the order in which \<open>sort.Sort\<close>
  leaves equal keys of long lists (\<open>sorter\<close>) and in which a map is ranged over, \<open>go-cache\<close>
  (\<open>cache_laws\<close>), the resolver and the calls that open and close sockets, the handlers of
  resources, and the texts that other packages print (\<open>cli_text\<close>). Every property with such a
  hypothesis has a witness on a concrete instance.

  \<^bold>\<open>Not modelled\<close>: sockets themselves and \<open>time.Timer\<close>; the methods that only pass a call on to a
  socket; the media type constants, which the library never uses; fields that nothing reads
  (\<open>LastSent\<close>, \<open>Context\<close>, the hash of a resource); that a message
  is changed in place where the caller could see it (the sorting of its options by \<open>Serialize\<close>, its
  timeout); what a request that waits for a hello sees of its message when later frames of a TCP
  connection are read into the same buffer; the examples, which only call what is modelled.
  The goroutines of a TCP connection see their messages through that buffer (\<open>Server.seen\<close>): each
  as it was received while the buffer begins with its frame, with the bytes of a later frame
  in its token and payload afterwards (\<open>Server_Correct.token_overwritten\<close>). A panic of a
  goroutine without recover is recorded in the server (\<open>crashed\<close>).

  \<^bold>\<open>Bounds.\<close> Reassembly is proved for payloads below \<open>2 ^ 38\<close> bytes, where block numbers fit the 28
  bits of the option; frames for fewer than \<open>2 ^ 32 + 65805\<close> bytes, what the length prefix can say.
\<close>

end
